(* ===== verification/Prelude.thy ===== *)
theory Prelude
  imports Main "HOL-Library.Word" "HOL-Library.Signed_Division"
begin

text \<open>
  Shared vocabulary of the development: Go's \<^verbatim>\<open>int64\<close> arithmetic, the outcome of a Go
  call (a value, a panic, or no return at all), Go error values, and the functions of the
  standard packages \<^verbatim>\<open>strings\<close> and \<^verbatim>\<open>strconv\<close> that the sources call, with the lemmas
  about them that several components use.
  Go strings are byte strings; a byte is a \<^typ>\<open>char\<close>.
\<close>

section \<open>Collections of rewrite rules\<close>

named_theorems go_simps \<open>unfolding rules of the Go outcome monad and its helpers\<close>
named_theorems str_simps \<open>rules about split, join and the number formats\<close>

section \<open>Go integers\<close>

text \<open>
  A Go \<^verbatim>\<open>int64\<close> (and \<^verbatim>\<open>int\<close>, which has 64 bits on the platforms the service runs on) is an
  \<^typ>\<open>int\<close> in the signed 64 bit range; \<open>wrap64\<close> is the two's complement wrap-around that
  \<open>+\<close>, \<open>-\<close> and \<open>*\<close> perform. Division truncates towards zero (\<open>sdiv\<close>).
\<close>

type_synonym int64 = int

definition wrap64 :: "int \<Rightarrow> int64" where
  "wrap64 x = (x + 2 ^ 63) mod 2 ^ 64 - 2 ^ 63"

definition in64 :: "int \<Rightarrow> bool" where
  "in64 x \<longleftrightarrow> - (2 ^ 63) \<le> x \<and> x < 2 ^ 63"

lemma wrap64_id [simp]: "in64 x \<Longrightarrow> wrap64 x = x"
  by (simp add: wrap64_def in64_def)

lemma in64_wrap64 [simp, intro]: "in64 (wrap64 x)"
proof -
  have "0 \<le> (x + 2 ^ 63) mod 2 ^ 64" "(x + 2 ^ 63) mod 2 ^ 64 < 2 ^ 64"
    by simp_all
  then show ?thesis by (simp add: wrap64_def in64_def)
qed

lemma in64_small: "- (2 ^ 62) \<le> x \<Longrightarrow> x \<le> 2 ^ 62 \<Longrightarrow> in64 x"
  by (simp add: in64_def)

lemma sdiv_pos: "0 \<le> (a::int) \<Longrightarrow> 0 < b \<Longrightarrow> a sdiv b = a div b"
  by (cases "a = 0") (simp_all add: signed_divide_int_def)

lemma div_mult_bounds:
  assumes "0 < (n::int)"
  shows "x div n * n \<le> x" "x < x div n * n + n"
  using assms pos_mod_bound [of n x] pos_mod_sign [of n x] div_mult_mod_eq [of x n] by linarith+

lemma int_div_le_self:
  assumes "0 \<le> (x::int)" and "0 < n"
  shows "0 \<le> x div n" "x div n \<le> x"
proof -
  show nonneg: "0 \<le> x div n" using assms by (simp add: pos_imp_zdiv_nonneg_iff)
  have "x div n * 1 \<le> x div n * n" using assms nonneg by (intro mult_left_mono) auto
  with div_mult_bounds(1) [OF assms(2), of x] show "x div n \<le> x" by simp
qed

section \<open>Outcomes of Go calls\<close>

text \<open>
  A call returns a value, panics, or does not return (an endless loop). An error of Go's
  \<^verbatim>\<open>error\<close> interface is an ordinary value, so a fallible call returns a pair whose second
  component is an \<^typ>\<open>'a option\<close> of an error.
\<close>

datatype 'a go = Ret 'a | Panic string | Diverge

fun bind_go :: "'a go \<Rightarrow> ('a \<Rightarrow> 'b go) \<Rightarrow> 'b go" where
  "bind_go (Ret x) f = f x"
| "bind_go (Panic m) f = Panic m"
| "bind_go Diverge f = Diverge"

lemma bind_go_eq_Ret [go_simps]:
  "bind_go m f = Ret y \<longleftrightarrow> (\<exists>x. m = Ret x \<and> f x = Ret y)"
  by (cases m) auto

lemma bind_go_assoc [go_simps]:
  "bind_go (bind_go m f) g = bind_go m (\<lambda>x. bind_go (f x) g)"
  by (cases m) auto

lemma bind_go_Ret [simp]: "bind_go m Ret = m"
  by (cases m) auto

text \<open>
  Go error values. \<open>ErrNotFound\<close> is gocql's sentinel, which the code compares with \<^verbatim>\<open>==\<close>;
  \<open>Err\<close> is an error made by \<^verbatim>\<open>errors.New\<close> or \<^verbatim>\<open>fmt.Errorf\<close> and carries its text;
  \<open>AppErr\<close> is \<^verbatim>\<open>error.AppError\<close>, a status code wrapped around an error.
\<close>

datatype go_error = ErrNotFound | Err string | AppErr int go_error

fun Error :: "go_error \<Rightarrow> string" where
  "Error ErrNotFound = ''not found''"
| "Error (Err m) = m"
| "Error (AppErr c e) = Error e"

type_synonym 'a result = "'a \<times> go_error option"

section \<open>strings.Split and strings.Join\<close>

fun split_on :: "char \<Rightarrow> string \<Rightarrow> string list" where
  "split_on c [] = [[]]"
| "split_on c (x # xs) =
     (if x = c then [] # split_on c xs
      else (case split_on c xs of
              [] \<Rightarrow> [[x]]
            | w # ws \<Rightarrow> (x # w) # ws))"

fun join :: "string \<Rightarrow> string list \<Rightarrow> string" where
  "join sep [] = []"
| "join sep [w] = w"
| "join sep (w # v # ws) = w @ sep @ join sep (v # ws)"

lemma split_on_not_Nil [simp]: "split_on c s \<noteq> []"
  by (induction s) (auto split: list.splits)

lemma length_split_on [simp]: "0 < length (split_on c s)"
  by simp

lemma split_on_no_sep [str_simps]: "c \<notin> set s \<Longrightarrow> split_on c s = [s]"
  by (induction s) auto

lemma split_on_append_sep [str_simps]:
  "c \<notin> set w \<Longrightarrow> split_on c (w @ c # s) = w # split_on c s"
  by (induction w) auto

lemma length_split_on_count: "length (split_on c s) = Suc (count_list s c)"
  by (induction s) (auto split: list.splits)

lemma split_on_single_iff: "length (split_on c s) = 1 \<longleftrightarrow> c \<notin> set s"
  by (simp add: length_split_on_count count_list_0_iff)

lemma split_on_sep_free: "w \<in> set (split_on c s) \<Longrightarrow> c \<notin> set w"
proof (induction s arbitrary: w)
  case Nil
  then show ?case by simp
next
  case (Cons x xs)
  obtain v vs where v: "split_on c xs = v # vs"
    by (cases "split_on c xs") auto
  with Cons.IH have free: "u \<in> set (v # vs) \<Longrightarrow> c \<notin> set u" for u by simp
  with Cons.prems v show ?case by (auto split: if_splits)
qed

lemma split_on_join [str_simps]:
  "ws \<noteq> [] \<Longrightarrow> \<forall>w \<in> set ws. c \<notin> set w \<Longrightarrow> split_on c (join [c] ws) = ws"
proof (induction "[c]" ws rule: join.induct)
  case (3 w v ws)
  then show ?case by (simp add: split_on_append_sep)
qed (auto simp: split_on_no_sep)

lemma join_split_on: "join [c] (split_on c s) = s"
proof (induction s)
  case (Cons x xs)
  obtain v vs where v: "split_on c xs = v # vs"
    by (cases "split_on c xs") auto
  with Cons show ?case by (cases vs) auto
qed simp

section \<open>strings.LastIndex\<close>

text \<open>\<^verbatim>\<open>strings.LastIndex(s, ".")\<close>: the index of the last occurrence, or -1.\<close>

fun last_index :: "char \<Rightarrow> string \<Rightarrow> int" where
  "last_index c [] = -1"
| "last_index c (x # xs) =
     (let i = last_index c xs in
      if i \<ge> 0 then i + 1 else if x = c then 0 else -1)"

lemma last_index_absent [str_simps]: "c \<notin> set s \<Longrightarrow> last_index c s = -1"
  by (induction s) (auto simp: Let_def)

lemma last_index_ge: "-1 \<le> last_index c s"
  by (induction s) (auto simp: Let_def)

lemma last_index_less: "last_index c s < int (length s)"
  by (induction s) (auto simp: Let_def)

lemma last_index_append_sep [str_simps]:
  "c \<notin> set t \<Longrightarrow> last_index c (s @ c # t) = int (length s)"
proof (induction s)
  case Nil
  then show ?case by (simp add: last_index_absent)
next
  case (Cons x xs)
  then show ?case by simp
qed

section \<open>strconv: Itoa and ParseInt (Atoi is ParseInt in base 10)\<close>

definition digit_char :: "nat \<Rightarrow> char" where
  "digit_char d = char_of (48 + d)"

definition is_digit :: "char \<Rightarrow> bool" where
  "is_digit c \<longleftrightarrow> 48 \<le> (of_char c :: nat) \<and> (of_char c :: nat) \<le> 57"

definition digit_val :: "char \<Rightarrow> nat" where
  "digit_val c = of_char c - 48"

lemma digit_char_props [simp]:
  assumes "d < 10"
  shows "is_digit (digit_char d)" "digit_val (digit_char d) = d"
  using assms by (simp_all add: is_digit_def digit_char_def digit_val_def)

fun nat_digits :: "nat \<Rightarrow> string" where
  "nat_digits n = (if n < 10 then [digit_char n] else nat_digits (n div 10) @ [digit_char (n mod 10)])"

declare nat_digits.simps [simp del]

definition Itoa :: "int \<Rightarrow> string" where
  "Itoa i = (if i < 0 then CHR ''-'' # nat_digits (nat (- i)) else nat_digits (nat i))"

text \<open>
  \<^verbatim>\<open>ParseUint\<close> reads the digits from the left, and stops with a syntax error at the first byte
  that is no digit or with a range error at the first digit that leaves the 64 bit range.
\<close>

datatype uint_result = UOk nat | USyntax | URange

fun parse_uint_loop :: "nat \<Rightarrow> string \<Rightarrow> uint_result" where
  "parse_uint_loop acc [] = UOk acc"
| "parse_uint_loop acc (c # cs) =
     (if \<not> is_digit c then USyntax
      else if 10 * acc + digit_val c \<ge> 2 ^ 64 then URange
      else parse_uint_loop (10 * acc + digit_val c) cs)"

definition parse_uint :: "string \<Rightarrow> uint_result" where
  "parse_uint s = (if s = [] then USyntax else parse_uint_loop 0 s)"

text \<open>
  \<^verbatim>\<open>strconv.ParseInt(s, 10, 64)\<close>: the value and whether the error is non-nil. The value that
  comes with an error is what Go returns: 0 for a syntax error, the nearest bound for a range
  error.
\<close>

definition parse_signed :: "bool \<Rightarrow> string \<Rightarrow> int64 \<times> bool" where
  "parse_signed neg s =
     (case parse_uint s of
        USyntax \<Rightarrow> (0, True)
      | URange \<Rightarrow> (if neg then - (2 ^ 63) else 2 ^ 63 - 1, True)
      | UOk n \<Rightarrow>
          if \<not> neg \<and> n \<ge> 2 ^ 63 then (2 ^ 63 - 1, True)
          else if neg \<and> n > 2 ^ 63 then (- (2 ^ 63), True)
          else (if neg then - int n else int n, False))"

definition ParseInt :: "string \<Rightarrow> int64 \<times> bool" where
  "ParseInt s =
     (case s of
        [] \<Rightarrow> (0, True)
      | c # cs \<Rightarrow>
          if c = CHR ''+'' then parse_signed False cs
          else if c = CHR ''-'' then parse_signed True cs
          else parse_signed False s)"

lemma ParseInt_in64: "ParseInt s = (v, e) \<Longrightarrow> in64 v"
  by (auto simp: ParseInt_def parse_signed_def in64_def
        split: list.splits if_splits uint_result.splits)

lemma nat_digits_is_digit: "c \<in> set (nat_digits n) \<Longrightarrow> is_digit c"
proof (induction n rule: nat_digits.induct)
  case (1 n)
  then show ?case by (cases "n < 10") (auto simp: nat_digits.simps [of n])
qed

lemma nat_digits_not_Nil [simp]: "nat_digits n \<noteq> []"
  by (subst nat_digits.simps) simp

lemma parse_uint_loop_append:
  "parse_uint_loop acc (xs @ ys) =
     (case parse_uint_loop acc xs of UOk a \<Rightarrow> parse_uint_loop a ys | r \<Rightarrow> r)"
  by (induction xs arbitrary: acc) auto

lemma parse_uint_loop_nat_digits:
  "n < 2 ^ 64 \<Longrightarrow> parse_uint_loop 0 (nat_digits n) = UOk n"
proof (induction n rule: nat_digits.induct)
  case (1 n)
  show ?case
  proof (cases "n < 10")
    case True
    then show ?thesis by (simp add: nat_digits.simps [of n])
  next
    case False
    with "1.IH" "1.prems" have "parse_uint_loop 0 (nat_digits (n div 10)) = UOk (n div 10)"
      by simp
    moreover have "10 * (n div 10) + n mod 10 = n" by simp
    ultimately show ?thesis
      using False "1.prems" by (simp add: nat_digits.simps [of n] parse_uint_loop_append)
  qed
qed

lemma parse_uint_nat_digits: "n < 2 ^ 64 \<Longrightarrow> parse_uint (nat_digits n) = UOk n"
  by (simp add: parse_uint_def parse_uint_loop_nat_digits)

lemma not_is_digit [simp]:
  "\<not> is_digit CHR ''-''" "\<not> is_digit CHR ''+''" "\<not> is_digit CHR ''.''"
  "\<not> is_digit CHR '',''" "\<not> is_digit CHR ''/''" "\<not> is_digit CHR ''*''" "\<not> is_digit CHR '' ''"
  by (simp_all add: is_digit_def)

lemma nat_digits_no [simp]: "\<not> is_digit c \<Longrightarrow> c \<notin> set (nat_digits n)"
  using nat_digits_is_digit by blast

lemma nat_digits_Cons: "nat_digits n = c # cs \<Longrightarrow> is_digit c"
  using nat_digits_is_digit [of c n] by simp

lemma ParseInt_nonneg_Itoa: "0 \<le> i \<Longrightarrow> i < 2 ^ 63 \<Longrightarrow> ParseInt (Itoa i) = (i, False)"
proof -
  assume i: "0 \<le> i" "i < 2 ^ 63"
  then have small: "nat i < 2 ^ 63" by (simp add: nat_less_iff)
  obtain c cs where c: "nat_digits (nat i) = c # cs"
    by (cases "nat_digits (nat i)") auto
  then have "is_digit c" by (rule nat_digits_Cons)
  then have "c \<noteq> CHR ''+''" "c \<noteq> CHR ''-''" by auto
  then have "ParseInt (Itoa i) = parse_signed False (nat_digits (nat i))"
    using i c by (simp add: ParseInt_def Itoa_def)
  then show ?thesis
    using i small by (simp add: parse_signed_def parse_uint_nat_digits)
qed

lemma ParseInt_Itoa [str_simps]: "in64 i \<Longrightarrow> ParseInt (Itoa i) = (i, False)"
proof (cases "0 \<le> i")
  case True
  moreover assume "in64 i"
  ultimately show ?thesis by (simp add: ParseInt_nonneg_Itoa in64_def)
next
  case False
  assume "in64 i"
  with False have "nat (- i) \<le> 2 ^ 63" "nat (- i) < 2 ^ 64"
    by (auto simp: in64_def nat_le_iff nat_less_iff)
  with False show ?thesis
    by (simp add: Itoa_def ParseInt_def parse_signed_def parse_uint_nat_digits)
qed

lemma Itoa_nonneg_no [simp]: "0 \<le> i \<Longrightarrow> \<not> is_digit c \<Longrightarrow> c \<notin> set (Itoa i)"
  by (simp add: Itoa_def)

lemma Itoa_nonneg_Cons:
  assumes "0 \<le> i"
  obtains c cs where "Itoa i = c # cs" and "is_digit c"
proof -
  obtain c cs where c: "nat_digits (nat i) = c # cs"
    by (cases "nat_digits (nat i)") auto
  then have "is_digit c" by (rule nat_digits_Cons)
  with c assms show thesis by (intro that [of c cs]) (simp_all add: Itoa_def)
qed

lemma Itoa_not_Nil [simp]: "Itoa i \<noteq> []"
  by (simp add: Itoa_def)

lemma Itoa_inject: "in64 i \<Longrightarrow> in64 j \<Longrightarrow> Itoa i = Itoa j \<longleftrightarrow> i = j"
  using ParseInt_Itoa by (metis prod.inject)

section \<open>strings.ToUpper against ASCII names\<close>

text \<open>
  The code upper-cases a string only to compare it with ASCII names. Beside the ASCII letters,
  two runes have an ASCII upper case: U+0131 (bytes C4 B1, upper case I) and U+017F (bytes
  C5 BF, upper case S). Every other non-ASCII rune keeps a byte above 127 in its upper case, so
  leaving its bytes as they are decides the same comparisons.
\<close>

fun to_upper :: "string \<Rightarrow> string" where
  "to_upper [] = []"
| "to_upper [c] =
     [if 97 \<le> (of_char c :: nat) \<and> (of_char c :: nat) \<le> 122 then char_of ((of_char c :: nat) - 32) else c]"
| "to_upper (c # d # s) =
     (if c = CHR 0xC4 \<and> d = CHR 0xB1 then CHR ''I'' # to_upper s
      else if c = CHR 0xC5 \<and> d = CHR 0xBF then CHR ''S'' # to_upper s
      else (if 97 \<le> (of_char c :: nat) \<and> (of_char c :: nat) \<le> 122 then char_of ((of_char c :: nat) - 32) else c)
             # to_upper (d # s))"

end
