(* ===== verification/Cron.thy ===== *)
theory Cron
  imports Prelude
begin

text \<open>
  The package \<^verbatim>\<open>cron\<close> (src/cron/cron.go): the parsers of the five fields of a cron expression,
  the parser of a whole expression and the matcher against a point in time.
  The first half holds the definitions, the second half a grammar of cron fields with its
  denotation, and the lemmas that the parsers read the grammar and reject everything out of
  range.
\<close>

section \<open>The code\<close>

text \<open>
  \<^verbatim>\<open>steps\<close>: a loop that may not end, for an increment of 0. \<open>None\<close> is "does not return".
\<close>

partial_function (option) steps :: "int64 \<Rightarrow> int64 \<Rightarrow> int64 \<Rightarrow> int64 list option" where
  "steps start stop increment =
     (if start < stop
      then Option.bind (steps (wrap64 (start + increment)) stop increment) (\<lambda>rest. Some (start # rest))
      else Some [])"

definition steps_from :: "int64 \<Rightarrow> int64 \<Rightarrow> int64 \<Rightarrow> (int64 list \<times> string) go" where
  "steps_from start stop increment =
     (case steps start stop increment of None \<Rightarrow> Diverge | Some l \<Rightarrow> Ret (l, []))"

text \<open>\<^verbatim>\<open>ParseStep\<close>: a list of values and an error text, empty when there is no error.\<close>

definition ParseStep :: "string \<Rightarrow> int64 \<Rightarrow> (int64 list \<times> string) go" where
  "ParseStep s rng =
     (let parts = split_on CHR ''/'' s in
      if length parts = 2 then
        (case ParseInt (parts ! 1) of (increment, err) \<Rightarrow>
           if err then Ret ([], ''Cannot parse step value from '' @ s)
           else
             (let from_start = (\<lambda>start.
                    if start > rng then Ret ([], ''Start cannot be greater than range'')
                    else steps_from start rng increment)
              in if parts ! 0 \<noteq> ''*'' then
                   (case ParseInt (parts ! 0) of (start, err') \<Rightarrow>
                      if err' then Ret ([], ''Cannot parse start value from '' @ s)
                      else if increment = 0 then Panic ''runtime error: integer divide by zero''
                      else from_start
                        (wrap64 (wrap64 (wrap64 (start + increment - 1) sdiv increment) * increment)))
                 else from_start 0))
      else if length parts \<noteq> 1 then Ret ([], ''Invalid cron format '' @ s)
      else Ret ([], []))"

definition ParseRange :: "string \<Rightarrow> int64 \<Rightarrow> int64 \<Rightarrow> (int64 list \<times> string) go" where
  "ParseRange s mn mx =
     (let parts = split_on CHR ''-'' s in
      if length parts = 2 then
        (case ParseInt (parts ! 0) of (start, err) \<Rightarrow>
           if err then Ret ([], ''Cannot parse start value from '' @ s)
           else (case ParseInt (parts ! 1) of (stop, err') \<Rightarrow>
             if err' then Ret ([], ''Cannot parse end value from '' @ s)
             else if start \<le> stop \<and> start \<ge> mn \<and> stop \<le> mx
             then steps_from start (wrap64 (stop + 1)) 1
             else Ret ([], ''Invalid start and/or end in range '' @ s)))
      else if length parts \<noteq> 1 then Ret ([], ''Invalid cron format '' @ s)
      else Ret ([], []))"

text \<open>
  The loop over the comma separated parts, which the five field parsers share up to the short
  names (\<open>names\<close>), the bounds, the conversion of a range and the text of the range error.
\<close>

fun parse_parts ::
  "(string \<Rightarrow> int64 option) \<Rightarrow> int64 \<Rightarrow> int64 \<Rightarrow> (int64 list \<Rightarrow> int64 list) \<Rightarrow> string
     \<Rightarrow> int64 list \<Rightarrow> string list \<Rightarrow> (int64 list \<times> string) go" where
  "parse_parts names mn mx conv msg acc [] = Ret (acc, [])"
| "parse_parts names mn mx conv msg acc (part # parts) =
     (case names part of
        Some v \<Rightarrow> parse_parts names mn mx conv msg (acc @ [v]) parts
      | None \<Rightarrow>
          bind_go (ParseRange part mn mx) (\<lambda>(st, message).
            if length message > 0 then Ret ([], message)
            else if length st > 0 then parse_parts names mn mx conv msg (acc @ conv st) parts
            else (case ParseInt part of (v, err) \<Rightarrow>
              if err then Ret ([], ''Cannot parse '' @ part @ '' to int'')
              else if v < mn \<or> v > mx then Ret ([], msg)
              else parse_parts names mn mx conv msg (acc @ [v]) parts)))"

definition no_names :: "string \<Rightarrow> int64 option" where
  "no_names part = None"

text \<open>A field that accepts steps: the step parser first, then the comma separated parts.\<close>

definition parse_step_field ::
  "int64 \<Rightarrow> int64 \<Rightarrow> int64 \<Rightarrow> (int64 list \<Rightarrow> int64 list) \<Rightarrow> string \<Rightarrow> string
     \<Rightarrow> (int64 list \<times> string) go" where
  "parse_step_field rng mn mx conv msg s =
     (if s \<noteq> ''*'' then
        bind_go (ParseStep s rng) (\<lambda>(st, message).
          if length message \<noteq> 0 then Ret ([], message)
          else if length st > 0 then Ret (conv st, [])
          else parse_parts no_names mn mx conv msg [] (split_on CHR '','' s))
      else Ret ([], []))"

definition ParseMinute :: "string \<Rightarrow> (int64 list \<times> string) go" where
  "ParseMinute = parse_step_field 60 0 59 (\<lambda>l. l) ''Minute should be between 0 and 59''"

definition ParseHour :: "string \<Rightarrow> (int64 list \<times> string) go" where
  "ParseHour = parse_step_field 24 0 23 (\<lambda>l. l) ''Hour should be between 0 and 24''"

definition toDay :: "int64 list \<Rightarrow> int64 list" where
  "toDay l = filter (\<lambda>day. day > 0) l"

definition ParseDay :: "string \<Rightarrow> (int64 list \<times> string) go" where
  "ParseDay = parse_step_field 31 1 31 toDay ''Day should be between 1 and 31''"

text \<open>The search for a short name: the index of the first name equal to the upper-cased part.\<close>

fun find_name :: "string list \<Rightarrow> int64 \<Rightarrow> string \<Rightarrow> int64 option" where
  "find_name [] i part = None"
| "find_name (val # vals) i part =
     (if val = to_upper part then Some i else find_name vals (i + 1) part)"

definition month_names :: "string list" where
  "month_names = [''JAN'', ''FEB'', ''MAR'', ''APR'', ''MAY'', ''JUN'', ''JUL'', ''AUG'',
                  ''SEP'', ''OCT'', ''NOV'', ''DEC'']"

definition weekday_names :: "string list" where
  "weekday_names = [''SUN'', ''MON'', ''TUE'', ''WED'', ''THU'', ''FRI'', ''SAT'']"

definition ParseMonth :: "string \<Rightarrow> (int64 list \<times> string) go" where
  "ParseMonth s =
     (if s \<noteq> ''*'' then
        parse_parts (find_name month_names 1) 1 12 (\<lambda>l. l) ''Month should be between 1 and 12''
          [] (split_on CHR '','' s)
      else Ret ([], []))"

definition ParseWeekday :: "string \<Rightarrow> (int64 list \<times> string) go" where
  "ParseWeekday s =
     (if s \<noteq> ''*'' then
        parse_parts (find_name weekday_names 0) 0 6 (\<lambda>l. l) ''Weekday should be between 0 and 6''
          [] (split_on CHR '','' s)
      else Ret ([], []))"

record Expression =
  Minute :: "int64 list"
  Hour :: "int64 list"
  Day :: "int64 list"
  Month :: "int64 list"
  Weekday :: "int64 list"

definition empty_expression :: Expression where
  "empty_expression = \<lparr>Minute = [], Hour = [], Day = [], Month = [], Weekday = []\<rparr>"

text \<open>
  \<^verbatim>\<open>Parse\<close>: the expression and the list of error texts; a field that fails keeps its zero
  value, and the parsers run in the order of the fields.
\<close>

definition Parse :: "string \<Rightarrow> (Expression \<times> string list) go" where
  "Parse s =
     (let parts = split_on CHR '' '' s in
      if length parts \<noteq> 5
      then Ret (empty_expression, [''String doesn't match valid cron format, \"* * * * *\"''])
      else
        bind_go (ParseMinute (parts ! 0)) (\<lambda>(minutes, e0).
        bind_go (ParseHour (parts ! 1)) (\<lambda>(hours, e1).
        bind_go (ParseDay (parts ! 2)) (\<lambda>(days, e2).
        bind_go (ParseMonth (parts ! 3)) (\<lambda>(months, e3).
        bind_go (ParseWeekday (parts ! 4)) (\<lambda>(weekdays, e4).
          Ret (\<lparr>Minute = (if e0 \<noteq> [] then [] else minutes),
                Hour = (if e1 \<noteq> [] then [] else hours),
                Day = (if e2 \<noteq> [] then [] else days),
                Month = (if e3 \<noteq> [] then [] else months),
                Weekday = (if e4 \<noteq> [] then [] else weekdays)\<rparr>,
               filter (\<lambda>e. e \<noteq> []) [e0, e1, e2, e3, e4])))))))"

text \<open>
  The broken-down local time that \<^verbatim>\<open>time.Time\<close> gives for its location: year, second 0-59, minute
  0-59, hour 0-23, day 1-31, month 1-12 and weekday 0-6 (Sunday is 0).
\<close>

record civil =
  tYear :: int64
  tSecond :: int64
  tMinute :: int64
  tHour :: int64
  tDay :: int64
  tMonth :: int64
  tWeekday :: int64

fun contains :: "int64 list \<Rightarrow> int64 \<Rightarrow> bool" where
  "contains [] val = True"
| "contains (x # xs) val = (val \<in> set (x # xs))"

definition Match :: "Expression \<Rightarrow> civil \<Rightarrow> bool" where
  "Match e t \<longleftrightarrow>
     contains (Minute e) (tMinute t) \<and> contains (Hour e) (tHour t) \<and> contains (Day e) (tDay t) \<and>
     contains (Month e) (tMonth t) \<and> contains (Weekday e) (tWeekday t)"

text \<open>
  \<^verbatim>\<open>toInt64\<close> takes a value of any type and panics unless it is a list of one of the five types of fields. \<^verbatim>\<open>Match\<close> calls it for one field
  after the other, as long as they contain the time; it never panics, and \<open>Match\<close> is its result.
\<close>

datatype field_values =
  Minutes "int64 list" | Hours "int64 list" | Days "int64 list" | Months "int64 list" | Weekdays "int64 list" | OtherType string

fun toInt64 :: "field_values \<Rightarrow> int64 list go" where
  "toInt64 (Minutes l) = Ret l"
| "toInt64 (Hours l) = Ret l"
| "toInt64 (Days l) = Ret l"
| "toInt64 (Months l) = Ret l"
| "toInt64 (Weekdays l) = Ret l"
| "toInt64 (OtherType name) = Panic (''Unknonw type '' @ name @ '' supplied in toInt64'')"

fun match_fields :: "(field_values \<times> int64) list \<Rightarrow> bool go" where
  "match_fields [] = Ret True"
| "match_fields ((f, val) # fs) = bind_go (toInt64 f) (\<lambda>l. if contains l val then match_fields fs else Ret False)"

lemma match_fields_Match:
  "match_fields [(Minutes (Minute e), tMinute t), (Hours (Hour e), tHour t), (Days (Day e), tDay t), (Months (Month e), tMonth t),
     (Weekdays (Weekday e), tWeekday t)] = Ret (Match e t)"
  by (simp add: Match_def)

section \<open>The loop of steps\<close>

declare steps.simps [code]

lemma steps_stop: "stop \<le> start \<Longrightarrow> steps start stop inc = Some []"
  by (simp add: steps.simps)

lemma steps_more:
  "start < stop \<Longrightarrow> steps start stop inc =
     map_option ((#) start) (steps (wrap64 (start + inc)) stop inc)"
  by (subst steps.simps) (cases "steps (wrap64 (start + inc)) stop inc"; simp)

lemma steps_zero_diverges:
  assumes "in64 start" and "start < stop"
  shows "steps start stop 0 = None"
proof (cases "steps start stop 0")
  case (Some l)
  have "steps start stop 0 = map_option ((#) start) (steps start stop 0)"
    using steps_more [of start stop 0] assms by simp
  then have "l = start # l" unfolding Some by simp
  then have "length l = length (start # l)" by (rule arg_cong)
  then show ?thesis by simp
qed simp

text \<open>What a loop with a positive increment returns: the arithmetic progression below \<open>stop\<close>.\<close>

definition progression :: "int64 \<Rightarrow> int64 \<Rightarrow> int64 \<Rightarrow> int64 list" where
  "progression start stop inc = filter (\<lambda>v. inc dvd (v - start)) [start..stop - 1]"

lemma no_multiple_below:
  assumes "0 < (inc::int)" and "start < v" and "v < start + inc"
  shows "\<not> inc dvd (v - start)"
  using assms zdvd_not_zless [of "v - start" inc] by simp

lemma progression_step:
  assumes "0 < inc" and "start < stop"
  shows "progression start stop inc = start # progression (start + inc) stop inc"
proof -
  have dvd_shift: "inc dvd (v - start) \<longleftrightarrow> inc dvd (v - (start + inc))" for v
  proof -
    have "v - (start + inc) = (v - start) + (- 1) * inc" by simp
    then show ?thesis by (simp only: dvd_add_times_triv_right_iff)
  qed
  have head: "[start..stop - 1] = start # [start + 1..stop - 1]"
    using assms(2) by (simp add: upto_rec1)
  have gap: "filter (\<lambda>v. inc dvd (v - start)) [start + 1..j] = []" if "j < start + inc" for j
    using assms(1) that no_multiple_below by (auto simp: filter_empty_conv)
  show ?thesis
  proof (cases "start + inc < stop")
    case True
    then have split: "[start + 1..stop - 1] = [start + 1..start + inc - 1] @ [start + inc..stop - 1]"
      using assms(1) by (intro upto_split1) auto
    have "filter (\<lambda>v. inc dvd (v - start)) [start + 1..stop - 1] =
          filter (\<lambda>v. inc dvd (v - (start + inc))) [start + inc..stop - 1]"
      unfolding split using gap [of "start + inc - 1"] by (simp add: dvd_shift)
    then show ?thesis by (simp add: progression_def head)
  next
    case False
    then have "[start + inc..stop - 1] = []" by simp
    moreover have "filter (\<lambda>v. inc dvd (v - start)) [start + 1..stop - 1] = []"
      using False by (intro gap) simp
    ultimately show ?thesis by (simp add: progression_def head)
  qed
qed

lemma steps_progression:
  assumes "0 < inc" and "in64 start" and "in64 (stop + inc)" and "in64 stop"
  shows "steps start stop inc = Some (progression start stop inc)"
  using assms(2)
proof (induction "nat (stop - start)" arbitrary: start rule: less_induct)
  case less
  show ?case
  proof (cases "start < stop")
    case True
    have range: "in64 (start + inc)"
      using True less.prems assms(1,3) by (auto simp: in64_def)
    have "nat (stop - (start + inc)) < nat (stop - start)"
      using True assms(1) by simp
    then have "steps (start + inc) stop inc = Some (progression (start + inc) stop inc)"
      using range by (rule less.hyps)
    then show ?thesis
      using True range by (simp add: steps_more progression_step [OF assms(1) True])
  next
    case False
    then have "[start..stop - 1] = []" by simp
    then show ?thesis using False by (simp add: steps_stop progression_def)
  qed
qed

lemma set_progression:
  "set (progression start stop inc) = {v. start \<le> v \<and> v < stop \<and> inc dvd (v - start)}"
  by (auto simp: progression_def)

lemma progression_1: "progression start stop 1 = [start..stop - 1]"
  by (simp add: progression_def)

lemma progression_Nil_iff: "progression start stop inc = [] \<longleftrightarrow> stop \<le> start"
proof
  assume "progression start stop inc = []"
  then have "start \<notin> set (progression start stop inc)" by simp
  then show "stop \<le> start" by (auto simp: set_progression)
qed (simp add: progression_def)

lemma steps_1:
  "in64 start \<Longrightarrow> in64 (stop + 1) \<Longrightarrow> in64 stop \<Longrightarrow> steps start stop 1 = Some [start..stop - 1]"
  by (simp add: steps_progression progression_1)

section \<open>A grammar of cron fields and its denotation\<close>

text \<open>
  The documented forms of a field: \<open>*\<close>, a comma separated list of values, ranges and short
  names, and for the fields that allow them the steps \<open>*/n\<close> and \<open>a/n\<close>.
\<close>

datatype item = Single int64 | Range int64 int64 | Name string

datatype field = Star | Items "item list" | Every int64 | From int64 int64

fun print_item :: "item \<Rightarrow> string" where
  "print_item (Single v) = Itoa v"
| "print_item (Range a b) = Itoa a @ ''-'' @ Itoa b"
| "print_item (Name w) = w"

fun print_field :: "field \<Rightarrow> string" where
  "print_field Star = ''*''"
| "print_field (Items its) = join '','' (map print_item its)"
| "print_field (Every n) = ''*/'' @ Itoa n"
| "print_field (From a n) = Itoa a @ ''/'' @ Itoa n"

fun item_values :: "(string \<Rightarrow> int64 option) \<Rightarrow> item \<Rightarrow> int64 list" where
  "item_values names (Single v) = [v]"
| "item_values names (Range a b) = [a..b]"
| "item_values names (Name w) = (case names w of None \<Rightarrow> [] | Some v \<Rightarrow> [v])"

fun valid_item :: "(string \<Rightarrow> int64 option) \<Rightarrow> int64 \<Rightarrow> int64 \<Rightarrow> item \<Rightarrow> bool" where
  "valid_item names lo hi (Single v) \<longleftrightarrow> lo \<le> v \<and> v \<le> hi"
| "valid_item names lo hi (Range a b) \<longleftrightarrow> lo \<le> a \<and> a \<le> b \<and> b \<le> hi"
| "valid_item names lo hi (Name w) \<longleftrightarrow>
     names w \<noteq> None \<and> CHR '','' \<notin> set w \<and> CHR ''/'' \<notin> set w \<and> CHR '' '' \<notin> set w"

text \<open>The next multiple of the increment at or after the start, where \<open>a/n\<close> begins.\<close>

definition next_multiple :: "int64 \<Rightarrow> int64 \<Rightarrow> int64" where
  "next_multiple a n = (a + n - 1) div n * n"

fun denotes :: "(string \<Rightarrow> int64 option) \<Rightarrow> int64 \<Rightarrow> int64 \<Rightarrow> field \<Rightarrow> int64 \<Rightarrow> bool" where
  "denotes names lo rng Star v \<longleftrightarrow> True"
| "denotes names lo rng (Items its) v \<longleftrightarrow> (\<exists>it \<in> set its. v \<in> set (item_values names it))"
| "denotes names lo rng (Every n) v \<longleftrightarrow> lo \<le> v \<and> v < rng \<and> n dvd v"
| "denotes names lo rng (From a n) v \<longleftrightarrow> a \<le> v \<and> v < rng \<and> n dvd v"

fun valid_plain :: "(string \<Rightarrow> int64 option) \<Rightarrow> int64 \<Rightarrow> int64 \<Rightarrow> field \<Rightarrow> bool" where
  "valid_plain names lo hi Star \<longleftrightarrow> True"
| "valid_plain names lo hi (Items its) \<longleftrightarrow> its \<noteq> [] \<and> list_all (valid_item names lo hi) its"
| "valid_plain names lo hi _ \<longleftrightarrow> False"

fun valid_step :: "int64 \<Rightarrow> int64 \<Rightarrow> field \<Rightarrow> bool" where
  "valid_step lo rng (Every n) \<longleftrightarrow> 0 < n \<and> n < rng"
| "valid_step lo rng (From a n) \<longleftrightarrow> lo \<le> a \<and> 0 < n \<and> n < 2 ^ 62 \<and> next_multiple a n < rng"
| "valid_step lo rng _ \<longleftrightarrow> False"

text \<open>
  What a field parser promises: \<open>*\<close> is the empty list, a list of items is read as its values,
  and, without a step, it always returns and every value it accepts is in bounds.
\<close>

locale cron_field =
  fixes parse :: "string \<Rightarrow> (int64 list \<times> string) go"
    and names :: "string \<Rightarrow> int64 option"
    and lo hi :: int64
  assumes parse_star: "parse ''*'' = Ret ([], [])"
    and parse_items: "its \<noteq> [] \<Longrightarrow> list_all (valid_item names lo hi) its \<Longrightarrow>
      parse (print_field (Items its)) = Ret (concat (map (item_values names) its), [])"
    and parse_total: "CHR ''/'' \<notin> set s \<Longrightarrow> \<exists>vs e. parse s = Ret (vs, e)"
    and parse_bounds: "CHR ''/'' \<notin> set s \<Longrightarrow> parse s = Ret (vs, []) \<Longrightarrow> v \<in> set vs \<Longrightarrow> lo \<le> v \<and> v \<le> hi"
begin

lemma items_nonempty:
  assumes "its \<noteq> []" and "list_all (valid_item names lo hi) its"
  shows "concat (map (item_values names) its) \<noteq> []"
proof -
  from assms obtain it rest where it: "its = it # rest" and "valid_item names lo hi it"
    by (cases its) auto
  then have "item_values names it \<noteq> []" by (cases it) auto
  with it show ?thesis by simp
qed

lemma plain_field_sound:
  assumes "valid_plain names lo hi f"
  shows "\<exists>vs. parse (print_field f) = Ret (vs, []) \<and> (\<forall>v. contains vs v \<longleftrightarrow> denotes names lo rng f v)"
proof (cases f)
  case Star
  then show ?thesis using parse_star by (intro exI [of _ "[]"] conjI allI) simp_all
next
  case (Items its)
  define vs where "vs = concat (map (item_values names) its)"
  from assms Items have its: "its \<noteq> []" "list_all (valid_item names lo hi) its" by simp_all
  have "parse (print_field f) = Ret (vs, [])"
    unfolding Items vs_def by (rule parse_items [OF its])
  moreover have "vs \<noteq> []" unfolding vs_def by (rule items_nonempty [OF its])
  then have "contains vs v \<longleftrightarrow> v \<in> set vs" for v by (cases vs) auto
  then have "\<forall>v. contains vs v \<longleftrightarrow> denotes names lo rng f v"
    by (simp add: vs_def Items)
  ultimately show ?thesis by blast
qed (use assms in simp_all)

end

text \<open>A field that also accepts steps below \<open>rng\<close>.\<close>

locale cron_step_field = cron_field parse names lo hi
  for parse :: "string \<Rightarrow> (int64 list \<times> string) go"
    and names :: "string \<Rightarrow> int64 option"
    and lo hi :: int64 +
  fixes rng :: int64
  assumes parse_step: "valid_step lo rng f \<Longrightarrow>
    \<exists>vs. parse (print_field f) = Ret (vs, []) \<and> vs \<noteq> [] \<and> set vs = {v. denotes names lo rng f v}"
begin

lemma step_field_sound:
  assumes "valid_plain names lo hi f \<or> valid_step lo rng f"
  shows "\<exists>vs. parse (print_field f) = Ret (vs, []) \<and> (\<forall>v. contains vs v \<longleftrightarrow> denotes names lo rng f v)"
  using assms
proof
  assume "valid_step lo rng f"
  then obtain vs where vs: "parse (print_field f) = Ret (vs, [])" "vs \<noteq> []"
      "set vs = {v. denotes names lo rng f v}"
    using parse_step by blast
  then have "contains vs v \<longleftrightarrow> denotes names lo rng f v" for v
    by (cases vs) auto
  with vs(1) show ?thesis by blast
qed (rule plain_field_sound)

end

section \<open>The parsers implement the interface\<close>

lemma steps_from_1:
  assumes "in64 a" and "b < 2 ^ 62" and "a \<le> b"
  shows "steps_from a (wrap64 (b + 1)) 1 = Ret ([a..b], [])"
proof -
  have "in64 (b + 1)" "in64 (b + 1 + 1)"
    using assms by (auto simp: in64_def)
  then show ?thesis using assms by (simp add: steps_from_def steps_1)
qed

lemma ParseRange_cases:
  assumes "mx < 2 ^ 62"
  obtains (range) a b where "ParseRange s mn mx = Ret ([a..b], [])" "mn \<le> a" "a \<le> b" "b \<le> mx"
  | (none) "ParseRange s mn mx = Ret ([], [])"
  | (error) m where "ParseRange s mn mx = Ret ([], m)" "m \<noteq> []"
proof (cases "length (split_on CHR ''-'' s) = 2")
  case True
  obtain a e where a: "ParseInt (split_on CHR ''-'' s ! 0) = (a, e)" by fastforce
  obtain b e' where b: "ParseInt (split_on CHR ''-'' s ! 1) = (b, e')" by fastforce
  from a have "in64 a" by (rule ParseInt_in64)
  then have ok: "a \<le> b \<Longrightarrow> b \<le> mx \<Longrightarrow> steps_from a (wrap64 (b + 1)) 1 = Ret ([a..b], [])"
    using assms by (intro steps_from_1) auto
  show thesis
  proof (cases "\<not> e \<and> \<not> e' \<and> a \<le> b \<and> mn \<le> a \<and> b \<le> mx")
    case good: True
    then show thesis using True a b ok by (intro range [of a b]) (auto simp: ParseRange_def)
  next
    case bad: False
    then have "\<exists>m. ParseRange s mn mx = Ret ([], m) \<and> m \<noteq> []"
      using True a b by (auto simp: ParseRange_def)
    then show thesis using error by blast
  qed
next
  case False
  then show thesis
    by (cases "length (split_on CHR ''-'' s) = 1") (auto simp: ParseRange_def Let_def intro: none error)
qed

lemma ParseRange_no_dash: "CHR ''-'' \<notin> set s \<Longrightarrow> ParseRange s mn mx = Ret ([], [])"
  by (simp add: ParseRange_def split_on_no_sep)

lemma ParseRange_print:
  assumes "0 \<le> mn" and "mx < 2 ^ 62" and "mn \<le> a" "a \<le> b" "b \<le> mx"
  shows "ParseRange (print_item (Range a b)) mn mx = Ret ([a..b], [])"
proof -
  have "split_on CHR ''-'' (Itoa a @ ''-'' @ Itoa b) = [Itoa a, Itoa b]"
    using assms by (simp add: split_on_append_sep split_on_no_sep)
  moreover have "in64 a" "in64 b" using assms by (auto simp: in64_def)
  ultimately show ?thesis
    using assms steps_from_1 [of a b] by (simp add: ParseRange_def ParseInt_Itoa)
qed

text \<open>The loop over the parts always returns, and what it accepts is in bounds.\<close>

lemma parse_parts_total:
  assumes "mx < 2 ^ 62"
  shows "\<exists>vs e. parse_parts names mn mx conv msg acc parts = Ret (vs, e)"
proof (induction parts arbitrary: acc)
  case (Cons part parts)
  show ?case
    by (rule ParseRange_cases [OF assms, of part mn])
       (auto simp: Cons.IH split: option.splits prod.splits)
qed simp

lemma parse_parts_bounds:
  assumes "mx < 2 ^ 62"
    and "\<And>p v. names p = Some v \<Longrightarrow> mn \<le> v \<and> v \<le> mx"
    and "\<And>l. set (conv l) \<subseteq> set l"
  shows "parse_parts names mn mx conv msg acc parts = Ret (vs, []) \<Longrightarrow> msg \<noteq> [] \<Longrightarrow>
    \<forall>v \<in> set acc. mn \<le> v \<and> v \<le> mx \<Longrightarrow> \<forall>v \<in> set vs. mn \<le> v \<and> v \<le> mx"
proof (induction parts arbitrary: acc)
  case (Cons part parts)
  show ?case
  proof (cases "names part")
    case (Some v)
    with Cons.prems assms(2) [OF Some] show ?thesis by (intro Cons.IH [of "acc @ [v]"]) auto
  next
    case None
    show ?thesis
    proof (rule ParseRange_cases [OF assms(1), of part mn])
      fix a b assume r: "ParseRange part mn mx = Ret ([a..b], [])" "mn \<le> a" "a \<le> b" "b \<le> mx"
      then have "\<forall>v \<in> set (acc @ conv [a..b]). mn \<le> v \<and> v \<le> mx"
        using Cons.prems(3) assms(3) [of "[a..b]"] by fastforce
      with Cons.prems None r show ?thesis by (intro Cons.IH [of "acc @ conv [a..b]"]) auto
    next
      assume "ParseRange part mn mx = Ret ([], [])"
      with Cons.prems None show ?thesis
        by (intro Cons.IH [of "acc @ [fst (ParseInt part)]"]) (auto split: prod.splits if_splits)
    next
      fix m assume "ParseRange part mn mx = Ret ([], m)" "m \<noteq> []"
      with Cons.prems None show ?thesis by auto
    qed
  qed
qed simp

lemma parse_parts_items:
  assumes "0 \<le> mn" and "mx < 2 ^ 62"
    and conv: "\<And>l. \<forall>v \<in> set l. mn \<le> v \<Longrightarrow> conv l = l"
    and digits: "\<And>c s. is_digit c \<Longrightarrow> names (c # s) = None"
  shows "list_all (valid_item names mn mx) its \<Longrightarrow>
    parse_parts names mn mx conv msg acc (map print_item its) =
      Ret (acc @ concat (map (item_values names) its), [])"
proof (induction its arbitrary: acc)
  case (Cons it its)
  have num: "names (Itoa v) = None" "names (Itoa v @ r) = None" if v: "0 \<le> v" for v r
    by (rule Itoa_nonneg_Cons [OF v], simp add: digits)+
  show ?case
  proof (cases it)
    case (Single v)
    then have v: "0 \<le> v" "mn \<le> v" "v \<le> mx" "in64 v"
      using Cons.prems assms(1,2) by (auto simp: in64_def)
    then show ?thesis
      using Single Cons num by (simp add: ParseRange_no_dash ParseInt_Itoa)
  next
    case (Range a b)
    then have ab: "mn \<le> a" "a \<le> b" "b \<le> mx" using Cons.prems by auto
    with ParseRange_print [OF assms(1,2) ab] have
      "ParseRange (Itoa a @ CHR ''-'' # Itoa b) mn mx = Ret ([a..b], [])" by simp
    moreover have "conv [a..b] = [a..b]" using ab by (intro conv) auto
    ultimately show ?thesis
      using Range Cons ab num [of a] assms(1) by simp
  next
    case (Name w)
    then show ?thesis using Cons by auto
  qed
qed simp

lemma set_joinD: "c \<in> set (join sep ws) \<Longrightarrow> c \<in> set sep \<or> (\<exists>w \<in> set ws. c \<in> set w)"
  by (induction sep ws rule: join.induct) auto

lemma print_item_free:
  assumes "valid_item names lo hi it" and "0 \<le> lo" and "c \<in> {CHR '','', CHR ''/'', CHR '' ''}"
  shows "c \<notin> set (print_item it)"
  using assms by (cases it) auto

lemma print_items_free:
  assumes "list_all (valid_item names lo hi) its" and "0 \<le> lo" and "c \<in> {CHR ''/'', CHR '' ''}"
  shows "c \<notin> set (print_field (Items its))"
proof
  assume "c \<in> set (print_field (Items its))"
  then obtain it where "it \<in> set its" "c \<in> set (print_item it)"
    using assms(3) set_joinD [of c "'',''" "map print_item its"] by auto
  with assms print_item_free [of names lo hi it c] show False
    by (auto simp: list_all_iff)
qed

lemma print_items_not_star:
  assumes "its \<noteq> []" and "list_all (valid_item names lo hi) its" and "0 \<le> lo"
    and "names ''*'' = None"
  shows "print_field (Items its) \<noteq> ''*''"
proof (cases "tl its")
  case Nil
  with assms(1) obtain it where it: "its = [it]" by (cases its) auto
  have "Itoa v \<noteq> ''*''" if "0 \<le> v" for v
    by (rule Itoa_nonneg_Cons [OF that]) auto
  moreover have "Itoa v @ CHR ''-'' # r \<noteq> ''*''" for v r
    by (cases "Itoa v") auto
  ultimately show ?thesis using assms it by (cases it) auto
next
  case (Cons b rest)
  with assms(1) obtain a where "its = a # b # rest" by (cases its) auto
  then have "CHR '','' \<in> set (print_field (Items its))" by simp
  then show ?thesis by auto
qed

lemma split_print_items:
  assumes "its \<noteq> []" and "list_all (valid_item names lo hi) its" and "0 \<le> lo"
  shows "split_on CHR '','' (print_field (Items its)) = map print_item its"
  using assms print_item_free [of names lo hi _ "CHR '',''"]
  by (auto simp: list_all_iff intro!: split_on_join)

lemma ParseStep_no_slash: "CHR ''/'' \<notin> set s \<Longrightarrow> ParseStep s rng = Ret ([], [])"
  by (simp add: ParseStep_def split_on_no_sep)

lemma parse_step_field_plain:
  "CHR ''/'' \<notin> set s \<Longrightarrow> s \<noteq> ''*'' \<Longrightarrow>
     parse_step_field rng mn mx conv msg s = parse_parts no_names mn mx conv msg [] (split_on CHR '','' s)"
  by (simp add: parse_step_field_def ParseStep_no_slash)

lemma next_multiple_ge: "0 < n \<Longrightarrow> a \<le> next_multiple a n"
  unfolding next_multiple_def using div_mult_bounds(2) [of n "a + n - 1"] by linarith

lemma next_multiple_least:
  assumes "0 < n" and "n dvd v" and "a \<le> v"
  shows "next_multiple a n \<le> v"
proof -
  from assms(2) obtain k where k: "v = n * k" by (rule dvdE)
  have "a + n - 1 < (k + 1) * n" using assms k by (simp add: algebra_simps)
  with div_mult_bounds(1) [OF assms(1), of "a + n - 1"]
  have "(a + n - 1) div n * n < (k + 1) * n" by linarith
  then have "(a + n - 1) div n < k + 1" using assms(1) by (simp only: mult_less_cancel_right_pos)
  then have "(a + n - 1) div n * n \<le> k * n"
    using assms(1) by (intro mult_right_mono) auto
  then show ?thesis by (simp add: next_multiple_def k mult.commute)
qed

lemma set_progression_next_multiple:
  assumes "0 < n"
  shows "set (progression (next_multiple a n) rng n) = {v. a \<le> v \<and> v < rng \<and> n dvd v}"
proof -
  have "n dvd next_multiple a n" by (simp add: next_multiple_def)
  then have "n dvd (v - next_multiple a n) \<longleftrightarrow> n dvd v" for v
    by (simp add: dvd_diff_left_iff)
  then show ?thesis
    using assms next_multiple_ge [of n a] next_multiple_least [of n _ a]
    by (fastforce simp: set_progression)
qed

lemma ParseStep_Every:
  assumes "0 < n" and "n < rng" and "rng < 2 ^ 62"
  shows "ParseStep (print_field (Every n)) rng = Ret (progression 0 rng n, [])"
proof -
  have "split_on CHR ''/'' (''*/'' @ Itoa n) = [''*'', Itoa n]"
    using assms(1) by (simp add: split_on_no_sep)
  moreover have "in64 n" "in64 rng" "in64 (rng + n)" "in64 0"
    using assms by (auto simp: in64_def)
  ultimately show ?thesis
    using assms by (simp add: ParseStep_def steps_from_def ParseInt_Itoa steps_progression)
qed

lemma ParseStep_From:
  assumes "0 \<le> a" and "0 < n" and "n < 2 ^ 62" and "next_multiple a n < rng" and "rng < 2 ^ 62"
  shows "ParseStep (print_field (From a n)) rng = Ret (progression (next_multiple a n) rng n, [])"
proof -
  let ?m = "next_multiple a n"
  have a: "a \<le> ?m" using assms(2) by (rule next_multiple_ge)
  have in64: "in64 a" "in64 n" "in64 rng" "in64 (rng + n)" "in64 ?m" "in64 (a + n - 1)"
    using a assms by (auto simp: in64_def)
  have quot: "(a + n - 1) sdiv n = (a + n - 1) div n"
    using assms by (intro sdiv_pos) auto
  have "0 \<le> (a + n - 1) div n" "(a + n - 1) div n \<le> a + n - 1"
    using assms int_div_le_self [of "a + n - 1" n] by auto
  then have "in64 ((a + n - 1) div n)"
    using assms a by (auto simp: in64_def)
  then have start: "wrap64 (wrap64 (wrap64 (a + n - 1) sdiv n) * n) = ?m"
    using in64 quot by (simp add: next_multiple_def [symmetric])
  have "split_on CHR ''/'' (Itoa a @ ''/'' @ Itoa n) = [Itoa a, Itoa n]"
    using assms by (simp add: split_on_append_sep split_on_no_sep)
  moreover have "Itoa a \<noteq> ''*''" by (rule Itoa_nonneg_Cons [OF assms(1)]) auto
  ultimately show ?thesis
    using assms in64 start
    by (simp add: ParseStep_def steps_from_def ParseInt_Itoa steps_progression)
qed

lemma parse_step_field_step:
  assumes "0 \<le> mn" and "mn \<le> 1" and "rng < 2 ^ 62"
    and conv: "\<And>l. \<forall>v \<in> set l. 0 \<le> v \<Longrightarrow> set (conv l) = {v \<in> set l. mn \<le> v}"
    and "valid_step mn rng f"
  shows "\<exists>vs. parse_step_field rng mn mx conv msg (print_field f) = Ret (vs, []) \<and> vs \<noteq> [] \<and>
    set vs = {v. denotes names mn rng f v}"
proof -
  have "\<exists>st. ParseStep (print_field f) rng = Ret (st, []) \<and> st \<noteq> [] \<and> (\<forall>v \<in> set st. 0 \<le> v) \<and>
      {v \<in> set st. mn \<le> v} = {v. denotes names mn rng f v} \<and> {v \<in> set st. mn \<le> v} \<noteq> {} \<and>
      print_field f \<noteq> ''*''"
  proof (cases f)
    case (Every n)
    with assms have n: "0 < n" "n < rng" by auto
    have "{v \<in> set (progression 0 rng n). mn \<le> v} = {v. denotes names mn rng f v}"
      using Every n assms(1) by (auto simp: set_progression)
    moreover have "n \<in> {v \<in> set (progression 0 rng n). mn \<le> v}"
      using n assms(2) by (auto simp: set_progression)
    moreover have "\<forall>v \<in> set (progression 0 rng n). 0 \<le> v" by (simp add: set_progression)
    moreover have "progression 0 rng n \<noteq> []" using n by (simp add: progression_Nil_iff)
    moreover note ParseStep_Every [OF n assms(3)]
    ultimately show ?thesis unfolding Every by (intro exI [of _ "progression 0 rng n"]) fastforce
  next
    case (From a n)
    with assms have n: "mn \<le> a" "0 < n" "n < 2 ^ 62" "next_multiple a n < rng" by auto
    have m: "a \<le> next_multiple a n" using n(2) by (rule next_multiple_ge)
    have "{v \<in> set (progression (next_multiple a n) rng n). mn \<le> v} = {v. denotes names mn rng f v}"
      unfolding From set_progression_next_multiple [OF n(2), of a rng] using n(1) by auto
    moreover have "next_multiple a n \<in> {v \<in> set (progression (next_multiple a n) rng n). mn \<le> v}"
      using n m by (auto simp: set_progression)
    moreover have "print_field (From a n) \<noteq> ''*''" by (cases "Itoa a") auto
    moreover have "\<forall>v \<in> set (progression (next_multiple a n) rng n). 0 \<le> v"
      using m n assms(1) by (auto simp: set_progression)
    moreover have "progression (next_multiple a n) rng n \<noteq> []" using n by (simp add: progression_Nil_iff)
    moreover have "ParseStep (print_field (From a n)) rng = Ret (progression (next_multiple a n) rng n, [])"
      using n assms(1,3) by (intro ParseStep_From) auto
    ultimately show ?thesis unfolding From
      by (intro exI [of _ "progression (next_multiple a n) rng n"]) blast
  qed (use assms in auto)
  then obtain st where st: "ParseStep (print_field f) rng = Ret (st, [])" "st \<noteq> []"
      "\<forall>v \<in> set st. 0 \<le> v" "{v \<in> set st. mn \<le> v} = {v. denotes names mn rng f v}"
      "{v \<in> set st. mn \<le> v} \<noteq> {}" "print_field f \<noteq> ''*''"
    by blast
  have "set (conv st) = {v \<in> set st. mn \<le> v}" using st(3) by (rule conv)
  with st have "conv st \<noteq> []" "set (conv st) = {v. denotes names mn rng f v}" by force+
  with st show ?thesis by (intro exI [of _ "conv st"]) (simp add: parse_step_field_def)
qed

lemma no_names_facts [simp]: "no_names p = None"
  by (simp add: no_names_def)

lemma cron_step_fieldI:
  assumes "0 \<le> mn" and "mn \<le> 1" and "mx < 2 ^ 62" and "rng < 2 ^ 62" and "msg \<noteq> []"
    and conv: "\<And>l. \<forall>v \<in> set l. 0 \<le> v \<Longrightarrow> set (conv l) = {v \<in> set l. mn \<le> v}"
      "\<And>l. \<forall>v \<in> set l. mn \<le> v \<Longrightarrow> conv l = l" "\<And>l. set (conv l) \<subseteq> set l"
  shows "cron_step_field (parse_step_field rng mn mx conv msg) no_names mn mx rng"
proof unfold_locales
  show "parse_step_field rng mn mx conv msg ''*'' = Ret ([], [])"
    by (simp add: parse_step_field_def)
next
  fix its assume its: "its \<noteq> []" "list_all (valid_item no_names mn mx) its"
  show "parse_step_field rng mn mx conv msg (print_field (Items its)) =
      Ret (concat (map (item_values no_names) its), [])"
  proof -
    have "parse_step_field rng mn mx conv msg (print_field (Items its)) =
        parse_parts no_names mn mx conv msg [] (map print_item its)"
      using its assms(1) print_items_free [OF its(2), of "CHR ''/''"] print_items_not_star [OF its]
        split_print_items [OF its] by (subst parse_step_field_plain) simp_all
    also have "\<dots> = Ret ([] @ concat (map (item_values no_names) its), [])"
      using its(2) assms(1,3) conv(2) by (intro parse_parts_items) simp_all
    finally show ?thesis by simp
  qed
next
  fix s :: string assume s: "CHR ''/'' \<notin> set s"
  show "\<exists>vs e. parse_step_field rng mn mx conv msg s = Ret (vs, e)"
    using s parse_parts_total [OF assms(3)]
    by (cases "s = ''*''") (simp_all add: parse_step_field_plain, simp add: parse_step_field_def)
next
  fix s :: string and vs v
  assume s: "CHR ''/'' \<notin> set s" "parse_step_field rng mn mx conv msg s = Ret (vs, [])" "v \<in> set vs"
  show "mn \<le> v \<and> v \<le> mx"
  proof (cases "s = ''*''")
    case True
    with s show ?thesis by (simp add: parse_step_field_def)
  next
    case False
    with s have "parse_parts no_names mn mx conv msg [] (split_on CHR '','' s) = Ret (vs, [])"
      by (simp add: parse_step_field_plain)
    then have "\<forall>v \<in> set vs. mn \<le> v \<and> v \<le> mx"
      by (rule parse_parts_bounds [OF assms(3) _ conv(3) _ assms(5), rotated 1]) simp_all
    with s show ?thesis by blast
  qed
qed (rule parse_step_field_step [OF assms(1,2,4) conv(1)])

interpretation minute: cron_step_field ParseMinute no_names 0 59 60
  unfolding ParseMinute_def by (rule cron_step_fieldI) auto

interpretation hour: cron_step_field ParseHour no_names 0 23 24
  unfolding ParseHour_def by (rule cron_step_fieldI) auto

interpretation day: cron_step_field ParseDay no_names 1 31 31
  unfolding ParseDay_def by (rule cron_step_fieldI) (auto simp: toDay_def filter_id_conv)

text \<open>The short names: a value in bounds, and never a part that starts with a digit or is \<open>*\<close>.\<close>

lemma find_name_bounds:
  "find_name vals i part = Some v \<Longrightarrow> i \<le> v \<and> v < i + int (length vals)"
  by (induction vals i part rule: find_name.induct) (auto split: if_splits)

lemma find_name_None: "to_upper part \<notin> set vals \<Longrightarrow> find_name vals i part = None"
  by (induction vals i part rule: find_name.induct) auto

lemma to_upper_keeps_head:
  assumes "(of_char c :: nat) < 97"
  shows "\<exists>t. to_upper (c # s) = c # t"
proof -
  have "c \<noteq> CHR 0xC4" "c \<noteq> CHR 0xC5" using assms by auto
  then show ?thesis using assms by (cases s) auto
qed

lemma to_upper_no_name:
  assumes "(of_char c :: nat) < 65"
  shows "to_upper (c # s) \<notin> set month_names" "to_upper (c # s) \<notin> set weekday_names"
proof -
  from assms obtain t where t: "to_upper (c # s) = c # t"
    using to_upper_keeps_head [of c s] by auto
  have "\<forall>w \<in> set (month_names @ weekday_names). 65 \<le> (of_char (hd w) :: nat)"
    by (simp add: month_names_def weekday_names_def)
  with assms t show "to_upper (c # s) \<notin> set month_names" "to_upper (c # s) \<notin> set weekday_names"
    by force+
qed

text \<open>A field without steps: the loop over the parts alone.\<close>

definition parse_name_field ::
  "(string \<Rightarrow> int64 option) \<Rightarrow> int64 \<Rightarrow> int64 \<Rightarrow> string \<Rightarrow> string \<Rightarrow> (int64 list \<times> string) go" where
  "parse_name_field names mn mx msg s =
     (if s \<noteq> ''*'' then parse_parts names mn mx (\<lambda>l. l) msg [] (split_on CHR '','' s) else Ret ([], []))"

lemma cron_name_fieldI:
  assumes "0 \<le> mn" and mx: "mx < 2 ^ 62" and "msg \<noteq> []"
    and low: "\<And>c s. (of_char c :: nat) < 65 \<Longrightarrow> names (c # s) = None"
    and bnd: "\<And>p v. names p = Some v \<Longrightarrow> mn \<le> v \<and> v \<le> mx"
  shows "cron_field (parse_name_field names mn mx msg) names mn mx"
proof unfold_locales
  show "parse_name_field names mn mx msg ''*'' = Ret ([], [])" by (simp add: parse_name_field_def)
next
  fix its assume its: "its \<noteq> []" "list_all (valid_item names mn mx) its"
  have star: "names ''*'' = None" by (rule low) simp
  have "parse_parts names mn mx (\<lambda>l. l) msg [] (map print_item its) =
      Ret ([] @ concat (map (item_values names) its), [])"
    using its(2) assms(1,2) by (intro parse_parts_items) (auto simp: is_digit_def intro: low)
  then show "parse_name_field names mn mx msg (print_field (Items its)) =
      Ret (concat (map (item_values names) its), [])"
    unfolding parse_name_field_def split_print_items [OF its assms(1)]
    using print_items_not_star [OF its assms(1) star] by simp
next
  fix s :: string
  show "\<exists>vs e. parse_name_field names mn mx msg s = Ret (vs, e)"
    using parse_parts_total [OF mx] by (simp add: parse_name_field_def)
next
  fix s :: string and vs v
  assume s: "parse_name_field names mn mx msg s = Ret (vs, [])" "v \<in> set vs"
  then have eq: "parse_parts names mn mx (\<lambda>l. l) msg [] (split_on CHR '','' s) = Ret (vs, [])"
    by (cases "s = ''*''") (simp_all add: parse_name_field_def)
  have "\<forall>v \<in> set vs. mn \<le> v \<and> v \<le> mx"
    by (rule parse_parts_bounds [OF mx _ subset_refl eq assms(3)]) (use bnd in simp_all)
  with s show "mn \<le> v \<and> v \<le> mx" by blast
qed

lemma ParseMonth_name_field:
  "ParseMonth = parse_name_field (find_name month_names 1) 1 12 ''Month should be between 1 and 12''"
  by (simp add: fun_eq_iff ParseMonth_def parse_name_field_def)

lemma ParseWeekday_name_field:
  "ParseWeekday = parse_name_field (find_name weekday_names 0) 0 6 ''Weekday should be between 0 and 6''"
  by (simp add: fun_eq_iff ParseWeekday_def parse_name_field_def)

interpretation month: cron_field ParseMonth "find_name month_names 1" 1 12
  unfolding ParseMonth_name_field
proof (rule cron_name_fieldI)
  fix p v assume "find_name month_names 1 p = Some v"
  from find_name_bounds [OF this] show "1 \<le> v \<and> v \<le> 12" by (simp add: month_names_def)
qed (auto intro: find_name_None dest: to_upper_no_name)

interpretation weekday: cron_field ParseWeekday "find_name weekday_names 0" 0 6
  unfolding ParseWeekday_name_field
proof (rule cron_name_fieldI)
  fix p v assume "find_name weekday_names 0 p = Some v"
  from find_name_bounds [OF this] show "0 \<le> v \<and> v \<le> 6" by (simp add: weekday_names_def)
qed (auto intro: find_name_None dest: to_upper_no_name)

section \<open>Whole expressions\<close>

text \<open>The documented expressions and their denotation: five fields, each in its own alphabet.\<close>

definition valid_expression :: "field \<Rightarrow> field \<Rightarrow> field \<Rightarrow> field \<Rightarrow> field \<Rightarrow> bool" where
  "valid_expression mi h d mo w \<longleftrightarrow>
     (valid_plain no_names 0 59 mi \<or> valid_step 0 60 mi) \<and>
     (valid_plain no_names 0 23 h \<or> valid_step 0 24 h) \<and>
     (valid_plain no_names 1 31 d \<or> valid_step 1 31 d) \<and>
     valid_plain (find_name month_names 1) 1 12 mo \<and>
     valid_plain (find_name weekday_names 0) 0 6 w"

definition print_expression :: "field \<Rightarrow> field \<Rightarrow> field \<Rightarrow> field \<Rightarrow> field \<Rightarrow> string" where
  "print_expression mi h d mo w = join '' '' (map print_field [mi, h, d, mo, w])"

definition expression_denotes :: "field \<Rightarrow> field \<Rightarrow> field \<Rightarrow> field \<Rightarrow> field \<Rightarrow> civil \<Rightarrow> bool" where
  "expression_denotes mi h d mo w t \<longleftrightarrow>
     denotes no_names 0 60 mi (tMinute t) \<and> denotes no_names 0 24 h (tHour t) \<and>
     denotes no_names 1 31 d (tDay t) \<and>
     denotes (find_name month_names 1) 1 13 mo (tMonth t) \<and>
     denotes (find_name weekday_names 0) 0 7 w (tWeekday t)"

lemma print_field_no_space:
  assumes "valid_plain names lo hi f \<or> valid_step lo rng f" and "0 \<le> lo"
  shows "CHR '' '' \<notin> set (print_field f)"
proof (cases f)
  case (Items its)
  with assms have "list_all (valid_item names lo hi) its" by auto
  from print_items_free [OF this assms(2), of "CHR '' ''"] show ?thesis by (simp add: Items)
qed (use assms in auto)

lemma split_print_expression:
  assumes "valid_expression mi h d mo w"
  shows "split_on CHR '' '' (print_expression mi h d mo w) = map print_field [mi, h, d, mo, w]"
proof -
  have "CHR '' '' \<notin> set (print_field f)" if "f \<in> set [mi, h, d, mo, w]" for f
    using that assms [unfolded valid_expression_def]
      print_field_no_space [of no_names 0 59 mi 60] print_field_no_space [of no_names 0 23 h 24]
      print_field_no_space [of no_names 1 31 d 31]
      print_field_no_space [of "find_name month_names 1" 1 12 mo 0]
      print_field_no_space [of "find_name weekday_names 0" 0 6 w 0] by (elim conjE) auto
  then show ?thesis unfolding print_expression_def by (intro split_on_join) auto
qed

lemma Parse_fields:
  assumes "split_on CHR '' '' s = [p0, p1, p2, p3, p4]"
    and "ParseMinute p0 = Ret (v0, e0)" "ParseHour p1 = Ret (v1, e1)" "ParseDay p2 = Ret (v2, e2)"
    and "ParseMonth p3 = Ret (v3, e3)" "ParseWeekday p4 = Ret (v4, e4)"
  shows "Parse s =
    Ret (\<lparr>Minute = (if e0 \<noteq> [] then [] else v0), Hour = (if e1 \<noteq> [] then [] else v1),
          Day = (if e2 \<noteq> [] then [] else v2), Month = (if e3 \<noteq> [] then [] else v3),
          Weekday = (if e4 \<noteq> [] then [] else v4)\<rparr>,
         filter (\<lambda>e. e \<noteq> []) [e0, e1, e2, e3, e4])"
  using assms by (simp add: Parse_def)

lemma split_on_subset: "w \<in> set (split_on c s) \<Longrightarrow> set w \<subseteq> set s"
proof (induction s arbitrary: w)
  case (Cons x xs)
  obtain v vs where v: "split_on c xs = v # vs" by (cases "split_on c xs") auto
  with Cons.IH have "u \<in> set (v # vs) \<Longrightarrow> set u \<subseteq> set xs" for u by simp
  with Cons.prems v show ?case by (fastforce split: if_splits)
qed simp

lemma length_5E:
  assumes "length xs = 5"
  obtains a b c d e where "xs = [a, b, c, d, e]"
  using assms by (auto simp: numeral_eq_Suc length_Suc_conv)



text \<open>
  C2. An expression without a step always gets an answer, and whatever it is, every value in
  the fields of the result is in the documented range of its field.
\<close>

theorem Parse_plain_in_bounds:
  assumes "CHR ''/'' \<notin> set s"
  shows "\<exists>e errs. Parse s = Ret (e, errs) \<and>
    set (Minute e) \<subseteq> {0..59} \<and> set (Hour e) \<subseteq> {0..23} \<and> set (Day e) \<subseteq> {1..31} \<and>
    set (Month e) \<subseteq> {1..12} \<and> set (Weekday e) \<subseteq> {0..6}"
proof (cases "length (split_on CHR '' '' s) = 5")
  case True
  then obtain p0 p1 p2 p3 p4 where ps: "split_on CHR '' '' s = [p0, p1, p2, p3, p4]"
    by (rule length_5E)
  have free: "CHR ''/'' \<notin> set p0" "CHR ''/'' \<notin> set p1" "CHR ''/'' \<notin> set p2"
      "CHR ''/'' \<notin> set p3" "CHR ''/'' \<notin> set p4"
    using split_on_subset [of _ "CHR '' ''" s] ps assms by auto
  obtain v0 e0 where 0: "ParseMinute p0 = Ret (v0, e0)" using minute.parse_total [OF free(1)] by blast
  obtain v1 e1 where 1: "ParseHour p1 = Ret (v1, e1)" using hour.parse_total [OF free(2)] by blast
  obtain v2 e2 where 2: "ParseDay p2 = Ret (v2, e2)" using day.parse_total [OF free(3)] by blast
  obtain v3 e3 where 3: "ParseMonth p3 = Ret (v3, e3)" using month.parse_total [OF free(4)] by blast
  obtain v4 e4 where 4: "ParseWeekday p4 = Ret (v4, e4)" using weekday.parse_total [OF free(5)] by blast
  have "e0 = [] \<Longrightarrow> set v0 \<subseteq> {0..59}" using minute.parse_bounds [OF free(1)] 0 by auto
  moreover have "e1 = [] \<Longrightarrow> set v1 \<subseteq> {0..23}" using hour.parse_bounds [OF free(2)] 1 by auto
  moreover have "e2 = [] \<Longrightarrow> set v2 \<subseteq> {1..31}" using day.parse_bounds [OF free(3)] 2 by auto
  moreover have "e3 = [] \<Longrightarrow> set v3 \<subseteq> {1..12}" using month.parse_bounds [OF free(4)] 3 by auto
  moreover have "e4 = [] \<Longrightarrow> set v4 \<subseteq> {0..6}" using weekday.parse_bounds [OF free(5)] 4 by auto
  ultimately show ?thesis unfolding Parse_fields [OF ps 0 1 2 3 4] by auto
next
  case False
  then show ?thesis by (simp add: Parse_def empty_expression_def)
qed

theorem Parse_plain_in_bounds_witness:
  "\<exists>e errs. Parse ''0,61 9-17 * JAN mon'' = Ret (e, errs) \<and>
    set (Minute e) \<subseteq> {0..59} \<and> set (Hour e) \<subseteq> {0..23} \<and> set (Day e) \<subseteq> {1..31} \<and>
    set (Month e) \<subseteq> {1..12} \<and> set (Weekday e) \<subseteq> {0..6}"
  by (rule Parse_plain_in_bounds) simp

lemma ParseStep_split:
  assumes "0 \<le> a" and "0 \<le> n"
  shows "split_on CHR ''/'' (Itoa a @ ''/'' @ Itoa n) = [Itoa a, Itoa n]"
  using assms by (simp add: split_on_append_sep split_on_no_sep)

lemma Itoa_not_star: "0 \<le> a \<Longrightarrow> Itoa a \<noteq> ''*''"
  by (erule Itoa_nonneg_Cons) auto

lemma next_multiple_bound: "0 < n \<Longrightarrow> next_multiple a n \<le> a + n - 1"
  unfolding next_multiple_def by (rule div_mult_bounds)

lemma sorted_progression: "sorted (progression start stop inc) \<and> distinct (progression start stop inc)"
  unfolding progression_def by (simp add: sorted_filter [of "\<lambda>x. x", simplified])



lemma ParseInt_0: "ParseInt ''0'' = (0, False)"
  by (simp add: ParseInt_def parse_signed_def parse_uint_def is_digit_def digit_val_def)

lemma ParseStep_star_zero:
  assumes "0 < rng" and "rng < 2 ^ 62"
  shows "ParseStep ''*/0'' rng = Diverge"
proof -
  have "split_on CHR ''/'' ''*/0'' = [''*'', ''0'']" by simp
  then show ?thesis
    using assms steps_zero_diverges [of 0 rng]
    by (simp add: ParseStep_def ParseInt_0 steps_from_def in64_def)
qed

lemma ParseStep_num_zero:
  assumes "0 \<le> a" and "a < 2 ^ 62"
  shows "ParseStep (Itoa a @ ''/0'') rng = Panic ''runtime error: integer divide by zero''"
proof -
  have "split_on CHR ''/'' (Itoa a @ ''/0'') = [Itoa a, ''0'']"
    using assms by (simp add: split_on_append_sep)
  moreover have "in64 a" using assms by (simp add: in64_def)
  ultimately show ?thesis
    using Itoa_not_star [OF assms(1)] by (simp add: ParseStep_def ParseInt_0 ParseInt_Itoa)
qed

text \<open>
  C4. A zero increment is not rejected: the field \<open>*/0\<close> makes the parser of the whole
  expression run forever, and \<open>a/0\<close> makes it panic with a division by zero, whatever the
  other four fields are.
\<close>

theorem Parse_zero_step:
  assumes "length (split_on CHR '' '' rest) = 4" and "0 \<le> a" and "a < 2 ^ 62"
  shows "Parse (''*/0 '' @ rest) = Diverge \<and>
    Parse (Itoa a @ ''/0 '' @ rest) = Panic ''runtime error: integer divide by zero''"
proof
  show "Parse (''*/0 '' @ rest) = Diverge"
    using assms by (simp add: Parse_def ParseMinute_def parse_step_field_def ParseStep_star_zero)
  have "CHR '' '' \<notin> set (Itoa a @ ''/0'')" using assms by simp
  from split_on_append_sep [OF this, of rest]
  have "split_on CHR '' '' (Itoa a @ ''/0 '' @ rest) = (Itoa a @ ''/0'') # split_on CHR '' '' rest"
    by simp
  moreover have "Itoa a @ ''/0'' \<noteq> ''*''" by (cases "Itoa a") auto
  ultimately show "Parse (Itoa a @ ''/0 '' @ rest) = Panic ''runtime error: integer divide by zero''"
    using assms ParseStep_num_zero [OF assms(2,3), of 60]
    by (simp add: Parse_def ParseMinute_def parse_step_field_def)
qed

theorem Parse_zero_step_witness:
  "Parse (''*/0 '' @ ''* * * *'') = Diverge \<and>
    Parse (Itoa 5 @ ''/0 '' @ ''* * * *'') = Panic ''runtime error: integer divide by zero''"
  by (rule Parse_zero_step) simp_all

end
