(* ===== verification/Json.thy ===== *)
theory Json
  imports Prelude
begin

text \<open>
  The part of Go's package \<^verbatim>\<open>encoding/json\<close> that the sources use: the text \<^verbatim>\<open>Marshal\<close> prints for a
  value, the parser behind \<^verbatim>\<open>Unmarshal\<close>, and how an object is read into the fields of a struct.
  The main lemma is the round trip: the parser reads back what the printer wrote.
  Strings are sequences of bytes that hold valid UTF-8, as they are when they come out of a
  request body or out of a text column.
\<close>

section \<open>Values and printing\<close>

text \<open>A number keeps its literal, which is what the decoder hands to \<^verbatim>\<open>strconv\<close>.\<close>

datatype json =
    JNull
  | JBool bool
  | JNum string
  | JStr string
  | JArr "json list"
  | JObj "(string \<times> json) list"

definition hex_digit :: "nat \<Rightarrow> char" where
  "hex_digit d = (if d < 10 then char_of (48 + d) else char_of (87 + d))"

definition char_code :: "char \<Rightarrow> nat" where
  "char_code c = of_char c"

text \<open>
  \<^verbatim>\<open>encodeState.string\<close>: quotes, backslashes and the usual control characters get a short
  escape, other control characters and \<open><\<close>, \<open>>\<close>, \<open>&\<close> a \<open>\u00XX\<close> escape. (The separators U+2028
  and U+2029, which Go escapes as well, are left as they are; the parser reads both forms.)
\<close>

definition esc :: "char \<Rightarrow> string" where
  "esc c =
     (if c = CHR 0x22 then [CHR 0x5C, CHR 0x22]
      else if c = CHR 0x5C then [CHR 0x5C, CHR 0x5C]
      else if c = CHR 0x0A then [CHR 0x5C, CHR ''n'']
      else if c = CHR 0x0D then [CHR 0x5C, CHR ''r'']
      else if c = CHR 0x09 then [CHR 0x5C, CHR ''t'']
      else if char_code c < 32 \<or> c = CHR ''<'' \<or> c = CHR ''>'' \<or> c = CHR ''&''
      then [CHR 0x5C, CHR ''u'', CHR ''0'', CHR ''0'',
            hex_digit (char_code c div 16), hex_digit (char_code c mod 16)]
      else [c])"

definition print_string :: "string \<Rightarrow> string" where
  "print_string s = CHR 0x22 # concat (map esc s) @ [CHR 0x22]"

fun print_json :: "json \<Rightarrow> string" where
  "print_json JNull = ''null''"
| "print_json (JBool b) = (if b then ''true'' else ''false'')"
| "print_json (JNum l) = l"
| "print_json (JStr s) = print_string s"
| "print_json (JArr js) = CHR ''['' # join '','' (map print_json js) @ '']''"
| "print_json (JObj kvs) =
     CHR ''{'' # join '','' (map (\<lambda>(k, v). print_string k @ CHR '':'' # print_json v) kvs) @ ''}''"

section \<open>Parsing\<close>

definition is_ws :: "char \<Rightarrow> bool" where
  "is_ws c \<longleftrightarrow> c = CHR '' '' \<or> c = CHR 0x09 \<or> c = CHR 0x0A \<or> c = CHR 0x0D"

definition skip_ws :: "string \<Rightarrow> string" where
  "skip_ws s = dropWhile is_ws s"

definition hex_val :: "char \<Rightarrow> nat option" where
  "hex_val c =
     (let n = char_code c in
      if 48 \<le> n \<and> n \<le> 57 then Some (n - 48)
      else if 97 \<le> n \<and> n \<le> 102 then Some (n - 87)
      else if 65 \<le> n \<and> n \<le> 70 then Some (n - 55)
      else None)"

fun hex4 :: "string \<Rightarrow> nat option" where
  "hex4 [a, b, c, d] =
     (case (hex_val a, hex_val b, hex_val c, hex_val d) of
        (Some w, Some x, Some y, Some z) \<Rightarrow> Some (((w * 16 + x) * 16 + y) * 16 + z)
      | _ \<Rightarrow> None)"
| "hex4 _ = None"

text \<open>The UTF-8 encoding of a code point, with the replacement character for a lone surrogate.\<close>

definition utf8 :: "nat \<Rightarrow> string" where
  "utf8 n =
     (if n < 0x80 then [char_of n]
      else if n < 0x800 then [char_of (0xC0 + n div 64), char_of (0x80 + n mod 64)]
      else if 0xD800 \<le> n \<and> n < 0xE000 then [CHR 0xEF, CHR 0xBF, CHR 0xBD]
      else if n < 0x10000
      then [char_of (0xE0 + n div 4096), char_of (0x80 + n div 64 mod 64), char_of (0x80 + n mod 64)]
      else [char_of (0xF0 + n div 262144), char_of (0x80 + n div 4096 mod 64),
            char_of (0x80 + n div 64 mod 64), char_of (0x80 + n mod 64)])"

definition unesc :: "char \<Rightarrow> char option" where
  "unesc c =
     (if c = CHR 0x22 \<or> c = CHR 0x5C \<or> c = CHR ''/'' then Some c
      else if c = CHR ''b'' then Some (CHR 0x08)
      else if c = CHR ''f'' then Some (CHR 0x0C)
      else if c = CHR ''n'' then Some (CHR 0x0A)
      else if c = CHR ''r'' then Some (CHR 0x0D)
      else if c = CHR ''t'' then Some (CHR 0x09)
      else None)"

text \<open>A low surrogate escape right after a high one: the code point of the pair.\<close>

fun low_surrogate :: "string \<Rightarrow> nat option" where
  "low_surrogate (x # y # a # b # c # d # _) =
     (if x = CHR 0x5C \<and> y = CHR ''u'' then
        (case hex4 [a, b, c, d] of
           Some n \<Rightarrow> if 0xDC00 \<le> n \<and> n < 0xE000 then Some n else None
         | None \<Rightarrow> None)
      else None)"
| "low_surrogate _ = None"

function parse_str :: "string \<Rightarrow> (string \<times> string) option" where
  "parse_str [] = None"
| "parse_str (c # cs) =
     (if c = CHR 0x22 then Some ([], cs)
      else if c = CHR 0x5C then
        (case cs of
           [] \<Rightarrow> None
         | e # r \<Rightarrow>
             if e = CHR ''u'' then
               (case hex4 (take 4 r) of
                  None \<Rightarrow> None
                | Some n \<Rightarrow>
                    (case (if 0xD800 \<le> n \<and> n < 0xDC00 then low_surrogate (drop 4 r) else None) of
                       Some m \<Rightarrow>
                         map_option (\<lambda>(s, t). (utf8 (0x10000 + (n - 0xD800) * 1024 + (m - 0xDC00)) @ s, t))
                           (parse_str (drop 10 r))
                     | None \<Rightarrow> map_option (\<lambda>(s, t). (utf8 n @ s, t)) (parse_str (drop 4 r))))
             else (case unesc e of
                     None \<Rightarrow> None
                   | Some x \<Rightarrow> map_option (\<lambda>(s, t). (x # s, t)) (parse_str r)))
      else if char_code c < 32 then None
      else map_option (\<lambda>(s, t). (c # s, t)) (parse_str cs))"
  by pat_completeness auto
termination by (relation "measure length") auto

definition span_digits :: "string \<Rightarrow> string \<times> string" where
  "span_digits s = (takeWhile is_digit s, dropWhile is_digit s)"

definition parse_exp :: "string \<Rightarrow> (string \<times> string) option" where
  "parse_exp s =
     (case s of
        [] \<Rightarrow> Some ([], [])
      | c # cs \<Rightarrow>
          if c = CHR ''e'' \<or> c = CHR ''E'' then
            (let (sg, r) = (case cs of
                 [] \<Rightarrow> ([], [])
               | d # ds \<Rightarrow> if d = CHR ''+'' \<or> d = CHR ''-'' then ([d], ds) else ([], cs)) in
             case span_digits r of (ds, t) \<Rightarrow> if ds = [] then None else Some (c # sg @ ds, t))
          else Some ([], s))"

definition parse_frac :: "string \<Rightarrow> (string \<times> string) option" where
  "parse_frac s =
     (case s of
        [] \<Rightarrow> Some ([], [])
      | c # cs \<Rightarrow>
          if c = CHR ''.'' then (case span_digits cs of (ds, t) \<Rightarrow> if ds = [] then None else Some (c # ds, t))
          else Some ([], s))"

definition parse_nonneg :: "string \<Rightarrow> (string \<times> string) option" where
  "parse_nonneg s =
     (case span_digits s of (ds, r) \<Rightarrow>
        if ds = [] then None
        else
          (let (int_part, r') =
             (if hd ds = CHR ''0'' then ([CHR ''0''], tl ds @ r) else (ds, r)) in
           case parse_frac r' of
             None \<Rightarrow> None
           | Some (f, t) \<Rightarrow> map_option (\<lambda>(e, u). (int_part @ f @ e, u)) (parse_exp t)))"

definition parse_num :: "string \<Rightarrow> (string \<times> string) option" where
  "parse_num s =
     (case s of
        [] \<Rightarrow> None
      | c # cs \<Rightarrow>
          if c = CHR ''-'' then map_option (\<lambda>(l, t). (c # l, t)) (parse_nonneg cs)
          else parse_nonneg s)"

definition parse_atom :: "string \<Rightarrow> (json \<times> string) option" where
  "parse_atom s =
     (if take 4 s = ''null'' then Some (JNull, drop 4 s)
      else if take 4 s = ''true'' then Some (JBool True, drop 4 s)
      else if take 5 s = ''false'' then Some (JBool False, drop 5 s)
      else map_option (\<lambda>(l, t). (JNum l, t)) (parse_num s))"

fun parse_value :: "nat \<Rightarrow> string \<Rightarrow> (json \<times> string) option"
  and parse_elems :: "nat \<Rightarrow> string \<Rightarrow> (json list \<times> string) option"
  and parse_members :: "nat \<Rightarrow> string \<Rightarrow> ((string \<times> json) list \<times> string) option" where
  "parse_value 0 s = None"
| "parse_value (Suc n) s =
     (case skip_ws s of
        [] \<Rightarrow> None
      | c # cs \<Rightarrow>
          if c = CHR ''{'' then
            (case skip_ws cs of
               [] \<Rightarrow> None
             | d # ds \<Rightarrow> if d = CHR ''}'' then Some (JObj [], ds)
                        else map_option (\<lambda>(kvs, t). (JObj kvs, t)) (parse_members n (d # ds)))
          else if c = CHR ''['' then
            (case skip_ws cs of
               [] \<Rightarrow> None
             | d # ds \<Rightarrow> if d = CHR '']'' then Some (JArr [], ds)
                        else map_option (\<lambda>(js, t). (JArr js, t)) (parse_elems n (d # ds)))
          else if c = CHR 0x22 then map_option (\<lambda>(w, t). (JStr w, t)) (parse_str cs)
          else parse_atom (c # cs))"
| "parse_elems 0 s = None"
| "parse_elems (Suc n) s =
     (case parse_value n s of
        None \<Rightarrow> None
      | Some (j, r) \<Rightarrow>
          (case skip_ws r of
             [] \<Rightarrow> None
           | c # t \<Rightarrow>
               if c = CHR '']'' then Some ([j], t)
               else if c = CHR '','' then map_option (\<lambda>(js, u). (j # js, u)) (parse_elems n t)
               else None))"
| "parse_members 0 s = None"
| "parse_members (Suc n) s =
     (case skip_ws s of
        [] \<Rightarrow> None
      | q # qs \<Rightarrow>
          if q \<noteq> CHR 0x22 then None
          else (case parse_str qs of
             None \<Rightarrow> None
           | Some (k, r) \<Rightarrow>
               (case skip_ws r of
                  [] \<Rightarrow> None
                | d # ds \<Rightarrow>
                    if d \<noteq> CHR '':'' then None
                    else (case parse_value n ds of
                       None \<Rightarrow> None
                     | Some (v, t) \<Rightarrow>
                         (case skip_ws t of
                            [] \<Rightarrow> None
                          | c # u \<Rightarrow>
                              if c = CHR ''}'' then Some ([(k, v)], u)
                              else if c = CHR '','' then
                                map_option (\<lambda>(kvs, w). ((k, v) # kvs, w)) (parse_members n u)
                              else None)))))"

text \<open>
  A whole text: one value with white space around it. Every recursive call reads a byte, so the
  length of the text is enough fuel.
\<close>

definition parse_json :: "string \<Rightarrow> json option" where
  "parse_json s =
     (case parse_value (Suc (length s)) s of
        Some (j, r) \<Rightarrow> if skip_ws r = [] then Some j else None
      | None \<Rightarrow> None)"

section \<open>The round trip\<close>

subsection \<open>Strings\<close>

lemma char_code_char_of [simp]: "n < 256 \<Longrightarrow> char_code (char_of n) = n"
  by (simp add: char_code_def)

lemma char_of_char_code [simp]: "char_of (char_code c) = c"
  by (simp add: char_code_def)

lemma char_code_less: "char_code c < 256"
  by (simp add: char_code_def)

lemma hex_val_hex_digit [simp]: "d < 16 \<Longrightarrow> hex_val (hex_digit d) = Some d"
  by (simp add: hex_val_def hex_digit_def Let_def)

lemma hex4_byte:
  "n < 256 \<Longrightarrow> hex4 [CHR ''0'', CHR ''0'', hex_digit (n div 16), hex_digit (n mod 16)] = Some n"
  by (simp add: hex_val_def [of "CHR ''0''"] char_code_def less_mult_imp_div_less)

declare parse_str.simps [simp del]

lemma parse_str_plain:
  "c \<noteq> CHR 0x22 \<Longrightarrow> c \<noteq> CHR 0x5C \<Longrightarrow> 32 \<le> char_code c \<Longrightarrow>
     parse_str (c # t) = map_option (\<lambda>(s, u). (c # s, u)) (parse_str t)"
  by (simp add: parse_str.simps)

lemma parse_str_escape:
  "unesc e = Some x \<Longrightarrow> e \<noteq> CHR ''u'' \<Longrightarrow>
     parse_str (CHR 0x5C # e # t) = map_option (\<lambda>(s, u). (x # s, u)) (parse_str t)"
  by (auto simp: parse_str.simps(2) [of "CHR 0x5C"])

lemma parse_str_byte:
  assumes "n < 0x80"
  shows "parse_str (CHR 0x5C # CHR ''u'' # CHR ''0'' # CHR ''0'' # hex_digit (n div 16) # hex_digit (n mod 16) # t) =
    map_option (\<lambda>(s, u). (char_of n # s, u)) (parse_str t)"
proof -
  have "hex4 (take 4 (CHR ''0'' # CHR ''0'' # hex_digit (n div 16) # hex_digit (n mod 16) # t)) = Some n"
    using assms hex4_byte [of n] by simp
  moreover have "drop 4 (CHR ''0'' # CHR ''0'' # hex_digit (n div 16) # hex_digit (n mod 16) # t) = t"
    by simp
  ultimately show ?thesis using assms
    by (simp add: parse_str.simps(2) [of "CHR 0x5C"] utf8_def)
qed

lemma parse_str_esc: "parse_str (esc c @ t) = map_option (\<lambda>(s, u). (c # s, u)) (parse_str t)"
proof (cases "c \<in> {CHR 0x22, CHR 0x5C, CHR 0x0A, CHR 0x0D, CHR 0x09}")
  case True
  then have "\<exists>e. esc c = [CHR 0x5C, e] \<and> unesc e = Some c \<and> e \<noteq> CHR ''u''"
    by (auto simp: esc_def unesc_def)
  then show ?thesis using parse_str_escape by fastforce
next
  case short: False
  show ?thesis
  proof (cases "char_code c < 32 \<or> c = CHR ''<'' \<or> c = CHR ''>'' \<or> c = CHR ''&''")
    case True
    moreover from True have "char_code c < 0x80" by (auto simp: char_code_def)
    ultimately show ?thesis
      using short parse_str_byte [of "char_code c" t] by (simp add: esc_def)
  next
    case False
    then show ?thesis using short by (simp add: esc_def parse_str_plain)
  qed
qed

lemma parse_str_print: "parse_str (concat (map esc s) @ CHR 0x22 # t) = Some (s, t)"
  by (induction s) (simp_all add: parse_str_esc, simp add: parse_str.simps)

subsection \<open>Numbers\<close>

definition ends_number :: "string \<Rightarrow> bool" where
  "ends_number t \<longleftrightarrow> t = [] \<or> hd t = CHR '','' \<or> hd t = CHR '']'' \<or> hd t = CHR ''}''"

lemma nat_digits_head_zero:
  "nat_digits n = CHR ''0'' # cs \<Longrightarrow> n = 0"
proof (induction n arbitrary: cs rule: nat_digits.induct)
  case (1 n)
  show ?case
  proof (cases "n < 10")
    case True
    with "1.prems" have "digit_char n = CHR ''0''" by (simp add: nat_digits.simps [of n])
    then have "digit_val (digit_char n) = digit_val CHR ''0''" by (rule arg_cong)
    then show ?thesis using True by (simp add: digit_val_def [of "CHR ''0''"])
  next
    case False
    obtain d ds where d: "nat_digits (n div 10) = d # ds" by (cases "nat_digits (n div 10)") auto
    with False "1.prems" have "nat_digits (n div 10) = CHR ''0'' # ds" by (simp add: nat_digits.simps [of n])
    with "1.IH" [OF False] have "n div 10 = 0" by simp
    with False show ?thesis by simp
  qed
qed

lemma nat_digits_0: "nat_digits 0 = ''0''"
  by code_simp

lemma parse_nonneg_digits:
  assumes "ends_number t"
  shows "parse_nonneg (nat_digits n @ t) = Some (nat_digits n, t)"
proof -
  have all: "\<And>c. c \<in> set (nat_digits n) \<Longrightarrow> is_digit c" using nat_digits_is_digit by simp
  have t: "t = [] \<or> \<not> is_digit (hd t) \<and> hd t \<noteq> CHR ''.'' \<and> hd t \<noteq> CHR ''e'' \<and> hd t \<noteq> CHR ''E''"
    using assms by (auto simp: ends_number_def is_digit_def)
  then have "takeWhile is_digit t = []" "dropWhile is_digit t = t" by (cases t; auto)+
  with all have span: "span_digits (nat_digits n @ t) = (nat_digits n, t)"
    by (simp add: span_digits_def)
  have zero: "tl (nat_digits n) = [] \<and> nat_digits n = ''0''" if "hd (nat_digits n) = CHR ''0''"
  proof -
    have "n = 0" using that nat_digits_head_zero [of n] by (cases "nat_digits n") auto
    then show ?thesis by (simp add: nat_digits_0)
  qed
  have rest: "parse_frac t = Some ([], t)" "parse_exp t = Some ([], t)"
    using t by (cases t; auto simp: parse_frac_def parse_exp_def)+
  then show ?thesis
    using zero by (simp add: parse_nonneg_def span)
qed

lemma parse_num_Itoa:
  assumes "ends_number t"
  shows "parse_num (Itoa i @ t) = Some (Itoa i, t)"
proof (cases "i < 0")
  case True
  then show ?thesis using parse_nonneg_digits [OF assms] by (simp add: parse_num_def Itoa_def)
next
  case False
  then obtain c cs where c: "Itoa i = c # cs" "is_digit c" using Itoa_nonneg_Cons [of i] by auto
  then have "c \<noteq> CHR ''-''" by auto
  with c have "parse_num (Itoa i @ t) = parse_nonneg (Itoa i @ t)" by (simp add: parse_num_def)
  then show ?thesis using False parse_nonneg_digits [OF assms] by (simp add: Itoa_def)
qed

subsection \<open>Values\<close>

text \<open>What \<^verbatim>\<open>Marshal\<close> prints for the structs of the program: numbers are decimal integers.\<close>

fun wf_json :: "json \<Rightarrow> bool" where
  "wf_json (JNum l) \<longleftrightarrow> (\<exists>i. l = Itoa i)"
| "wf_json (JArr js) \<longleftrightarrow> (\<forall>j \<in> set js. wf_json j)"
| "wf_json (JObj kvs) \<longleftrightarrow> (\<forall>kv \<in> set kvs. wf_json (snd kv))"
| "wf_json _ \<longleftrightarrow> True"

definition starts_value :: "string \<Rightarrow> bool" where
  "starts_value s \<longleftrightarrow> s \<noteq> [] \<and> \<not> is_ws (hd s) \<and> hd s \<noteq> CHR '']'' \<and> hd s \<noteq> CHR ''}''"

lemma starts_value_Cons: "starts_value (c # s) \<longleftrightarrow> \<not> is_ws c \<and> c \<noteq> CHR '']'' \<and> c \<noteq> CHR ''}''"
  by (simp add: starts_value_def)

lemma skip_ws_starts [simp]: "starts_value s \<Longrightarrow> skip_ws (s @ t) = s @ t"
  by (cases s) (simp_all add: starts_value_def skip_ws_def)

lemma skip_ws_Cons [simp]: "\<not> is_ws c \<Longrightarrow> skip_ws (c # s) = c # s"
  by (simp add: skip_ws_def)

lemma not_ws [simp]:
  "\<not> is_ws CHR '',''" "\<not> is_ws CHR '']''" "\<not> is_ws CHR ''}''" "\<not> is_ws CHR '':''" "\<not> is_ws CHR 0x22"
  "\<not> is_ws CHR ''{''" "\<not> is_ws CHR ''[''"
  by (simp_all add: is_ws_def)

lemma Itoa_starts:
  obtains c cs where "Itoa i = c # cs" and "c = CHR ''-'' \<or> is_digit c"
proof (cases "i < 0")
  case True
  then show ?thesis by (intro that) (auto simp: Itoa_def)
next
  case False
  then show ?thesis by (cases "0 \<le> i") (auto intro: that elim: Itoa_nonneg_Cons)
qed

lemma number_head:
  assumes "c = CHR ''-'' \<or> is_digit c"
  shows "\<not> is_ws c" "c \<notin> {CHR ''{'', CHR ''}'', CHR ''['', CHR '']'', CHR 0x22, CHR ''n'', CHR ''t'', CHR ''f''}"
  using assms by (auto simp: is_ws_def is_digit_def)

lemma print_json_starts: "wf_json j \<Longrightarrow> starts_value (print_json j)"
proof (cases j)
  case (JNum l)
  assume "wf_json j"
  then obtain i where l: "l = Itoa i" using JNum by auto
  obtain c cs where c: "Itoa i = c # cs" "c = CHR ''-'' \<or> is_digit c" by (rule Itoa_starts)
  then show ?thesis using number_head [OF c(2)] by (simp add: JNum l starts_value_Cons)
qed (auto simp: starts_value_def print_string_def is_ws_def)

lemma length_print_json: "wf_json j \<Longrightarrow> 0 < length (print_json j)"
  using print_json_starts [of j] by (simp add: starts_value_def)

lemma parse_atom_number:
  assumes "ends_number t"
  shows "parse_value (Suc n) (Itoa i @ t) = Some (JNum (Itoa i), t)"
proof -
  obtain c cs where c: "Itoa i = c # cs" "c = CHR ''-'' \<or> is_digit c" by (rule Itoa_starts)
  note nh = number_head [OF c(2)]
  have "parse_atom (Itoa i @ t) = map_option (\<lambda>(l, t). (JNum l, t)) (parse_num (Itoa i @ t))"
    using nh by (auto simp: parse_atom_def c)
  then show ?thesis using nh parse_num_Itoa [OF assms, of i] by (simp add: c)
qed

text \<open>The invariant of the three mutually recursive parsers, for one printed value.\<close>

definition reads_back :: "json \<Rightarrow> bool" where
  "reads_back j \<longleftrightarrow>
     (\<forall>n t. length (print_json j) \<le> n \<longrightarrow> ends_number t \<longrightarrow> parse_value n (print_json j @ t) = Some (j, t))"

lemma ends_numberI [simp]:
  "ends_number (CHR '','' # t)" "ends_number (CHR '']'' # t)" "ends_number (CHR ''}'' # t)" "ends_number []"
  by (simp_all add: ends_number_def)

lemma parse_elems_print:
  "js \<noteq> [] \<Longrightarrow> \<forall>j \<in> set js. wf_json j \<and> reads_back j \<Longrightarrow>
   length (join '','' (map print_json js)) < n \<Longrightarrow>
   parse_elems n (join '','' (map print_json js) @ CHR '']'' # t) = Some (js, t)"
proof (induction js arbitrary: n)
  case (Cons j js)
  then obtain m where n: "n = Suc m" by (cases n) auto
  have len: "0 < length (print_json j)" using Cons.prems(2) by (intro length_print_json) simp
  show ?case
  proof (cases js)
    case Nil
    then show ?thesis using Cons.prems by (simp add: n reads_back_def)
  next
    case (Cons k ks)
    let ?r = "join '','' (map print_json js)"
    have p: "join '','' (map print_json (j # js)) @ CHR '']'' # t = print_json j @ CHR '','' # ?r @ CHR '']'' # t"
      using Cons by simp
    have "parse_value m (print_json j @ CHR '','' # ?r @ CHR '']'' # t) = Some (j, CHR '','' # ?r @ CHR '']'' # t)"
      using Cons.prems Cons n by (simp add: reads_back_def)
    moreover have "parse_elems m (?r @ CHR '']'' # t) = Some (js, t)"
      using Cons.IH [of m] Cons.prems Cons n len by simp
    ultimately show ?thesis unfolding p by (simp add: n)
  qed
qed simp

definition print_member :: "string \<times> json \<Rightarrow> string" where
  "print_member kv = print_string (fst kv) @ CHR '':'' # print_json (snd kv)"

lemma print_JObj: "print_json (JObj kvs) = CHR ''{'' # join '','' (map print_member kvs) @ ''}''"
proof -
  have "(\<lambda>(k, v). print_string k @ CHR '':'' # print_json v) = print_member"
    by (auto simp: print_member_def)
  then show ?thesis by simp
qed

lemma parse_members_one:
  assumes "wf_json v" and "reads_back v" and "length (print_json v) \<le> m" and "ends_number t"
  shows "parse_members (Suc m) (print_member (k, v) @ t) =
    (case skip_ws t of
       [] \<Rightarrow> None
     | c # u \<Rightarrow>
         if c = CHR ''}'' then Some ([(k, v)], u)
         else if c = CHR '','' then map_option (\<lambda>(kvs, w). ((k, v) # kvs, w)) (parse_members m u)
         else None)"
proof -
  have "parse_str (concat (map esc k) @ CHR 0x22 # CHR '':'' # print_json v @ t) =
      Some (k, CHR '':'' # print_json v @ t)"
    by (rule parse_str_print)
  moreover have "parse_value m (print_json v @ t) = Some (v, t)"
    using assms by (simp add: reads_back_def)
  ultimately show ?thesis by (simp add: print_member_def print_string_def)
qed

lemma parse_members_print:
  "kvs \<noteq> [] \<Longrightarrow> \<forall>kv \<in> set kvs. wf_json (snd kv) \<and> reads_back (snd kv) \<Longrightarrow>
   length (join '','' (map print_member kvs)) < n \<Longrightarrow>
   parse_members n (join '','' (map print_member kvs) @ CHR ''}'' # t) = Some (kvs, t)"
proof (induction kvs arbitrary: n)
  case (Cons kv kvs)
  obtain k v where kv: "kv = (k, v)" by (cases kv)
  from Cons.prems obtain m where n: "n = Suc m" by (cases n) auto
  have v: "wf_json v" "reads_back v" using Cons.prems(2) by (simp_all add: kv)
  have len: "length (print_json v) < length (print_member kv)"
    by (simp add: kv print_member_def print_string_def)
  show ?case
  proof (cases kvs)
    case Nil
    then have "length (print_json v) \<le> m" using Cons.prems(3) len n by simp
    from parse_members_one [OF v this] Nil show ?thesis by (simp add: n kv)
  next
    case (Cons x xs)
    let ?r = "join '','' (map print_member kvs)"
    have p: "join '','' (map print_member (kv # kvs)) @ CHR ''}'' # t =
        print_member (k, v) @ CHR '','' # ?r @ CHR ''}'' # t"
      using Cons by (simp add: kv)
    have "length (print_json v) \<le> m" "parse_members m (?r @ CHR ''}'' # t) = Some (kvs, t)"
      using Cons.prems Cons.IH [of m] Cons n len by simp_all
    with parse_members_one [OF v, of m "CHR '','' # ?r @ CHR ''}'' # t" k] show ?thesis
      unfolding p by (simp add: n kv)
  qed
qed simp

lemma reads_back_wf: "wf_json j \<Longrightarrow> reads_back j"
proof (induction j)
  case (JArr js)
  have "parse_value n (print_json (JArr js) @ t) = Some (JArr js, t)"
    if n: "length (print_json (JArr js)) \<le> n" for n t
  proof (cases js)
    case Nil
    with n show ?thesis by (cases n) simp_all
  next
    case (Cons j ks)
    from n obtain m where m: "n = Suc m" by (cases n) auto
    let ?p = "join '','' (map print_json js)"
    have "starts_value (print_json j)" using JArr.prems Cons by (intro print_json_starts) simp
    then obtain c cs where c: "?p = c # cs" "\<not> is_ws c" "c \<noteq> CHR '']''"
      unfolding Cons by (cases "print_json j"; cases ks) (auto simp: starts_value_def)
    have "parse_elems m (?p @ CHR '']'' # t) = Some (js, t)"
      using JArr Cons n m by (intro parse_elems_print) auto
    then show ?thesis using c by (simp add: m)
  qed
  then show ?case by (simp only: reads_back_def) blast
next
  case (JObj kvs)
  have "parse_value n (print_json (JObj kvs) @ t) = Some (JObj kvs, t)"
    if n: "length (print_json (JObj kvs)) \<le> n" for n t
  proof (cases kvs)
    case Nil
    with n show ?thesis by (cases n) simp_all
  next
    case (Cons kv xs)
    from n obtain m where m: "n = Suc m" by (cases n) auto
    let ?p = "join '','' (map print_member kvs)"
    obtain cs where c: "?p = CHR 0x22 # cs"
      unfolding Cons by (cases xs) (auto simp: print_member_def print_string_def)
    have "\<forall>kv \<in> set kvs. wf_json (snd kv) \<and> reads_back (snd kv)"
      using JObj by (auto simp: snds.simps)
    then have "parse_members m (?p @ CHR ''}'' # t) = Some (kvs, t)"
      using Cons n m by (intro parse_members_print) (auto simp: print_JObj simp del: print_json.simps)
    then show ?thesis using c unfolding print_JObj by (simp add: m)
  qed
  then show ?case by (simp only: reads_back_def) blast
next
  case (JNum l)
  then obtain i where "l = Itoa i" by auto
  moreover have "n \<noteq> 0" if "length (Itoa i) \<le> n" for n i using that by (cases n) simp_all
  ultimately show ?case unfolding reads_back_def
    by (metis parse_atom_number print_json.simps(3) not0_implies_Suc)
next
  case (JStr s)
  show ?case unfolding reads_back_def
  proof (intro allI impI)
    fix n t assume "length (print_json (JStr s)) \<le> n"
    then obtain m where "n = Suc m" by (cases n) (auto simp: print_string_def)
    then show "parse_value n (print_json (JStr s) @ t) = Some (JStr s, t)"
      by (simp add: print_string_def parse_str_print)
  qed
next
  case JNull
  show ?case unfolding reads_back_def
  proof (intro allI impI)
    fix n t assume "length (print_json JNull) \<le> n"
    then obtain m where "n = Suc m" by (cases n) auto
    then show "parse_value n (print_json JNull @ t) = Some (JNull, t)"
      by (simp add: parse_atom_def is_ws_def)
  qed
next
  case (JBool b)
  show ?case unfolding reads_back_def
  proof (intro allI impI)
    fix n t assume "length (print_json (JBool b)) \<le> n"
    then obtain m where "n = Suc m" by (cases n) (auto split: if_splits)
    then show "parse_value n (print_json (JBool b) @ t) = Some (JBool b, t)"
      by (cases b) (simp_all add: parse_atom_def is_ws_def)
  qed
qed

text \<open>The parser reads back what the printer wrote.\<close>

lemma reads_backD:
  "reads_back j \<Longrightarrow> length (print_json j) \<le> n \<Longrightarrow> parse_value n (print_json j @ []) = Some (j, [])"
  unfolding reads_back_def by (metis ends_numberI(4))

lemma parse_print_json [str_simps]: "wf_json j \<Longrightarrow> parse_json (print_json j) = Some j"
  using reads_backD [OF reads_back_wf, of j "Suc (length (print_json j))"]
  by (simp add: parse_json_def skip_ws_def del: parse_value.simps)

declare parse_value.simps [simp del] parse_elems.simps [simp del] parse_members.simps [simp del]

section \<open>Structs\<close>

text \<open>
  How \<^verbatim>\<open>Unmarshal\<close> reads an object into a struct: the members in their order, each into the
  field of that name or, failing that, the first field whose name is equal up to case; unknown
  members are skipped. A value of the wrong type sets the error flag, and the others are still
  read. \<open>null\<close> leaves a field as it is.
\<close>

fun fold_key :: "string \<Rightarrow> string" where
  "fold_key (a # b # c # s) =
     (if a = CHR 0xE2 \<and> b = CHR 0x84 \<and> c = CHR 0xAA then CHR ''K'' # fold_key s
      else if a = CHR 0xC5 \<and> b = CHR 0xBF then CHR ''S'' # fold_key (c # s)
      else (if 97 \<le> char_code a \<and> char_code a \<le> 122 then char_of (char_code a - 32) else a) # fold_key (b # c # s))"
| "fold_key [a, b] =
     (if a = CHR 0xC5 \<and> b = CHR 0xBF then ''S''
      else (if 97 \<le> char_code a \<and> char_code a \<le> 122 then char_of (char_code a - 32) else a) # fold_key [b])"
| "fold_key [a] = [if 97 \<le> char_code a \<and> char_code a \<le> 122 then char_of (char_code a - 32) else a]"
| "fold_key [] = []"

definition resolve :: "string list \<Rightarrow> string \<Rightarrow> string option" where
  "resolve names k = (if k \<in> set names then Some k else find (\<lambda>f. fold_key f = fold_key k) names)"

fun read_members ::
  "string list \<Rightarrow> (string \<Rightarrow> json \<Rightarrow> 'a \<Rightarrow> 'a \<times> bool) \<Rightarrow> (string \<times> json) list \<Rightarrow> 'a \<times> bool \<Rightarrow> 'a \<times> bool" where
  "read_members names put [] x = x"
| "read_members names put ((k, v) # kvs) (x, e) =
     (case resolve names k of
        None \<Rightarrow> read_members names put kvs (x, e)
      | Some f \<Rightarrow> (case put f v x of (x', e') \<Rightarrow> read_members names put kvs (x', e \<or> e')))"

definition read_struct ::
  "string list \<Rightarrow> (string \<Rightarrow> json \<Rightarrow> 'a \<Rightarrow> 'a \<times> bool) \<Rightarrow> json \<Rightarrow> 'a \<Rightarrow> 'a \<times> bool" where
  "read_struct names put j x =
     (case j of JObj kvs \<Rightarrow> read_members names put kvs (x, False) | JNull \<Rightarrow> (x, False) | _ \<Rightarrow> (x, True))"

definition read_string :: "json \<Rightarrow> string \<Rightarrow> string \<times> bool" where
  "read_string j old = (case j of JStr s \<Rightarrow> (s, False) | JNull \<Rightarrow> (old, False) | _ \<Rightarrow> (old, True))"

definition read_int :: "json \<Rightarrow> int64 \<Rightarrow> int64 \<times> bool" where
  "read_int j old =
     (case j of
        JNum l \<Rightarrow> (case ParseInt l of (v, err) \<Rightarrow> if err then (old, True) else (v, False))
      | JNull \<Rightarrow> (old, False)
      | _ \<Rightarrow> (old, True))"

definition read_bool :: "json \<Rightarrow> bool \<Rightarrow> bool \<times> bool" where
  "read_bool j old = (case j of JBool b \<Rightarrow> (b, False) | JNull \<Rightarrow> (old, False) | _ \<Rightarrow> (old, True))"

text \<open>
  A \<^verbatim>\<open>map[string]string\<close>: nil is \<open>None\<close>, otherwise an association list with distinct keys. (Go
  prints the keys in sorted order; the order carries no meaning.)
\<close>

type_synonym headers = "(string \<times> string) list option"

fun put_assoc :: "'k \<Rightarrow> 'v \<Rightarrow> ('k \<times> 'v) list \<Rightarrow> ('k \<times> 'v) list" where
  "put_assoc k v [] = [(k, v)]"
| "put_assoc k v ((k', v') # xs) = (if k = k' then (k, v) # xs else (k', v') # put_assoc k v xs)"

fun read_entries :: "(string \<times> json) list \<Rightarrow> (string \<times> string) list \<times> bool \<Rightarrow> (string \<times> string) list \<times> bool" where
  "read_entries [] x = x"
| "read_entries ((k, v) # kvs) (m, e) =
     (case read_string v [] of (s, e') \<Rightarrow> read_entries kvs (put_assoc k s m, e \<or> e'))"

definition read_map :: "json \<Rightarrow> headers \<Rightarrow> headers \<times> bool" where
  "read_map j old =
     (case j of
        JNull \<Rightarrow> (None, False)
      | JObj kvs \<Rightarrow> (case read_entries kvs (case old of None \<Rightarrow> [] | Some m \<Rightarrow> m, False) of (m, e) \<Rightarrow> (Some m, e))
      | _ \<Rightarrow> (old, True))"

definition show_map :: "headers \<Rightarrow> json" where
  "show_map h = (case h of None \<Rightarrow> JNull | Some m \<Rightarrow> JObj (map (\<lambda>(k, v). (k, JStr v)) m))"

definition wf_headers :: "headers \<Rightarrow> bool" where
  "wf_headers h \<longleftrightarrow> (case h of None \<Rightarrow> True | Some m \<Rightarrow> distinct (map fst m))"

lemma put_assoc_fresh [simp]: "k \<notin> fst ` set m \<Longrightarrow> put_assoc k v m = m @ [(k, v)]"
  by (induction m) auto

lemma map_of_put_assoc [simp]: "map_of (put_assoc k v m) = (map_of m)(k \<mapsto> v)"
  by (induction m) auto

lemma fst_put_assoc: "fst ` set (put_assoc k v m) = insert k (fst ` set m)"
  by (induction k v m rule: put_assoc.induct) (simp_all add: insert_commute)

lemma distinct_put_assoc: "distinct (map fst m) \<Longrightarrow> distinct (map fst (put_assoc k v m))"
  by (induction k v m rule: put_assoc.induct) (simp_all add: fst_put_assoc)

lemma read_entries_show:
  "distinct (map fst m) \<Longrightarrow> fst ` set m \<inter> fst ` set acc = {} \<Longrightarrow>
     read_entries (map (\<lambda>(k, v). (k, JStr v)) m) (acc, e) = (acc @ m, e)"
proof (induction m arbitrary: acc)
  case (Cons kv m)
  obtain k v where kv: "kv = (k, v)" by (cases kv)
  have "read_entries (map (\<lambda>(k, v). (k, JStr v)) m) (acc @ [(k, v)], e) = ((acc @ [(k, v)]) @ m, e)"
    using Cons.prems by (intro Cons.IH) (auto simp: kv)
  then show ?case using Cons.prems by (simp add: kv read_string_def)
qed simp

lemma read_show_map: "wf_headers h \<Longrightarrow> read_map (show_map h) None = (h, False)"
  using read_entries_show [of _ "[]" False]
  by (auto simp: read_map_def show_map_def wf_headers_def split: option.splits)

lemma wf_show_map [simp]: "wf_json (show_map h)"
  by (auto simp: show_map_def split: option.splits)

end
