(* ===== verification/NetUrl.thy ===== *)
theory NetUrl
  imports Prelude
begin

text \<open>
  Go's \<^verbatim>\<open>url.ParseRequestURI\<close> and \<^verbatim>\<open>url.Parse\<close>, reduced to the question the sources ask: is there an error?
  The functions follow package \<^verbatim>\<open>net/url\<close>: scheme, authority (user info, host, port) and path.
\<close>

definition is_letter :: "char \<Rightarrow> bool" where
  "is_letter c \<longleftrightarrow>
     (let n = (of_char c :: nat) in 65 \<le> n \<and> n \<le> 90 \<or> 97 \<le> n \<and> n \<le> 122)"

definition is_hex :: "char \<Rightarrow> bool" where
  "is_hex c \<longleftrightarrow>
     (let n = (of_char c :: nat) in 48 \<le> n \<and> n \<le> 57 \<or> 97 \<le> n \<and> n \<le> 102 \<or> 65 \<le> n \<and> n \<le> 70)"

definition has_ctl :: "string \<Rightarrow> bool" where
  "has_ctl s \<longleftrightarrow> (\<exists>c \<in> set s. (of_char c :: nat) < 32 \<or> (of_char c :: nat) = 127)"

text \<open>\<^verbatim>\<open>getScheme\<close>: no result when the scheme is missing before a colon, else scheme and rest.\<close>

fun scheme_loop :: "string \<Rightarrow> string \<Rightarrow> string \<Rightarrow> (string \<times> string) option" where
  "scheme_loop raw pre [] = Some ([], raw)"
| "scheme_loop raw pre (c # cs) =
     (if is_letter c then scheme_loop raw (pre @ [c]) cs
      else if is_digit c \<or> c = CHR ''+'' \<or> c = CHR ''-'' \<or> c = CHR ''.''
      then (if pre = [] then Some ([], raw) else scheme_loop raw (pre @ [c]) cs)
      else if c = CHR '':'' then (if pre = [] then None else Some (pre, cs))
      else Some ([], raw))"

definition getScheme :: "string \<Rightarrow> (string \<times> string) option" where
  "getScheme raw = scheme_loop raw [] raw"

datatype url_mode = EncodePath | EncodeHost | EncodeZone | EncodeUserPassword

text \<open>\<^verbatim>\<open>shouldEscape\<close> for the modes of host and zone.\<close>

definition host_escape :: "char \<Rightarrow> bool" where
  "host_escape c \<longleftrightarrow>
     \<not> (is_letter c \<or> is_digit c \<or> c \<in> set ''!$&()*+,;=:[]<>-_.~'' \<or> c = CHR 0x27 \<or> c = CHR 0x22)"

definition unhex :: "char \<Rightarrow> nat" where
  "unhex c =
     (let n = (of_char c :: nat) in
      if 48 \<le> n \<and> n \<le> 57 then n - 48
      else if 97 \<le> n \<and> n \<le> 102 then n - 87
      else if 65 \<le> n \<and> n \<le> 70 then n - 55
      else 0)"

text \<open>\<^verbatim>\<open>unescape\<close>, as far as whether it succeeds.\<close>

fun unescape_ok :: "url_mode \<Rightarrow> string \<Rightarrow> bool" where
  "unescape_ok mode [] \<longleftrightarrow> True"
| "unescape_ok mode (c # cs) \<longleftrightarrow>
     (if c = CHR ''%'' then
        (case cs of
           a # b # r \<Rightarrow>
             is_hex a \<and> is_hex b \<and>
             \<not> (mode = EncodeHost \<and> unhex a < 8 \<and> [a, b] \<noteq> ''25'') \<and>
             \<not> (mode = EncodeZone \<and> [a, b] \<noteq> ''25'' \<and> [a, b] \<noteq> ''20'' \<and>
                host_escape (char_of (16 * unhex a + unhex b))) \<and>
             unescape_ok mode r
         | _ \<Rightarrow> False)
      else
        \<not> ((mode = EncodeHost \<or> mode = EncodeZone) \<and> (of_char c :: nat) < 128 \<and> host_escape c) \<and>
        unescape_ok mode cs)"

definition validOptionalPort :: "string \<Rightarrow> bool" where
  "validOptionalPort port \<longleftrightarrow>
     (case port of [] \<Rightarrow> True | c # cs \<Rightarrow> c = CHR '':'' \<and> list_all is_digit cs)"

text \<open>The index of the first occurrence of a substring.\<close>

fun index_sub :: "string \<Rightarrow> string \<Rightarrow> nat option" where
  "index_sub w [] = (if w = [] then Some 0 else None)"
| "index_sub w (c # cs) =
     (if take (length w) (c # cs) = w then Some 0 else map_option Suc (index_sub w cs))"

definition parseHost_ok :: "string \<Rightarrow> bool" where
  "parseHost_ok host \<longleftrightarrow>
     (if take 1 host = ''['' then
        (let i = last_index CHR '']'' host in
         if i < 0 then False
         else
           validOptionalPort (drop (nat i + 1) host) \<and>
           (case index_sub ''%25'' (take (nat i) host) of
              Some zone \<Rightarrow>
                unescape_ok EncodeHost (take zone host) \<and>
                unescape_ok EncodeZone (drop zone (take (nat i) host)) \<and>
                unescape_ok EncodeHost (drop (nat i) host)
            | None \<Rightarrow> unescape_ok EncodeHost host))
      else
        (let i = last_index CHR '':'' host in
         (i \<ge> 0 \<longrightarrow> validOptionalPort (drop (nat i) host)) \<and> unescape_ok EncodeHost host))"

definition validUserinfo :: "string \<Rightarrow> bool" where
  "validUserinfo s \<longleftrightarrow>
     list_all (\<lambda>c. is_letter c \<or> is_digit c \<or> c \<in> set ''-._:~!$&()*+,;=%@'' \<or> c = CHR 0x27) s"

definition parseAuthority_ok :: "string \<Rightarrow> bool" where
  "parseAuthority_ok authority \<longleftrightarrow>
     (let i = last_index CHR ''@'' authority in
      if i < 0 then parseHost_ok authority
      else
        parseHost_ok (drop (nat i + 1) authority) \<and>
        validUserinfo (take (nat i) authority) \<and>
        list_all (unescape_ok EncodeUserPassword) (split_on CHR '':'' (take (nat i) authority)))"

definition ParseRequestURI_ok :: "string \<Rightarrow> bool" where
  "ParseRequestURI_ok raw \<longleftrightarrow>
     (if has_ctl raw \<or> raw = [] then False
      else if raw = ''*'' then True
      else
        (case getScheme raw of
           None \<Rightarrow> False
         | Some (scheme, rest0) \<Rightarrow>
             (let rest = takeWhile (\<lambda>c. c \<noteq> CHR ''?'') rest0 in
              if take 1 rest \<noteq> ''/'' then scheme \<noteq> []
              else if scheme \<noteq> [] \<and> take 2 rest = ''//'' then
                (let authority = takeWhile (\<lambda>c. c \<noteq> CHR ''/'') (drop 2 rest);
                     path = dropWhile (\<lambda>c. c \<noteq> CHR ''/'') (drop 2 rest)
                 in parseAuthority_ok authority \<and> unescape_ok EncodePath path)
              else unescape_ok EncodePath rest)))"

text \<open>
  \<^verbatim>\<open>url.Parse\<close> cuts the fragment off first, accepts relative paths unless their first segment has a
  colon, and an authority without a scheme.
\<close>

definition Parse_ok :: "string \<Rightarrow> bool" where
  "Parse_ok raw \<longleftrightarrow>
     (let u = takeWhile (\<lambda>c. c \<noteq> CHR ''#'') raw; frag = drop 1 (dropWhile (\<lambda>c. c \<noteq> CHR ''#'') raw) in
      unescape_ok EncodePath frag \<and>
      (if has_ctl u then False
       else if u = ''*'' then True
       else
         (case getScheme u of
            None \<Rightarrow> False
          | Some (scheme, rest0) \<Rightarrow>
              (let rest = takeWhile (\<lambda>c. c \<noteq> CHR ''?'') rest0 in
               if take 1 rest \<noteq> ''/'' \<and> scheme \<noteq> [] then True
               else if take 1 rest \<noteq> ''/'' \<and> CHR '':'' \<in> set (takeWhile (\<lambda>c. c \<noteq> CHR ''/'') rest) then False
               else if (scheme \<noteq> [] \<or> take 3 rest \<noteq> ''///'') \<and> take 2 rest = ''//'' then
                 (let authority = takeWhile (\<lambda>c. c \<noteq> CHR ''/'') (drop 2 rest);
                      path = dropWhile (\<lambda>c. c \<noteq> CHR ''/'') (drop 2 rest)
                  in parseAuthority_ok authority \<and> unescape_ok EncodePath path)
               else unescape_ok EncodePath rest))))"

text \<open>An empty text is no URL.\<close>

lemma ParseRequestURI_ok_Nil [simp]: "\<not> ParseRequestURI_ok []"
  by (simp add: ParseRequestURI_ok_def)

end
