(* ===== verification/Store.thy ===== *)
theory Store
  imports Cron Json NetUrl
begin

text \<open>
  The package \<^verbatim>\<open>store\<close>: schedules, apps and callbacks (src/store/*.go), the application part of
  src/conf/config.go and src/util/util.go. An operation that changes its receiver returns the
  new record. Time is a number of nanoseconds since the epoch, and the current time is an
  argument (\<open>now\<close>); the UUID generator and the text of a UUID belong to gocql and are arguments
  as well (\<open>fresh\<close>, \<open>uuid_String\<close>), as is the time zone of the host (\<open>civil_of\<close>).
\<close>

unbundle bit_operations_syntax

section \<open>Data\<close>

type_synonym uuid = "8 word list"
type_synonym time = int
type_synonym status = string
type_synonym action_type = string

definition Scheduled :: status where "Scheduled = ''SCHEDULED''"
definition Deleted :: status where "Deleted = ''DELETED''"
definition Success :: status where "Success = ''SUCCESS''"
definition Failure :: status where "Failure = ''FAILURE''"
definition Miss :: status where "Miss = ''MISS''"
definition StatusError :: status where "StatusError = ''ERROR''"
definition Paused :: status where "Paused = ''PAUSED''"
definition Reconcile :: action_type where "Reconcile = ''reconcile''"
definition Delete :: action_type where "Delete = ''delete''"

lemmas status_defs = Scheduled_def Deleted_def Success_def Failure_def Miss_def StatusError_def Paused_def

definition maxHistorySize :: nat where "maxHistorySize = 5"

text \<open>
  \<^verbatim>\<open>store.Configuration\<close>; \<^verbatim>\<open>conf.AppLevelConfiguration\<close> has the same five fields and shares the type.
\<close>

record Configuration =
  FutureScheduleCreationPeriod :: int64
  FiredScheduleRetentionPeriod :: int64
  PayloadSize :: int64
  HttpRetries :: int64
  HttpTimeout :: int64

definition empty_configuration :: Configuration where
  "empty_configuration =
     \<lparr>FutureScheduleCreationPeriod = 0, FiredScheduleRetentionPeriod = 0, PayloadSize = 0,
      HttpRetries = 0, HttpTimeout = 0\<rparr>"

record App =
  app_AppId :: string
  Partitions :: "32 word"
  Active :: bool
  app_Configuration :: Configuration

definition empty_app :: App where
  "empty_app = \<lparr>app_AppId = [], Partitions = 0, Active = False, app_Configuration = empty_configuration\<rparr>"

record details =
  Url :: string
  Method :: string
  Headers :: headers

record http_callback =
  Type :: string
  Details :: details

record old_http_callback =
  old_Url :: string
  old_Headers :: headers

record airbus_callback =
  EventName :: string
  AppName :: string
  airbus_Headers :: headers

text \<open>The implementations of the interface \<^verbatim>\<open>Callback\<close> in the repository.\<close>

datatype Callback =
    HttpCallback http_callback
  | HTTPCallback old_http_callback
  | AirbusCallback airbus_callback

record reconciliation_history =
  rh_Status :: status
  rh_ErrorMessage :: string
  CallbackOn :: string

text \<open>
  \<^verbatim>\<open>store.Schedule\<close>. The nil callback is \<open>None\<close>; so is the nil slice of reconciliations.
\<close>

record Schedule =
  ScheduleId :: uuid
  Payload :: string
  AppId :: string
  ScheduleTime :: int64
  PartitionId :: int64
  ScheduleGroup :: int64
  Callback :: "Callback option"
  CallbackRaw :: string
  CronExpression :: string
  Status :: status
  ErrorMessage :: string
  ParentScheduleId :: uuid
  ReconciliationHistory :: "reconciliation_history list option"
  sch_AirbusCallback :: airbus_callback
  sch_HttpCallback :: old_http_callback

definition zero_uuid :: uuid where
  "zero_uuid = replicate 16 0"

definition zero_airbus :: airbus_callback where
  "zero_airbus = \<lparr>EventName = [], AppName = [], airbus_Headers = None\<rparr>"

definition zero_old_http :: old_http_callback where
  "zero_old_http = \<lparr>old_Url = [], old_Headers = None\<rparr>"

definition empty_schedule :: Schedule where
  "empty_schedule =
     \<lparr>ScheduleId = zero_uuid, Payload = [], AppId = [], ScheduleTime = 0, PartitionId = 0, ScheduleGroup = 0,
      Callback = None, CallbackRaw = [], CronExpression = [], Status = [], ErrorMessage = [],
      ParentScheduleId = zero_uuid, ReconciliationHistory = None,
      sch_AirbusCallback = zero_airbus, sch_HttpCallback = zero_old_http\<rparr>"

record ScheduleWrapper =
  sw_Schedule :: Schedule
  sw_App :: App
  IsReconciliation :: bool

record BulkActionTask =
  bt_App :: App
  bt_PartitionId :: int64
  ScheduleTimeGroup :: time
  bt_Status :: status
  ActionType :: action_type

record StatusTask =
  st_Schedules :: "Schedule list"
  st_App :: App

record CreateScheduleTask =
  task_Cron :: Schedule
  task_From :: time
  task_Duration :: int64

text \<open>
  A column value as gocql's \<^verbatim>\<open>MapScan\<close> delivers it, and a row. Timestamps are milliseconds since
  the epoch.
\<close>

datatype cql =
    VText string
  | VInt int64
  | VBool bool
  | VTime int64
  | VUuid uuid
  | VMap "(string \<times> string) list"

type_synonym row = "(string \<times> cql) list"

section \<open>Time\<close>

definition second :: int where "second = 10 ^ 9"
definition minute_ns :: int where "minute_ns = 60 * second"
definition hour_ns :: int where "hour_ns = 60 * minute_ns"

text \<open>\<^verbatim>\<open>t.Unix()\<close> and \<^verbatim>\<open>time.Unix(sec, 0)\<close>.\<close>

definition Unix :: "time \<Rightarrow> int64" where
  "Unix t = t div second"

definition from_Unix :: "int64 \<Rightarrow> time" where
  "from_Unix s = s * second"

lemma Unix_from_Unix [simp]: "Unix (from_Unix s) = s"
  by (simp add: Unix_def from_Unix_def second_def)

text \<open>\<^verbatim>\<open>t.Format("2006-01-02 15:04:05")\<close>.\<close>

definition pad :: "nat \<Rightarrow> int64 \<Rightarrow> string" where
  "pad w i = (let ds = Itoa i in replicate (w - length ds) CHR ''0'' @ ds)"

definition format_time :: "civil \<Rightarrow> string" where
  "format_time t =
     pad 4 (tYear t) @ ''-'' @ pad 2 (tMonth t) @ ''-'' @ pad 2 (tDay t) @ '' '' @
     pad 2 (tHour t) @ '':'' @ pad 2 (tMinute t) @ '':'' @ pad 2 (tSecond t)"

section \<open>Utilities\<close>

text \<open>\<^verbatim>\<open>util.IsZeroUUID\<close>: the loop over the 16 bytes.\<close>

definition IsZeroUUID :: "uuid \<Rightarrow> bool" where
  "IsZeroUUID u \<longleftrightarrow> list_all (\<lambda>x. u ! x = 0) [0..<16]"

text \<open>A type assertion without the comma-ok form panics when it fails.\<close>

definition as_string :: "cql option \<Rightarrow> string go" where
  "as_string v = (case v of Some (VText s) \<Rightarrow> Ret s | _ \<Rightarrow> Panic ''interface conversion'')"

definition as_int :: "cql option \<Rightarrow> int64 go" where
  "as_int v = (case v of Some (VInt i) \<Rightarrow> Ret i | _ \<Rightarrow> Panic ''interface conversion'')"

definition as_time :: "cql option \<Rightarrow> time go" where
  "as_time v = (case v of Some (VTime ms) \<Rightarrow> Ret (ms * 10 ^ 6) | _ \<Rightarrow> Panic ''interface conversion'')"

definition as_uuid :: "cql option \<Rightarrow> uuid go" where
  "as_uuid v = (case v of Some (VUuid u) \<Rightarrow> Ret u | _ \<Rightarrow> Panic ''interface conversion'')"

lemmas as_defs [go_simps] = as_string_def as_int_def as_time_def as_uuid_def

lemma as_Ret [go_simps]:
  "as_string v = Ret s \<longleftrightarrow> v = Some (VText s)"
  "as_int v = Ret i \<longleftrightarrow> v = Some (VInt i)"
  "as_time v = Ret t \<longleftrightarrow> (\<exists>ms. v = Some (VTime ms) \<and> t = ms * 10 ^ 6)"
  "as_uuid v = Ret u \<longleftrightarrow> v = Some (VUuid u)"
  by (auto simp: as_defs split: option.splits cql.splits)

text \<open>An error of \<^verbatim>\<open>encoding/json\<close>; its text is not modelled.\<close>

definition json_error :: go_error where
  "json_error = Err ''json: cannot unmarshal''"

section \<open>Apps\<close>

definition GetMaxTTL :: "App \<Rightarrow> int64 \<Rightarrow> int64" where
  "GetMaxTTL a maxTTL =
     (if FutureScheduleCreationPeriod (app_Configuration a) = 0 then wrap64 (86400 * maxTTL)
      else wrap64 (86400 * FutureScheduleCreationPeriod (app_Configuration a)))"

definition GetBufferTTL :: "App \<Rightarrow> int64 \<Rightarrow> int64" where
  "GetBufferTTL a bufferTTL =
     (if FiredScheduleRetentionPeriod (app_Configuration a) = 0 then wrap64 (86400 * bufferTTL)
      else wrap64 (86400 * FiredScheduleRetentionPeriod (app_Configuration a)))"

section \<open>Callbacks\<close>

text \<open>The JSON forms of the structs: a field with \<^verbatim>\<open>omitempty\<close> is left out when it is empty.\<close>

definition omit_string :: "string \<Rightarrow> string \<Rightarrow> (string \<times> json) list" where
  "omit_string name s = (if s = [] then [] else [(name, JStr s)])"

definition omit_int :: "string \<Rightarrow> int64 \<Rightarrow> (string \<times> json) list" where
  "omit_int name i = (if i = 0 then [] else [(name, JNum (Itoa i))])"

definition omit_map :: "string \<Rightarrow> headers \<Rightarrow> (string \<times> json) list" where
  "omit_map name h = (if h = None \<or> h = Some [] then [] else [(name, show_map h)])"

definition show_details :: "details \<Rightarrow> json" where
  "show_details d = JObj [(''url'', JStr (Url d)), (''method'', JStr (Method d)), (''headers'', show_map (Headers d))]"

definition show_callback :: "Callback \<Rightarrow> json" where
  "show_callback c =
     (case c of
        HttpCallback h \<Rightarrow> JObj [(''type'', JStr (Type h)), (''details'', show_details (Details h))]
      | HTTPCallback h \<Rightarrow> JObj (omit_string ''url'' (old_Url h) @ omit_map ''headers'' (old_Headers h))
      | AirbusCallback h \<Rightarrow> JObj (omit_string ''eventName'' (EventName h) @ omit_string ''appName'' (AppName h) @
                             omit_map ''headers'' (airbus_Headers h)))"

definition put_details :: "string \<Rightarrow> json \<Rightarrow> details \<Rightarrow> details \<times> bool" where
  "put_details f v d =
     (if f = ''url'' then (case read_string v (Url d) of (s, e) \<Rightarrow> (d\<lparr>Url := s\<rparr>, e))
      else if f = ''method'' then (case read_string v (Method d) of (s, e) \<Rightarrow> (d\<lparr>Method := s\<rparr>, e))
      else (case read_map v (Headers d) of (m, e) \<Rightarrow> (d\<lparr>Headers := m\<rparr>, e)))"

definition read_details :: "json \<Rightarrow> details \<Rightarrow> details \<times> bool" where
  "read_details = read_struct [''url'', ''method'', ''headers''] put_details"

definition zero_details :: details where
  "zero_details = \<lparr>Url = [], Method = [], Headers = None\<rparr>"

definition put_http_callback :: "string \<Rightarrow> json \<Rightarrow> http_callback \<Rightarrow> http_callback \<times> bool" where
  "put_http_callback f v h =
     (if f = ''type'' then (case read_string v (Type h) of (s, e) \<Rightarrow> (h\<lparr>Type := s\<rparr>, e))
      else (case read_details v (Details h) of (d, e) \<Rightarrow> (h\<lparr>Details := d\<rparr>, e)))"

definition put_old_http :: "string \<Rightarrow> json \<Rightarrow> old_http_callback \<Rightarrow> old_http_callback \<times> bool" where
  "put_old_http f v h =
     (if f = ''url'' then (case read_string v (old_Url h) of (s, e) \<Rightarrow> (h\<lparr>old_Url := s\<rparr>, e))
      else (case read_map v (old_Headers h) of (m, e) \<Rightarrow> (h\<lparr>old_Headers := m\<rparr>, e)))"

definition put_airbus :: "string \<Rightarrow> json \<Rightarrow> airbus_callback \<Rightarrow> airbus_callback \<times> bool" where
  "put_airbus f v h =
     (if f = ''eventName'' then (case read_string v (EventName h) of (s, e) \<Rightarrow> (h\<lparr>EventName := s\<rparr>, e))
      else if f = ''appName'' then (case read_string v (AppName h) of (s, e) \<Rightarrow> (h\<lparr>AppName := s\<rparr>, e))
      else (case read_map v (airbus_Headers h) of (m, e) \<Rightarrow> (h\<lparr>airbus_Headers := m\<rparr>, e)))"

text \<open>
  The methods of the three callbacks, each followed by the call through the interface, which
  selects the method of the dynamic type. \<^verbatim>\<open>UnmarshalJSON\<close> is given a parsed value; the flag says
  that it returns an error.
\<close>

definition HttpCallback_UnmarshalJSON :: "json \<Rightarrow> http_callback \<Rightarrow> http_callback \<times> bool" where
  "HttpCallback_UnmarshalJSON j h = read_struct [''type'', ''details''] put_http_callback j h"

definition HTTPCallback_UnmarshalJSON :: "json \<Rightarrow> old_http_callback \<Rightarrow> old_http_callback \<times> bool" where
  "HTTPCallback_UnmarshalJSON j h = read_struct [''url'', ''headers''] put_old_http j h"

definition AirbusCallback_UnmarshalJSON :: "json \<Rightarrow> airbus_callback \<Rightarrow> airbus_callback \<times> bool" where
  "AirbusCallback_UnmarshalJSON j h = read_struct [''eventName'', ''appName'', ''headers''] put_airbus j h"

definition UnmarshalJSON_callback :: "json \<Rightarrow> Callback \<Rightarrow> Callback \<times> bool" where
  "UnmarshalJSON_callback j c =
     (case c of
        HttpCallback h \<Rightarrow> apfst HttpCallback (HttpCallback_UnmarshalJSON j h)
      | HTTPCallback h \<Rightarrow> apfst HTTPCallback (HTTPCallback_UnmarshalJSON j h)
      | AirbusCallback h \<Rightarrow> apfst AirbusCallback (AirbusCallback_UnmarshalJSON j h))"

definition HttpCallback_GetType :: "http_callback \<Rightarrow> string" where
  "HttpCallback_GetType h = Type h"

definition HTTPCallback_GetType :: "old_http_callback \<Rightarrow> string" where
  "HTTPCallback_GetType h = ''HttpCallback''"

definition AirbusCallback_GetType :: "airbus_callback \<Rightarrow> string" where
  "AirbusCallback_GetType h = ''AirbusCallback''"

definition GetType :: "Callback \<Rightarrow> string" where
  "GetType c =
     (case c of HttpCallback h \<Rightarrow> HttpCallback_GetType h | HTTPCallback h \<Rightarrow> HTTPCallback_GetType h
      | AirbusCallback h \<Rightarrow> AirbusCallback_GetType h)"

definition HttpCallback_GetDetails :: "http_callback \<Rightarrow> string result" where
  "HttpCallback_GetDetails h = (print_json (show_details (Details h)), None)"

definition HTTPCallback_GetDetails :: "old_http_callback \<Rightarrow> string result" where
  "HTTPCallback_GetDetails h = (print_json (show_callback (HTTPCallback h)), None)"

definition AirbusCallback_GetDetails :: "airbus_callback \<Rightarrow> string result" where
  "AirbusCallback_GetDetails h = (print_json (show_callback (AirbusCallback h)), None)"

definition GetDetails :: "Callback \<Rightarrow> string result" where
  "GetDetails c =
     (case c of HttpCallback h \<Rightarrow> HttpCallback_GetDetails h | HTTPCallback h \<Rightarrow> HTTPCallback_GetDetails h
      | AirbusCallback h \<Rightarrow> AirbusCallback_GetDetails h)"

text \<open>\<^verbatim>\<open>Marshal\<close> fills a callback from a row, or returns an error.\<close>

definition HttpCallback_Marshal :: "row \<Rightarrow> http_callback \<Rightarrow> go_error + http_callback" where
  "HttpCallback_Marshal m h =
     (case map_of m ''callback_type'' of
        Some (VText callbackType) \<Rightarrow>
          (case map_of m ''callback_details'' of
             Some (VText callbackDetailsJSON) \<Rightarrow>
               (case parse_json callbackDetailsJSON of
                  None \<Rightarrow> Inl json_error
                | Some j \<Rightarrow>
                    (case read_details j zero_details of
                       (d, e) \<Rightarrow> if e then Inl json_error else Inr (h\<lparr>Type := callbackType, Details := d\<rparr>)))
           | _ \<Rightarrow> Inl (Err ''wrong type for callback_details''))
      | _ \<Rightarrow> Inl (Err ''wrong type for callback_type''))"

definition HTTPCallback_Marshal :: "row \<Rightarrow> old_http_callback \<Rightarrow> go_error + old_http_callback" where
  "HTTPCallback_Marshal m h =
     (case map_of m ''call_back_url'' of
        Some (VText callbackUrl) \<Rightarrow>
          (case map_of m ''headers'' of
             Some (VMap hs) \<Rightarrow> Inr (h\<lparr>old_Url := callbackUrl, old_Headers := Some hs\<rparr>)
           | _ \<Rightarrow> Inl (Err ''wrong headers''))
      | _ \<Rightarrow> Inl (Err ''wrong call_back_url''))"

definition AirbusCallback_Marshal :: "row \<Rightarrow> airbus_callback \<Rightarrow> go_error + airbus_callback" where
  "AirbusCallback_Marshal m h =
     (case map_of m ''call_back_url'' of
        Some (VText eventName) \<Rightarrow>
          (case map_of m ''headers'' of
             Some (VMap hs) \<Rightarrow> Inr (h\<lparr>EventName := eventName, airbus_Headers := Some hs\<rparr>)
           | _ \<Rightarrow> Inl (Err ''wrong headers''))
      | _ \<Rightarrow> Inl (Err ''wrong call_back_url''))"

definition Marshal :: "row \<Rightarrow> Callback \<Rightarrow> go_error + Callback" where
  "Marshal m c =
     (case c of
        HttpCallback h \<Rightarrow> map_sum id HttpCallback (HttpCallback_Marshal m h)
      | HTTPCallback h \<Rightarrow> map_sum id HTTPCallback (HTTPCallback_Marshal m h)
      | AirbusCallback h \<Rightarrow> map_sum id AirbusCallback (AirbusCallback_Marshal m h))"

definition validMethods :: "string list" where
  "validMethods = [''GET'', ''HEAD'', ''POST'', ''PUT'', ''PATCH'', ''DELETE'', ''CONNECT'', ''OPTIONS'', ''TRACE'']"

definition isValidRequestMethod :: "string \<Rightarrow> bool" where
  "isValidRequestMethod m \<longleftrightarrow> m \<in> set validMethods"

definition HttpCallback_Validate :: "http_callback \<Rightarrow> go_error option" where
  "HttpCallback_Validate h =
     (if Url (Details h) = [] then Some (Err ''url cannot be empty'')
      else if \<not> ParseRequestURI_ok (Url (Details h)) then Some (Err ''invalid url'')
      else if Method (Details h) = [] then Some (Err ''method cannot be empty'')
      else if \<not> isValidRequestMethod (Method (Details h))
      then Some (Err (''Invalid http callback method '' @ Method (Details h)))
      else None)"

definition HTTPCallback_Validate :: "old_http_callback \<Rightarrow> go_error option" where
  "HTTPCallback_Validate h =
     (if old_Url h = [] then Some (Err ''url cannot be empty'')
      else if \<not> ParseRequestURI_ok (old_Url h) then Some (Err ''invalid url'')
      else None)"

definition AirbusCallback_Validate :: "airbus_callback \<Rightarrow> go_error option" where
  "AirbusCallback_Validate h =
     (if EventName h = [] then Some (Err ''eventName cannot be empty'') else None)"

definition Validate :: "Callback \<Rightarrow> go_error option" where
  "Validate c =
     (case c of HttpCallback h \<Rightarrow> HttpCallback_Validate h | HTTPCallback h \<Rightarrow> HTTPCallback_Validate h
      | AirbusCallback h \<Rightarrow> AirbusCallback_Validate h)"

text \<open>The task queues (src/store/task.go); \<^verbatim>\<open>Invoke\<close> sends to the queue of the callback's type.\<close>

datatype queue = OldHttpTaskQueue | HttpTaskQueue | AirbusTaskQueue

type_synonym queues = "(queue \<times> ScheduleWrapper) list"

definition HttpCallback_Invoke :: "http_callback \<Rightarrow> ScheduleWrapper \<Rightarrow> queues \<Rightarrow> queues" where
  "HttpCallback_Invoke h w sent = sent @ [(HttpTaskQueue, w)]"

definition HTTPCallback_Invoke :: "old_http_callback \<Rightarrow> ScheduleWrapper \<Rightarrow> queues \<Rightarrow> queues" where
  "HTTPCallback_Invoke h w sent = sent @ [(OldHttpTaskQueue, w)]"

definition AirbusCallback_Invoke :: "airbus_callback \<Rightarrow> ScheduleWrapper \<Rightarrow> queues \<Rightarrow> queues" where
  "AirbusCallback_Invoke h w sent = sent @ [(AirbusTaskQueue, w)]"

definition Invoke :: "Callback \<Rightarrow> ScheduleWrapper \<Rightarrow> queues \<Rightarrow> queues" where
  "Invoke c =
     (case c of HttpCallback h \<Rightarrow> HttpCallback_Invoke h | HTTPCallback h \<Rightarrow> HTTPCallback_Invoke h
      | AirbusCallback h \<Rightarrow> AirbusCallback_Invoke h)"

text \<open>
  The registry maps a callback type to the zero value its factory makes.
  \<^verbatim>\<open>InitializeCallbackRegistry\<close> adds the client's factories, then the default where it is free.
\<close>

type_synonym registry = "(string \<times> Callback) list"

definition zero_http :: http_callback where
  "zero_http = \<lparr>Type = [], Details = zero_details\<rparr>"

definition InitializeCallbackRegistry :: "registry \<Rightarrow> registry \<Rightarrow> registry" where
  "InitializeCallbackRegistry reg client =
     (let r = fold (\<lambda>(k, f). put_assoc k f) client reg in
      if map_of r ''http'' = None then put_assoc ''http'' (HttpCallback zero_http) r else r)"

section \<open>Rows to schedules\<close>

definition createCallbackFromMap :: "registry \<Rightarrow> row \<Rightarrow> (go_error + Callback) go" where
  "createCallbackFromMap reg m =
     bind_go (as_string (map_of m ''callback_type'')) (\<lambda>t.
       case map_of reg t of
         None \<Rightarrow> Ret (Inl (Err ''wrong callback type''))
       | Some c \<Rightarrow> Ret (Marshal m c))"

definition convertCallbackToRaw :: "Schedule \<Rightarrow> go_error + string" where
  "convertCallbackToRaw s =
     (case Callback s of
        Some c \<Rightarrow> Inr (print_json (show_callback c))
      | None \<Rightarrow> Inl (Err ''nil callback object''))"

text \<open>The deprecated copies of the callback that two methods keep in a schedule.\<close>

definition set_deprecated :: "Callback option \<Rightarrow> Schedule \<Rightarrow> Schedule" where
  "set_deprecated c s =
     (case c of
        Some (HTTPCallback h) \<Rightarrow> s\<lparr>sch_HttpCallback := \<lparr>old_Url = old_Url h, old_Headers = old_Headers h\<rparr>\<rparr>
      | Some (AirbusCallback h) \<Rightarrow>
          s\<lparr>sch_AirbusCallback := \<lparr>EventName = EventName h, AppName = [], airbus_Headers = airbus_Headers h\<rparr>\<rparr>
      | _ \<Rightarrow> s)"

text \<open>The part of \<^verbatim>\<open>CreateScheduleFromCassandraMap\<close> after the callback.\<close>

definition set_times :: "row \<Rightarrow> Schedule \<Rightarrow> Schedule go" where
  "set_times m s =
     (case map_of m ''cron_expression'' of
        Some v \<Rightarrow> bind_go (as_string (Some v)) (\<lambda>e. Ret (s\<lparr>CronExpression := e\<rparr>))
      | None \<Rightarrow>
          bind_go (as_time (map_of m ''schedule_time_group'')) (\<lambda>g.
          bind_go (as_time (map_of m ''schedule_time'')) (\<lambda>t.
            Ret (s\<lparr>ScheduleGroup := Unix g, ScheduleTime := Unix t\<rparr>))))"

definition set_ids :: "row \<Rightarrow> Schedule \<Rightarrow> Schedule go" where
  "set_ids m s =
     bind_go (as_uuid (map_of m ''schedule_id'')) (\<lambda>u.
       case map_of m ''parent_schedule_id'' of
         None \<Rightarrow> Ret (s\<lparr>ScheduleId := u\<rparr>)
       | Some v \<Rightarrow> bind_go (as_uuid (Some v)) (\<lambda>p.
           Ret (if IsZeroUUID p then s\<lparr>ScheduleId := u\<rparr> else s\<lparr>ScheduleId := u, ParentScheduleId := p\<rparr>)))"

definition CreateScheduleFromCassandraMap :: "registry \<Rightarrow> row \<Rightarrow> Schedule \<Rightarrow> Schedule result go" where
  "CreateScheduleFromCassandraMap reg m s0 =
     (if length m = 0 then Ret (s0, None)
      else
        bind_go (as_string (map_of m ''app_id'')) (\<lambda>a.
        bind_go (as_int (map_of m ''partition_id'')) (\<lambda>p.
        let s1 = s0\<lparr>AppId := a, PartitionId := p\<rparr> in
        bind_go (createCallbackFromMap reg m) (\<lambda>cb.
        case cb of
          Inl err \<Rightarrow> Ret (s1, Some err)
        | Inr c \<Rightarrow>
            let s2 = set_deprecated (Some c) (s1\<lparr>Callback := Some c\<rparr>) in
            (case convertCallbackToRaw s2 of
               Inl err \<Rightarrow> Ret (s2, Some err)
             | Inr raw \<Rightarrow>
                 bind_go (as_string (map_of m ''payload'')) (\<lambda>pl.
                 bind_go (set_times m (s2\<lparr>CallbackRaw := raw, Payload := pl\<rparr>)) (\<lambda>s3.
                 bind_go (case map_of m ''status'' of
                            None \<Rightarrow> Ret s3
                          | Some v \<Rightarrow> bind_go (as_string (Some v)) (\<lambda>st. Ret (s3\<lparr>Status := st\<rparr>))) (\<lambda>s4.
                 bind_go (set_ids m s4) (\<lambda>s5. Ret (s5, None))))))))))"

section \<open>Operations on schedules\<close>

definition GetCallBackType :: "Schedule \<Rightarrow> string go" where
  "GetCallBackType s =
     (case Callback s of None \<Rightarrow> Panic ''nil pointer dereference'' | Some c \<Rightarrow> Ret (GetType c))"

definition GetCallbackDetails :: "Schedule \<Rightarrow> string go" where
  "GetCallbackDetails s =
     (case Callback s of None \<Rightarrow> Panic ''nil pointer dereference'' | Some c \<Rightarrow> Ret (fst (GetDetails c)))"

definition type_of_json :: "json \<Rightarrow> string \<times> bool" where
  "type_of_json j = read_struct [''type''] (\<lambda>f v t. read_string v t) j []"

text \<open>
  \<^verbatim>\<open>CreateCallbackFromRawMessage\<close>: by the type in the text, else the first factory that accepts it.
  Go visits the registry in an unspecified order, given here by the order of the list.
\<close>

definition try_callback :: "string \<Rightarrow> Callback \<Rightarrow> Callback option" where
  "try_callback raw c =
     (case parse_json raw of
        None \<Rightarrow> None
      | Some j \<Rightarrow> (case UnmarshalJSON_callback j c of (c', e) \<Rightarrow> if e then None else Some c'))"

definition CreateCallbackFromRawMessage :: "registry \<Rightarrow> string \<Rightarrow> go_error + Callback" where
  "CreateCallbackFromRawMessage reg raw =
     (let by_type = (case parse_json raw of
            None \<Rightarrow> None
          | Some j \<Rightarrow> (case type_of_json j of (t, e) \<Rightarrow>
              if e \<or> t = [] then None else Option.bind (map_of reg t) (try_callback raw)))
      in case by_type of
           Some c \<Rightarrow> Inr c
         | None \<Rightarrow>
             (case List.map_filter (\<lambda>(k, c). try_callback raw c) reg of
                c # _ \<Rightarrow> Inr c
              | [] \<Rightarrow> Inl (Err ''invalid callback format'')))"

definition IsRecurring :: "Schedule \<Rightarrow> bool" where
  "IsRecurring s \<longleftrightarrow> length (CronExpression s) > 0"

definition CloneAsOneTime :: "uuid \<Rightarrow> time \<Rightarrow> Schedule \<Rightarrow> Schedule" where
  "CloneAsOneTime fresh at s =
     set_deprecated (Callback s)
       (empty_schedule\<lparr>ScheduleId := fresh, ScheduleGroup := Unix at, ScheduleTime := Unix at,
          AppId := AppId s, Callback := Callback s, Payload := Payload s, ParentScheduleId := ScheduleId s\<rparr>)"

text \<open>
  \<^verbatim>\<open>CheckUntriggeredCallback\<close>. The code compares the seconds as floating point numbers; for flush
  periods up to years a difference of a nanosecond is still visible there, so the comparison is
  the exact one.
\<close>

definition CheckUntriggeredCallback :: "time \<Rightarrow> int64 \<Rightarrow> Schedule \<Rightarrow> bool" where
  "CheckUntriggeredCallback now flushPeriod s \<longleftrightarrow>
     from_Unix (ScheduleGroup s) < now \<and> now - from_Unix (ScheduleGroup s) > (60 + flushPeriod) * second"

definition GetTTL :: "time \<Rightarrow> App \<Rightarrow> int64 \<Rightarrow> Schedule \<Rightarrow> int64" where
  "GetTTL now app bufferTTL s =
     wrap64 (wrap64 (ScheduleTime s - Unix now) + GetBufferTTL app bufferTTL)"

definition show_history :: "reconciliation_history \<Rightarrow> json" where
  "show_history r =
     JObj (omit_string ''status'' (rh_Status r) @ omit_string ''errorMessage'' (rh_ErrorMessage r) @
           omit_string ''callbackOn'' (CallbackOn r))"

definition show_histories :: "reconciliation_history list option \<Rightarrow> json" where
  "show_histories rs = (case rs of None \<Rightarrow> JNull | Some l \<Rightarrow> JArr (map show_history l))"

definition put_history :: "string \<Rightarrow> json \<Rightarrow> reconciliation_history \<Rightarrow> reconciliation_history \<times> bool" where
  "put_history f v r =
     (if f = ''status'' then (case read_string v (rh_Status r) of (s, e) \<Rightarrow> (r\<lparr>rh_Status := s\<rparr>, e))
      else if f = ''errorMessage'' then (case read_string v (rh_ErrorMessage r) of (s, e) \<Rightarrow> (r\<lparr>rh_ErrorMessage := s\<rparr>, e))
      else (case read_string v (CallbackOn r) of (s, e) \<Rightarrow> (r\<lparr>CallbackOn := s\<rparr>, e)))"

definition zero_history :: reconciliation_history where
  "zero_history = \<lparr>rh_Status = [], rh_ErrorMessage = [], CallbackOn = []\<rparr>"

definition read_history :: "json \<Rightarrow> reconciliation_history \<times> bool" where
  "read_history j = read_struct [''status'', ''errorMessage'', ''callbackOn''] put_history j zero_history"

text \<open>Reading a list into a slice that was nil before.\<close>

definition read_histories :: "json \<Rightarrow> reconciliation_history list option \<times> bool" where
  "read_histories j =
     (case j of
        JNull \<Rightarrow> (None, False)
      | JArr js \<Rightarrow> (Some (map (\<lambda>j. fst (read_history j)) js), list_ex (\<lambda>j. snd (read_history j)) js)
      | _ \<Rightarrow> (None, True))"

definition SetStatus :: "row \<Rightarrow> Schedule \<Rightarrow> Schedule result go" where
  "SetStatus m s =
     (if length m = 0 then Ret (s, None)
      else
        bind_go (as_string (map_of m ''schedule_status'')) (\<lambda>st.
        bind_go (as_string (map_of m ''error_msg'')) (\<lambda>msg.
        bind_go (as_string (map_of m ''reconciliation_history'')) (\<lambda>h.
          let s1 = s\<lparr>Status := st, ErrorMessage := msg\<rparr> in
          if h = [] then Ret (s1\<lparr>ReconciliationHistory := Some []\<rparr>, None)
          else (case parse_json h of
                  None \<Rightarrow> Ret (s1, Some json_error)
                | Some j \<Rightarrow> (case read_histories j of (hs, e) \<Rightarrow>
                    Ret (s1\<lparr>ReconciliationHistory := hs\<rparr>, if e then Some json_error else None)))))))"

definition SetUnknownStatus :: "time \<Rightarrow> int64 \<Rightarrow> Schedule \<Rightarrow> Schedule" where
  "SetUnknownStatus now flushPeriod s =
     (if CheckUntriggeredCallback now flushPeriod s
      then s\<lparr>Status := Miss, ErrorMessage := ''Failed to make a callback''\<rparr>
      else s\<lparr>Status := Scheduled, ErrorMessage := []\<rparr>)"

definition UpdateReconciliationHistory :: "civil \<Rightarrow> status \<Rightarrow> string \<Rightarrow> Schedule \<Rightarrow> Schedule" where
  "UpdateReconciliationHistory now status errMsg s =
     (let hs = (case ReconciliationHistory s of None \<Rightarrow> [] | Some l \<Rightarrow> l) @
               [\<lparr>rh_Status = status, rh_ErrorMessage = errMsg, CallbackOn = format_time now\<rparr>];
          historyLength = length hs
      in if historyLength > maxHistorySize
         then s\<lparr>ReconciliationHistory := Some (drop (historyLength - maxHistorySize) hs)\<rparr>
         else s\<lparr>ReconciliationHistory := Some hs\<rparr>)"

text \<open>
  \<^verbatim>\<open>Schedule.UnmarshalJSON\<close>: the members of the request body, then the callback. The decoder of a
  UUID belongs to gocql (\<open>uuid_json\<close>). The raw text of the callback is kept up to white space and
  the choice of escapes.
\<close>

definition schedule_fields :: "string list" where
  "schedule_fields =
     [''scheduleId'', ''payload'', ''appId'', ''scheduleTime'', ''partitionId'', ''scheduleGroup'', ''callback'',
      ''cronExpression'', ''status'', ''errorMessage'', ''reconciliationHistory'', ''httpCallback'', ''airbusCallback'']"

text \<open>The auxiliary struct: the schedule, and pointers to the two deprecated callbacks.\<close>

type_synonym aux = "Schedule \<times> old_http_callback option \<times> airbus_callback option"

definition put_schedule :: "(json \<Rightarrow> uuid option) \<Rightarrow> string \<Rightarrow> json \<Rightarrow> aux \<Rightarrow> aux \<times> bool" where
  "put_schedule uuid_json f v x =
     (case x of (s, hc, ac) \<Rightarrow>
        let str = (\<lambda>old upd. case read_string v old of (w, e) \<Rightarrow> ((upd w, hc, ac), e));
            num = (\<lambda>old upd. case read_int v old of (w, e) \<Rightarrow> ((upd w, hc, ac), e))
        in
        if f = ''scheduleId'' then (case uuid_json v of Some u \<Rightarrow> ((s\<lparr>ScheduleId := u\<rparr>, hc, ac), False) | None \<Rightarrow> (x, True))
        else if f = ''payload'' then str (Payload s) (\<lambda>w. s\<lparr>Payload := w\<rparr>)
        else if f = ''appId'' then str (AppId s) (\<lambda>w. s\<lparr>AppId := w\<rparr>)
        else if f = ''scheduleTime'' then num (ScheduleTime s) (\<lambda>w. s\<lparr>ScheduleTime := w\<rparr>)
        else if f = ''partitionId'' then num (PartitionId s) (\<lambda>w. s\<lparr>PartitionId := w\<rparr>)
        else if f = ''scheduleGroup'' then num (ScheduleGroup s) (\<lambda>w. s\<lparr>ScheduleGroup := w\<rparr>)
        else if f = ''callback'' then ((s\<lparr>CallbackRaw := print_json v\<rparr>, hc, ac), False)
        else if f = ''cronExpression'' then str (CronExpression s) (\<lambda>w. s\<lparr>CronExpression := w\<rparr>)
        else if f = ''status'' then str (Status s) (\<lambda>w. s\<lparr>Status := w\<rparr>)
        else if f = ''errorMessage'' then str (ErrorMessage s) (\<lambda>w. s\<lparr>ErrorMessage := w\<rparr>)
        else if f = ''reconciliationHistory'' then
          (case read_histories v of (hs, e) \<Rightarrow> ((s\<lparr>ReconciliationHistory := hs\<rparr>, hc, ac), e))
        else if f = ''httpCallback'' then
          (if v = JNull then ((s, None, ac), False)
           else (case HTTPCallback_UnmarshalJSON v (case hc of Some h \<Rightarrow> h | None \<Rightarrow> zero_old_http) of
                   (h, e) \<Rightarrow> ((s, Some h, ac), e)))
        else
          (if v = JNull then ((s, hc, None), False)
           else (case AirbusCallback_UnmarshalJSON v (case ac of Some h \<Rightarrow> h | None \<Rightarrow> zero_airbus) of
                   (h, e) \<Rightarrow> ((s, hc, Some h), e))))"

definition unmarshal_callback :: "registry \<Rightarrow> Schedule \<Rightarrow> Schedule result" where
  "unmarshal_callback reg s =
     (case parse_json (CallbackRaw s) of
        None \<Rightarrow> (s, Some json_error)
      | Some j \<Rightarrow>
          (case type_of_json j of (t, e) \<Rightarrow>
             if e then (s, Some json_error)
             else (case map_of reg t of
                     None \<Rightarrow> (s, Some (Err (''unknown callback type: '' @ t)))
                   | Some c \<Rightarrow> (case UnmarshalJSON_callback j c of (c', e') \<Rightarrow>
                       if e' then (s, Some json_error) else (s\<lparr>Callback := Some c'\<rparr>, None)))))"

definition Schedule_UnmarshalJSON :: "(json \<Rightarrow> uuid option) \<Rightarrow> registry \<Rightarrow> string \<Rightarrow> Schedule \<Rightarrow> Schedule result" where
  "Schedule_UnmarshalJSON uuid_json reg data s0 =
     (case parse_json data of
        None \<Rightarrow> (s0, Some json_error)
      | Some j \<Rightarrow>
          (case read_struct schedule_fields (put_schedule uuid_json) j (s0, None, None) of ((s, hc, ac), e) \<Rightarrow>
             if e then (s, Some json_error)
             else if length (CallbackRaw s) > 0 then unmarshal_callback reg s
             else (s\<lparr>sch_HttpCallback := (case hc of Some h \<Rightarrow> h | None \<Rightarrow> sch_HttpCallback s),
                     sch_AirbusCallback := (case ac of Some h \<Rightarrow> h | None \<Rightarrow> sch_AirbusCallback s)\<rparr>, None)))"

section \<open>Validation\<close>

definition validateField :: "string \<Rightarrow> string \<Rightarrow> string" where
  "validateField fieldData field =
     (if length fieldData = 0 then ''Missing '' @ [CHR 0x27] @ field @ [CHR 0x27] @ '' parameter, cannot continue'' else [])"

definition validateScheduleTime :: "time \<Rightarrow> int64 \<Rightarrow> App \<Rightarrow> int64 \<Rightarrow> string" where
  "validateScheduleTime t scheduleTime app maxTTL =
     (let now = Unix t in
      if scheduleTime < now then
        ''schedule time : '' @ Itoa scheduleTime @ '' is less than current time: '' @ Itoa now @
        '' for app: '' @ app_AppId app @ ''. Time cannot be in past.''
      else if wrap64 (scheduleTime - now) > GetMaxTTL app maxTTL then
        ''schedule time : '' @ Itoa scheduleTime @ '' cannot be more than '' @ Itoa (GetMaxTTL app maxTTL sdiv 86400) @
        '' days from current time : '' @ Itoa now @ '' for app: '' @ app_AppId app
      else [])"

definition validatePayloadSize :: "string \<Rightarrow> App \<Rightarrow> int64 \<Rightarrow> string" where
  "validatePayloadSize payload app maxPayload =
     (let maxPayloadSize =
        (if PayloadSize (app_Configuration app) = 0 then maxPayload else PayloadSize (app_Configuration app)) in
      if int (length payload) > maxPayloadSize then
        ''PayloadSize for app: '' @ app_AppId app @ '' cannot be more than '' @ Itoa maxPayloadSize @
        '' bytes, given payloadSize bytes: '' @ Itoa (int (length payload))
      else [])"

definition validateCronExpression :: "string \<Rightarrow> string list go" where
  "validateCronExpression cronExpression = bind_go (Parse cronExpression) (\<lambda>(_, err). Ret err)"

definition validateCallback :: "Callback option \<Rightarrow> string go" where
  "validateCallback callback =
     (case callback of
        None \<Rightarrow> Panic ''nil pointer dereference''
      | Some c \<Rightarrow> Ret (case Validate c of Some err \<Rightarrow> Error err | None \<Rightarrow> []))"

definition ValidateSchedule :: "time \<Rightarrow> App \<Rightarrow> Configuration \<Rightarrow> Schedule \<Rightarrow> string list go" where
  "ValidateSchedule now app conf s =
     (let errs = filter (\<lambda>e. e \<noteq> [])
        [validateField (AppId s) ''appId'', validateField (Payload s) ''payload'',
         validatePayloadSize (Payload s) app (PayloadSize conf)] in
      bind_go (validateCallback (Callback s)) (\<lambda>e.
        let errs = errs @ (if e \<noteq> [] then [e] else []) in
        if length (CronExpression s) > 0 then
          bind_go (validateCronExpression (CronExpression s)) (\<lambda>er. Ret (errs @ er))
        else
          (let errStr = validateScheduleTime now (ScheduleTime s) app (FutureScheduleCreationPeriod conf)
           in Ret (errs @ (if errStr \<noteq> [] then [errStr] else [])))))"

section \<open>The partition of a schedule\<close>

text \<open>\<^verbatim>\<open>binary.BigEndian.Uint64\<close>: the first eight bytes; it panics on a shorter slice.\<close>

definition BigEndian_Uint64 :: "string \<Rightarrow> 64 word go" where
  "BigEndian_Uint64 b =
     (if length b < 8 then Panic ''index out of range''
      else Ret (foldl (\<lambda>acc c. push_bit 8 acc OR word_of_nat (of_char c)) 0 (take 8 b)))"

definition uuidToPartition :: "(uuid \<Rightarrow> string) \<Rightarrow> uuid \<Rightarrow> 32 word \<Rightarrow> 64 word go" where
  "uuidToPartition uuid_String uuid partitions =
     bind_go (BigEndian_Uint64 (uuid_String uuid)) (\<lambda>data.
       if partitions = 0 then Panic ''integer divide by zero''
       else Ret (data mod ucast partitions))"

definition SetFields :: "(uuid \<Rightarrow> string) \<Rightarrow> uuid \<Rightarrow> App \<Rightarrow> Schedule \<Rightarrow> Schedule go" where
  "SetFields uuid_String fresh app s =
     bind_go (uuidToPartition uuid_String fresh (Partitions app)) (\<lambda>p.
       Ret (s\<lparr>ScheduleId := fresh, PartitionId := sint p,
              ScheduleGroup := wrap64 (60 * (ScheduleTime s sdiv 60))\<rparr>))"

section \<open>Stored callbacks and histories can be read back\<close>

lemma read_struct_JObj: "read_struct names put (JObj kvs) x = read_members names put kvs (x, False)"
  by (simp add: read_struct_def)

lemma read_show_details:
  assumes "wf_headers (Headers d)"
  shows "read_details (show_details d) zero_details = (d, False)"
  using read_show_map [OF assms]
  by (simp add: read_details_def show_details_def read_struct_JObj resolve_def put_details_def
      read_string_def zero_details_def)

lemma wf_show_details [simp]: "wf_json (show_details d)"
  by (simp add: show_details_def)

lemma HttpCallback_Marshal_GetDetails:
  assumes "wf_headers (Headers (Details h))"
    and "map_of m ''callback_type'' = Some (VText (HttpCallback_GetType h))"
    and "map_of m ''callback_details'' = Some (VText (fst (HttpCallback_GetDetails h)))"
  shows "HttpCallback_Marshal m h0 = Inr h"
  using assms
  by (simp add: HttpCallback_Marshal_def HttpCallback_GetType_def HttpCallback_GetDetails_def
      parse_print_json read_show_details)

lemma read_show_history: "read_history (show_history r) = (r, False)"
  by (simp add: read_history_def show_history_def read_struct_JObj omit_string_def resolve_def put_history_def
      read_string_def zero_history_def)

lemma wf_show_history [simp]: "wf_json (show_history r)"
  by (auto simp: show_history_def omit_string_def)

lemma wf_show_histories [simp]: "wf_json (show_histories hs)"
  by (auto simp: show_histories_def split: option.splits)

lemma read_show_histories: "read_histories (show_histories hs) = (hs, False)"
  by (simp add: read_histories_def show_histories_def read_show_history list_ex_iff o_def split: option.splits)

text \<open>
  The status row that is written for a schedule gives back its status, error message and
  whole reconciliation history: the JSON text of the history is read back exactly.
\<close>

lemma SetStatus_written:
  "SetStatus
     [(''schedule_status'', VText st), (''error_msg'', VText msg),
      (''reconciliation_history'', VText (print_json (show_histories hs)))] s =
   Ret (s\<lparr>Status := st, ErrorMessage := msg, ReconciliationHistory := hs\<rparr>, None)"
proof -
  have "print_json (show_histories hs) \<noteq> []"
    using length_print_json [of "show_histories hs"] by simp
  then show ?thesis
    by (simp add: SetStatus_def as_string_def Let_def parse_print_json read_show_histories)
qed

text \<open>
  The reconciliation history keeps the five newest entries in their order: the new entry is
  last, nothing but the oldest entries is dropped.
\<close>

theorem UpdateReconciliationHistory_newest:
  "\<exists>kept.
     ReconciliationHistory (UpdateReconciliationHistory now st msg s) =
       Some (kept @ [\<lparr>rh_Status = st, rh_ErrorMessage = msg, CallbackOn = format_time now\<rparr>]) \<and>
     length kept = min 4 (length (case ReconciliationHistory s of None \<Rightarrow> [] | Some l \<Rightarrow> l)) \<and>
     (\<exists>dropped. (case ReconciliationHistory s of None \<Rightarrow> [] | Some l \<Rightarrow> l) = dropped @ kept)"
proof -
  define old where "old = (case ReconciliationHistory s of None \<Rightarrow> [] | Some l \<Rightarrow> l)"
  have "\<exists>dropped. old = dropped @ drop (length old - 4) old"
    by (rule exI [of _ "take (length old - 4) old"]) simp
  moreover have "ReconciliationHistory (UpdateReconciliationHistory now st msg s) =
      Some (drop (length old - 4) old @ [\<lparr>rh_Status = st, rh_ErrorMessage = msg, CallbackOn = format_time now\<rparr>])"
    by (simp add: UpdateReconciliationHistory_def old_def [symmetric] Let_def maxHistorySize_def)
  ultimately show ?thesis
    by (intro exI [of _ "drop (length old - 4) old"]) (simp add: old_def [symmetric])
qed

section \<open>Validation and time to live\<close>

lemma validateField_Nil: "validateField w f = [] \<longleftrightarrow> w \<noteq> []"
  by (simp add: validateField_def)

lemma validatePayloadSize_Nil:
  "validatePayloadSize p app mx = [] \<longleftrightarrow>
     int (length p) \<le> (if PayloadSize (app_Configuration app) = 0 then mx else PayloadSize (app_Configuration app))"
  by (simp add: validatePayloadSize_def Let_def)

lemma validateScheduleTime_Nil:
  assumes "in64 (t - Unix now)"
  shows "validateScheduleTime now t app mx = [] \<longleftrightarrow> Unix now \<le> t \<and> t - Unix now \<le> GetMaxTTL app mx"
  using assms by (simp add: validateScheduleTime_def Let_def)

lemma Error_Nil_Validate: "Validate c = Some err \<Longrightarrow> Error err \<noteq> []"
  by (auto simp: Validate_def HttpCallback_Validate_def HTTPCallback_Validate_def AirbusCallback_Validate_def
      split: Callback.splits if_splits)

lemma validateCallback_Nil:
  "validateCallback (Some c) = Ret e \<Longrightarrow> e = [] \<longleftrightarrow> Validate c = None"
  using Error_Nil_Validate by (auto simp: validateCallback_def split: option.splits)

text \<open>
  A one time schedule passes validation exactly when it names an app, has a payload within
  the size limit of the app (or the default limit), its callback is valid and its time lies
  between now and the end of the creation period of the app (or the default period).
\<close>

theorem ValidateSchedule_one_time:
  assumes "CronExpression s = []" and "Callback s = Some c" and "in64 (ScheduleTime s - Unix now)"
  shows "ValidateSchedule now app conf s = Ret [] \<longleftrightarrow>
    AppId s \<noteq> [] \<and> Payload s \<noteq> [] \<and>
    int (length (Payload s)) \<le>
      (if PayloadSize (app_Configuration app) = 0 then PayloadSize conf else PayloadSize (app_Configuration app)) \<and>
    Validate c = None \<and>
    Unix now \<le> ScheduleTime s \<and>
    ScheduleTime s - Unix now \<le> GetMaxTTL app (FutureScheduleCreationPeriod conf)"
proof -
  obtain e where e: "validateCallback (Some c) = Ret e" by (simp add: validateCallback_def)
  then have "ValidateSchedule now app conf s = Ret [] \<longleftrightarrow>
      validateField (AppId s) ''appId'' = [] \<and> validateField (Payload s) ''payload'' = [] \<and>
      validatePayloadSize (Payload s) app (PayloadSize conf) = [] \<and> e = [] \<and>
      validateScheduleTime now (ScheduleTime s) app (FutureScheduleCreationPeriod conf) = []"
    using assms by (simp add: ValidateSchedule_def Let_def)
  then show ?thesis
    unfolding validateField_Nil validatePayloadSize_Nil validateScheduleTime_Nil [OF assms(3)]
      validateCallback_Nil [OF e] by blast
qed

text \<open>An app, a configuration and a schedule for the concrete instances below and in later theories.\<close>

definition sample_conf :: Configuration where
  "sample_conf = \<lparr>FutureScheduleCreationPeriod = 7, FiredScheduleRetentionPeriod = 1, PayloadSize = 1024,
     HttpRetries = 1, HttpTimeout = 1000\<rparr>"

definition sample_app :: App where
  "sample_app = \<lparr>app_AppId = ''app'', Partitions = 5, Active = True, app_Configuration = empty_configuration\<rparr>"

definition sample_http :: http_callback where
  "sample_http = \<lparr>Type = ''http'', Details = \<lparr>Url = ''http://h/x'', Method = ''POST'', Headers = Some [(''A'', ''b'')]\<rparr>\<rparr>"

definition sample_uuid :: uuid where
  "sample_uuid = replicate 15 0 @ [7]"

definition sample_schedule :: Schedule where
  "sample_schedule = empty_schedule\<lparr>ScheduleId := sample_uuid, AppId := ''app'', Payload := ''p'',
     ScheduleTime := 1000, Callback := Some (HttpCallback sample_http)\<rparr>"

lemmas sample_defs = sample_conf_def sample_app_def sample_http_def sample_uuid_def sample_schedule_def
  empty_schedule_def empty_configuration_def

lemma sample_http_valid: "Validate (HttpCallback sample_http) = None"
  by code_simp

theorem ValidateSchedule_one_time_witness:
  "ValidateSchedule (900 * second) sample_app sample_conf sample_schedule = Ret []"
proof -
  have "in64 (ScheduleTime sample_schedule - Unix (900 * second))"
    by (simp add: sample_defs Unix_def second_def in64_def)
  from ValidateSchedule_one_time [OF _ _ this, of "HttpCallback sample_http" sample_app sample_conf]
  show ?thesis using sample_http_valid
    by (simp add: sample_defs Unix_def second_def GetMaxTTL_def in64_def)
qed

lemma GetBufferTTL_default:
  "FiredScheduleRetentionPeriod (app_Configuration app) = 0 \<Longrightarrow> GetBufferTTL app d = wrap64 (86400 * d)"
  by (simp add: GetBufferTTL_def)



text \<open>
  A request without a callback is not rejected: its validation panics on the nil callback,
  whatever the rest of the schedule is.
\<close>

theorem ValidateSchedule_nil_callback:
  "ValidateSchedule now app conf (s\<lparr>Callback := None\<rparr>) = Panic ''nil pointer dereference''"
  by (simp add: ValidateSchedule_def validateCallback_def)

section \<open>The partition and the time group of a schedule\<close>

lemma unat_mod_partition:
  fixes x :: "64 word" and p :: "32 word"
  assumes "p \<noteq> 0"
  shows "unat (x mod ucast p) < unat p"
proof -
  have "unat p < 2 ^ 64" using unsigned_less [of p, where ?'a = nat] by simp
  then have "unat (ucast p :: 64 word) = unat p" by (simp add: unsigned_ucast_eq take_bit_nat_eq_self)
  moreover have "0 < unat p" using assms by (simp add: unat_gt_0)
  ultimately show ?thesis by (simp add: unat_mod)
qed

lemma sint_small:
  fixes w :: "64 word"
  assumes "unat w < 2 ^ 32"
  shows "sint w = int (unat w)"
proof -
  from assms have "int (unat w) < int (2 ^ 32)" by (simp only: of_nat_less_iff)
  then have "uint w < 2 ^ 63" by simp
  moreover have "- (2 ^ 63) \<le> uint w" by (rule order_trans [OF _ unsigned_greater_eq]) simp
  ultimately have "sint w = uint w" by (simp add: sint_uint signed_take_bit_int_eq_self)
  then show ?thesis by simp
qed

text \<open>
  C10. The fields a schedule gets before it is stored: a partition among the partitions of its
  app, and a time group that is the start of the minute of its time. Nothing else but the
  identifier changes.
\<close>

theorem SetFields_partition_and_group:
  assumes "8 \<le> length (uuid_String fresh)" and "Partitions app \<noteq> 0"
    and "0 \<le> ScheduleTime s" and "ScheduleTime s < 2 ^ 62"
  shows "\<exists>p. SetFields uuid_String fresh app s =
      Ret (s\<lparr>ScheduleId := fresh, PartitionId := p, ScheduleGroup := 60 * (ScheduleTime s div 60)\<rparr>) \<and>
    0 \<le> p \<and> p < int (unat (Partitions app)) \<and>
    60 * (ScheduleTime s div 60) \<le> ScheduleTime s \<and> ScheduleTime s < 60 * (ScheduleTime s div 60) + 60"
proof -
  obtain d where d: "BigEndian_Uint64 (uuid_String fresh) = Ret d"
    using assms(1) by (simp add: BigEndian_Uint64_def)
  let ?w = "d mod ucast (Partitions app) :: 64 word"
  have w: "unat ?w < unat (Partitions app)" using assms(2) by (rule unat_mod_partition)
  moreover have "unat (Partitions app) < 2 ^ 32" using unsigned_less [of "Partitions app", where ?'a = nat] by simp
  ultimately have "sint ?w = int (unat ?w)" by (intro sint_small) simp
  moreover have "wrap64 (60 * (ScheduleTime s sdiv 60)) = 60 * (ScheduleTime s div 60)"
    using assms(3,4) div_mult_bounds(1) [of 60 "ScheduleTime s"] by (simp add: sdiv_pos in64_def)
  moreover from w have "int (unat ?w) < int (unat (Partitions app))" by (simp only: of_nat_less_iff)
  ultimately show ?thesis
    using assms d div_mult_bounds [of 60 "ScheduleTime s"]
    by (intro exI [of _ "int (unat ?w)"]) (simp add: SetFields_def uuidToPartition_def)
qed

theorem SetFields_partition_and_group_witness:
  "\<exists>p. SetFields (\<lambda>u. ''0123456789abcdef0123456789abcdef0123'') sample_uuid sample_app sample_schedule =
      Ret (sample_schedule\<lparr>ScheduleId := sample_uuid, PartitionId := p,
             ScheduleGroup := 60 * (ScheduleTime sample_schedule div 60)\<rparr>) \<and>
    0 \<le> p \<and> p < int (unat (Partitions sample_app)) \<and>
    60 * (ScheduleTime sample_schedule div 60) \<le> ScheduleTime sample_schedule \<and>
    ScheduleTime sample_schedule < 60 * (ScheduleTime sample_schedule div 60) + 60"
  by (rule SetFields_partition_and_group) (simp_all add: sample_defs)

end
