(* ===== verification/Cassandra.thy ===== *)
theory Cassandra
  imports Store
begin

text \<open>
  The database behind \<^verbatim>\<open>db_wrapper.SessionInterface\<close> (src/db_wrapper/db_wrapper.go). Cassandra and
  the driver gocql are not part of the sources, so a session is a parameter of everything that
  follows: a record of the calls the sources make. The CQL texts of the sources become syntax
  trees. What the sources rely on is stated as the locale \<open>cassandra\<close>: a call that reports no
  error acts on the tables as the CQL statement says. The primary keys are those of
  src/cassandra/cassandra.cql. The last section gives a session that keeps its tables in memory
  and satisfies the laws.
\<close>

section \<open>Statements\<close>

datatype cond = Eq string cql | In string "cql list"

text \<open>
  The time to live of an insert is in seconds. A write to a table names values for columns; an
  update names the row by equalities.
\<close>

datatype stmt =
    Insert string "(string \<times> cql) list" "int64 option"
  | Update string "(string \<times> cql) list" "(string \<times> cql) list"
  | DeleteFrom string "(string \<times> cql) list"

text \<open>Table, columns, conditions; the limit 1 belongs to the calls that read a single row.\<close>

datatype query = Select string "string list" "cond list"

type_synonym page_state = "8 word list"

text \<open>
  The calls of a session: \<^verbatim>\<open>Query(...).Exec()\<close>, \<^verbatim>\<open>ExecuteBatch\<close>, \<^verbatim>\<open>Query(...).MapScan\<close> or \<^verbatim>\<open>Scan\<close> for one
  row, the rows and the close error of an iterator that pages by itself, and of an iterator for
  one page (\<^verbatim>\<open>PageState(p).PageSize(n).Iter()\<close>, which switches automatic paging off) with the
  state of the next page, empty at the end. The cluster tables are addressed by texts into which
  names are spliced between quotes; a text that a quote in a name has broken is handed to the
  session as it is (\<open>ExecText\<close>, \<open>ScanText\<close>, \<open>IterText\<close>).
\<close>

record 'db session =
  Exec :: "stmt \<Rightarrow> 'db \<Rightarrow> go_error option \<times> 'db"
  ExecuteBatch :: "stmt list \<Rightarrow> 'db \<Rightarrow> go_error option \<times> 'db"
  MapScan :: "query \<Rightarrow> 'db \<Rightarrow> go_error + row"
  Iter :: "query \<Rightarrow> 'db \<Rightarrow> row list \<times> go_error option"
  IterPage :: "query \<Rightarrow> page_state \<Rightarrow> int64 \<Rightarrow> 'db \<Rightarrow> row list \<times> page_state \<times> go_error option"
  ExecText :: "string \<Rightarrow> 'db \<Rightarrow> go_error option \<times> 'db"
  ScanText :: "string \<Rightarrow> 'db \<Rightarrow> go_error + row"
  IterText :: "string \<Rightarrow> 'db \<Rightarrow> row list \<times> go_error option"

section \<open>What the statements mean\<close>

text \<open>The primary keys of the tables, and the base tables of the two materialized views.\<close>

definition primary_key :: "string \<Rightarrow> string list" where
  "primary_key t =
     (if t = ''schedules'' then [''app_id'', ''partition_id'', ''schedule_time_group'', ''schedule_id'']
      else if t = ''status'' then [''app_id'', ''partition_id'', ''schedule_id'']
      else if t = ''recurring_schedules_by_id'' then [''schedule_id'']
      else if t = ''recurring_schedules_by_partition'' then [''partition_id'', ''schedule_id'', ''app_id'']
      else if t = ''recurring_schedule_runs'' then [''parent_schedule_id'', ''schedule_time_group'']
      else [''id''])"

definition base_table :: "string \<Rightarrow> string" where
  "base_table t = (if t = ''view_schedules'' then ''schedules'' else if t = ''nodes'' then ''entity'' else t)"

text \<open>The value the driver delivers for a column without a value.\<close>

definition null_value :: "string \<Rightarrow> string \<Rightarrow> cql" where
  "null_value t c =
     (if c \<in> {''schedule_id'', ''parent_schedule_id''} then VUuid zero_uuid
      else if c \<in> {''schedule_time'', ''schedule_time_group''} then VTime (- 62135596800000)
      else if c \<in> {''partition_id'', ''partitions''} \<or> c = ''status'' \<and> base_table t = ''entity'' then VInt 0
      else if c = ''active'' then VBool False
      else VText [])"

text \<open>The contents of the tables: for a table and a primary key the values of the row's columns.\<close>

type_synonym table = "cql list \<rightharpoonup> (string \<rightharpoonup> cql)"
type_synonym tables = "string \<Rightarrow> table"

definition key_of :: "string \<Rightarrow> (string \<rightharpoonup> cql) \<Rightarrow> cql list" where
  "key_of t cols = map (\<lambda>c. case cols c of Some v \<Rightarrow> v | None \<Rightarrow> null_value t c) (primary_key t)"

definition upsert :: "string \<Rightarrow> (string \<times> cql) list \<Rightarrow> tables \<Rightarrow> tables" where
  "upsert t cols T =
     (let k = key_of t (map_of cols);
          old = (case T t k of Some r \<Rightarrow> r | None \<Rightarrow> (\<lambda>_. None))
      in T(t := (T t)(k \<mapsto> old ++ map_of cols)))"

definition eq_matches :: "(string \<times> cql) list \<Rightarrow> (string \<rightharpoonup> cql) \<Rightarrow> bool" where
  "eq_matches eqs r \<longleftrightarrow> list_all (\<lambda>(c, v). r c = Some v) eqs"

fun apply_stmt :: "stmt \<Rightarrow> tables \<Rightarrow> tables" where
  "apply_stmt (Insert t cols ttl) T = upsert t cols T"
| "apply_stmt (Update t sets eqs) T = upsert t (eqs @ sets) T"
| "apply_stmt (DeleteFrom t eqs) T =
     T(t := (\<lambda>k. case T t k of Some r \<Rightarrow> if eq_matches eqs r then None else Some r | None \<Rightarrow> None))"

definition apply_batch :: "stmt list \<Rightarrow> tables \<Rightarrow> tables" where
  "apply_batch = fold apply_stmt"

fun cond_holds :: "cond \<Rightarrow> (string \<rightharpoonup> cql) \<Rightarrow> bool" where
  "cond_holds (Eq c v) r \<longleftrightarrow> r c = Some v"
| "cond_holds (In c vs) r \<longleftrightarrow> (case r c of Some v \<Rightarrow> v \<in> set vs | None \<Rightarrow> False)"

definition project :: "string \<Rightarrow> string list \<Rightarrow> (string \<rightharpoonup> cql) \<Rightarrow> row" where
  "project t cols r = map (\<lambda>c. (c, case r c of Some v \<Rightarrow> v | None \<Rightarrow> null_value t c)) cols"

text \<open>A list of rows answers a query: the matching rows, each once, in some order.\<close>

definition answers :: "query \<Rightarrow> tables \<Rightarrow> row list \<Rightarrow> bool" where
  "answers q T rows \<longleftrightarrow>
     (case q of Select t cols conds \<Rightarrow>
        \<exists>rs. distinct (map fst rs) \<and> rows = map (\<lambda>kr. project t cols (snd kr)) rs \<and>
          set rs = {(k, r). T (base_table t) k = Some r \<and> list_all (\<lambda>c. cond_holds c r) conds})"

section \<open>What the sources rely on\<close>

text \<open>
  A call that reports no error has the meaning of its statement; a call that reports an error
  says nothing about the tables. The pages of a query, followed from the empty state, deliver
  an answer of the query piece by piece: \<open>rest\<close> is what a page state has still to deliver.
  A page has at most the requested number of rows, and the number of pages is finite.
\<close>

locale cassandra =
  fixes sess :: "'db session"
    and tables :: "'db \<Rightarrow> tables"
    and rest :: "query \<Rightarrow> 'db \<Rightarrow> page_state \<Rightarrow> row list"
    and pages_left :: "query \<Rightarrow> 'db \<Rightarrow> page_state \<Rightarrow> nat"
  assumes exec_ok: "Exec sess st db = (None, db') \<Longrightarrow> tables db' = apply_stmt st (tables db)"
    and batch_ok: "ExecuteBatch sess sts db = (None, db') \<Longrightarrow> tables db' = apply_batch sts (tables db)"
    and scan_row: "MapScan sess q db = Inr r \<Longrightarrow> \<exists>rows. answers q (tables db) rows \<and> r \<in> set rows"
    and scan_none: "MapScan sess q db = Inl ErrNotFound \<Longrightarrow> answers q (tables db) []"
    and iter_ok: "Iter sess q db = (rows, None) \<Longrightarrow> answers q (tables db) rows"
    and rest_start: "answers q (tables db) (rest q db [])"
    and page_ok: "IterPage sess q ps n db = (rows, next, None) \<Longrightarrow>
      rest q db ps = rows @ (if next = [] then [] else rest q db next)"
    and page_size: "IterPage sess q ps n db = (rows, next, e) \<Longrightarrow> 0 < n \<Longrightarrow> int (length rows) \<le> n"
    and page_progress: "IterPage sess q ps n db = (rows, next, None) \<Longrightarrow> next \<noteq> [] \<Longrightarrow>
      pages_left q db next < pages_left q db ps"

section \<open>Client lemmas\<close>

lemma project_lookup:
  "c \<in> set cols \<Longrightarrow> map_of (project t cols r) c = Some (case r c of Some v \<Rightarrow> v | None \<Rightarrow> null_value t c)"
  by (induction cols) (auto simp: project_def)

lemma answers_row:
  assumes "answers (Select t cols conds) T rows" and "x \<in> set rows"
  obtains k r where "x = project t cols r" "T (base_table t) k = Some r" "list_all (\<lambda>c. cond_holds c r) conds"
proof -
  from assms(1) obtain rs where rs: "rows = map (\<lambda>kr. project t cols (snd kr)) rs"
      "set rs = {(k, r). T (base_table t) k = Some r \<and> list_all (\<lambda>c. cond_holds c r) conds}"
    by (auto simp: answers_def)
  with assms(2) obtain k r where "(k, r) \<in> set rs" "x = project t cols r" by auto
  with rs(2) show thesis by (intro that [of r k]) auto
qed

lemma answers_complete:
  assumes "answers (Select t cols conds) T rows" and "T (base_table t) k = Some r"
    and "list_all (\<lambda>c. cond_holds c r) conds"
  shows "project t cols r \<in> set rows"
proof -
  from assms(1) obtain rs where rs: "rows = map (\<lambda>kr. project t cols (snd kr)) rs"
      "set rs = {(k, r). T (base_table t) k = Some r \<and> list_all (\<lambda>c. cond_holds c r) conds}"
    by (auto simp: answers_def)
  from assms(2,3) rs(2) have "(k, r) \<in> set rs" by blast
  then show ?thesis by (force simp: rs(1))
qed

lemma answers_set:
  assumes "answers (Select t cols conds) T rows"
  shows "x \<in> set rows \<longleftrightarrow>
    (\<exists>k r. T (base_table t) k = Some r \<and> list_all (\<lambda>c. cond_holds c r) conds \<and> x = project t cols r)"
  using answers_row [OF assms] answers_complete [OF assms] by metis

text \<open>The number of rows of an answer that have a property.\<close>

lemma answers_count:
  assumes "answers (Select t cols conds) T rows"
  shows "length (filter P rows) = card {k. \<exists>r. T (base_table t) k = Some r \<and> list_all (\<lambda>c. cond_holds c r) conds \<and>
    P (project t cols r)}"
proof -
  from assms obtain rs where rs: "distinct (map fst rs)" "rows = map (\<lambda>kr. project t cols (snd kr)) rs"
      "set rs = {(k, r). T (base_table t) k = Some r \<and> list_all (\<lambda>c. cond_holds c r) conds}"
    by (auto simp: answers_def)
  let ?rs = "filter (\<lambda>kr. P (project t cols (snd kr))) rs"
  have "length (filter P rows) = length (map fst ?rs)" by (simp add: rs(2) filter_map o_def)
  also have "\<dots> = card (set (map fst ?rs))"
    using rs(1) by (intro distinct_card [symmetric] distinct_map_filter)
  also have "set (map fst ?rs) = {k. \<exists>r. T (base_table t) k = Some r \<and> list_all (\<lambda>c. cond_holds c r) conds \<and>
      P (project t cols r)}"
    using rs(3) by force
  finally show ?thesis .
qed

lemma upsert_same:
  "upsert t cols T t (key_of t (map_of cols)) =
     Some ((case T t (key_of t (map_of cols)) of Some r \<Rightarrow> r | None \<Rightarrow> (\<lambda>_. None)) ++ map_of cols)"
  by (simp add: upsert_def Let_def)

lemma upsert_other: "t' \<noteq> t \<or> k \<noteq> key_of t (map_of cols) \<Longrightarrow> upsert t cols T t' k = T t' k"
  by (auto simp: upsert_def Let_def)

lemma upsert_frame: "t' \<noteq> t \<Longrightarrow> upsert t cols T t' = T t'"
  by (rule ext) (simp add: upsert_other)

lemma upsert_has_columns:
  assumes "distinct (map fst cols)"
  obtains r where "upsert t cols T t (key_of t (map_of cols)) = Some r" "\<forall>(c, v) \<in> set cols. r c = Some v"
proof
  show "upsert t cols T t (key_of t (map_of cols)) =
      Some ((case T t (key_of t (map_of cols)) of Some r \<Rightarrow> r | None \<Rightarrow> (\<lambda>_. None)) ++ map_of cols)"
    by (rule upsert_same)
qed (use assms in \<open>auto simp: map_add_Some_iff\<close>)

context cassandra
begin

text \<open>A query that one row answers: the row, or an error that is not \<open>ErrNotFound\<close>.\<close>

lemma scan_unique:
  assumes "tables db (base_table t) k = Some r" and "list_all (\<lambda>c. cond_holds c r) conds"
    and "\<And>k' r'. tables db (base_table t) k' = Some r' \<Longrightarrow> list_all (\<lambda>c. cond_holds c r') conds \<Longrightarrow> k' = k"
  shows "MapScan sess (Select t cols conds) db = Inr (project t cols r) \<or>
    (\<exists>e. MapScan sess (Select t cols conds) db = Inl e \<and> e \<noteq> ErrNotFound)"
proof (cases "MapScan sess (Select t cols conds) db")
  case (Inl e)
  have "\<not> answers (Select t cols conds) (tables db) []"
    using answers_complete [of t cols conds "tables db" "[]" k r] assms(1,2) by auto
  with Inl show ?thesis using scan_none by blast
next
  case (Inr m)
  then obtain rows where rows: "answers (Select t cols conds) (tables db) rows" "m \<in> set rows"
    using scan_row by blast
  then obtain k' r' where r': "m = project t cols r'" "tables db (base_table t) k' = Some r'"
      "list_all (\<lambda>c. cond_holds c r') conds"
    by (rule answers_row)
  with assms(3) [OF r'(2,3)] assms(1) Inr show ?thesis by auto
qed

end

section \<open>A session in memory\<close>

text \<open>A table is an association list from primary keys to columns; a page state is an offset.\<close>

type_synonym mem = "string \<Rightarrow> (cql list \<times> (string \<times> cql) list) list"

definition mem_tables :: "mem \<Rightarrow> tables" where
  "mem_tables db t k = map_option map_of (map_of (db t) k)"

definition mem_upsert :: "string \<Rightarrow> (string \<times> cql) list \<Rightarrow> mem \<Rightarrow> mem" where
  "mem_upsert t cols db =
     (let k = key_of t (map_of cols);
          old = (case map_of (db t) k of Some r \<Rightarrow> r | None \<Rightarrow> [])
      in db(t := put_assoc k (cols @ old) (db t)))"

definition mem_lookup :: "mem \<Rightarrow> string \<Rightarrow> cql list \<Rightarrow> (string \<times> cql) list" where
  "mem_lookup db t k = (case map_of (db t) k of Some r \<Rightarrow> r | None \<Rightarrow> [])"

fun mem_apply :: "stmt \<Rightarrow> mem \<Rightarrow> mem" where
  "mem_apply (Insert t cols ttl) db = mem_upsert t cols db"
| "mem_apply (Update t sets eqs) db = mem_upsert t (eqs @ sets) db"
| "mem_apply (DeleteFrom t eqs) db =
     db(t := filter (\<lambda>(k, _). \<not> eq_matches eqs (map_of (mem_lookup db t k))) (db t))"

fun mem_select :: "query \<Rightarrow> mem \<Rightarrow> row list" where
  "mem_select (Select t cols conds) db =
     (let b = base_table t in
      map (\<lambda>k. project t cols (map_of (mem_lookup db b k)))
        (filter (\<lambda>k. list_all (\<lambda>c. cond_holds c (map_of (mem_lookup db b k))) conds)
          (remdups (map fst (db b)))))"

definition mem_page :: "query \<Rightarrow> page_state \<Rightarrow> int64 \<Rightarrow> mem \<Rightarrow> row list \<times> page_state \<times> go_error option" where
  "mem_page q ps n db =
     (let left = drop (length ps) (mem_select q db) in
      if n \<le> 0 \<or> int (length left) \<le> n then (left, [], None)
      else (take (nat n) left, replicate (length ps + nat n) 0, None))"

definition mem_session :: "mem session" where
  "mem_session =
     \<lparr>Exec = (\<lambda>st db. (None, mem_apply st db)),
      ExecuteBatch = (\<lambda>sts db. (None, fold mem_apply sts db)),
      MapScan = (\<lambda>q db. case mem_select q db of [] \<Rightarrow> Inl ErrNotFound | r # _ \<Rightarrow> Inr r),
      Iter = (\<lambda>q db. (mem_select q db, None)),
      IterPage = mem_page,
      ExecText = (\<lambda>txt db. (Some (Err ''syntax error''), db)),
      ScanText = (\<lambda>txt db. Inl (Err ''syntax error'')),
      IterText = (\<lambda>txt db. ([], Some (Err ''syntax error'')))\<rparr>"

lemma map_of_filter_key: "map_of (filter (\<lambda>(k, _). P k) xs) k = (if P k then map_of xs k else None)"
  by (induction xs) auto

lemma mem_tables_upsert: "mem_tables (mem_upsert t cols db) = upsert t cols (mem_tables db)"
  by (rule ext, rule ext)
     (auto simp: mem_tables_def mem_upsert_def upsert_def Let_def split: option.splits)

lemma mem_tables_apply: "mem_tables (mem_apply st db) = apply_stmt st (mem_tables db)"
proof (cases st)
  case (DeleteFrom t eqs)
  have "mem_tables (mem_apply st db) t' k = apply_stmt st (mem_tables db) t' k" for t' k
    by (auto simp: DeleteFrom mem_tables_def mem_lookup_def map_of_filter_key split: option.splits)
  then show ?thesis by blast
qed (simp_all add: mem_tables_upsert)

lemma mem_tables_batch: "mem_tables (fold mem_apply sts db) = apply_batch sts (mem_tables db)"
  by (induction sts arbitrary: db) (simp_all add: apply_batch_def mem_tables_apply)

lemma mem_select_answers: "answers q (mem_tables db) (mem_select q db)"
proof (cases q)
  case (Select t cols conds)
  let ?b = "base_table t"
  let ?row = "\<lambda>k. map_of (mem_lookup db ?b k)"
  let ?ks = "filter (\<lambda>k. list_all (\<lambda>c. cond_holds c (?row k)) conds) (remdups (map fst (db ?b)))"
  let ?rs = "map (\<lambda>k. (k, ?row k)) ?ks"
  have "distinct (map fst ?rs)" by (simp add: o_def)
  moreover have "mem_select q db = map (\<lambda>kr. project t cols (snd kr)) ?rs"
    by (simp add: Select Let_def)
  moreover have "set ?rs = {(k, r). mem_tables db ?b k = Some r \<and> list_all (\<lambda>c. cond_holds c r) conds}"
    by (force simp: mem_tables_def mem_lookup_def image_iff dest: map_of_SomeD
        split: option.splits simp: map_of_eq_None_iff)
  ultimately show ?thesis unfolding answers_def Select query.case by blast
qed

lemma mem_select_empty: "mem_select q db = [] \<Longrightarrow> answers q (mem_tables db) []"
  using mem_select_answers [of q db] by simp

definition mem_rest :: "query \<Rightarrow> mem \<Rightarrow> page_state \<Rightarrow> row list" where
  "mem_rest q db ps = drop (length ps) (mem_select q db)"

interpretation mem: cassandra mem_session mem_tables mem_rest "\<lambda>q db ps. length (mem_rest q db ps)"
proof unfold_locales
  fix q :: query and ps n db rows next' e
  show "0 < n \<Longrightarrow> IterPage mem_session q ps n db = (rows, next', e) \<Longrightarrow> int (length rows) \<le> n"
    by (auto simp: mem_session_def mem_page_def Let_def split: if_splits)
  assume "IterPage mem_session q ps n db = (rows, next', None)"
  then have page: "mem_page q ps n db = (rows, next', None)" by (simp add: mem_session_def)
  then show "mem_rest q db ps = rows @ (if next' = [] then [] else mem_rest q db next')"
    by (auto simp: mem_page_def mem_rest_def Let_def drop_drop [symmetric] add.commute
        simp del: drop_drop split: if_splits)
  show "next' \<noteq> [] \<Longrightarrow> length (mem_rest q db next') < length (mem_rest q db ps)"
    using page by (auto simp: mem_page_def mem_rest_def Let_def split: if_splits)
qed (auto simp: mem_session_def mem_tables_apply mem_tables_batch mem_select_answers mem_rest_def
      split: list.splits intro: mem_select_answers mem_select_empty exI [of _ "mem_select _ _"])

end
