(* ===== verification/Environment.thy ===== *)
theory Environment
  imports Cassandra
begin

text \<open>
  What the components share: the configuration values they read (src/conf/config.go), the
  environment a node runs in, and the sequencing of operations that change state and may panic.
\<close>

section \<open>Configuration and environment\<close>

record conf =
  AppLevelConfiguration :: Configuration
  FlushPeriod :: int64
  AggregateBatchSize :: int64
  MaxQueryLimit :: int64
  CronApp :: string
  CronWindow :: int64
  DefaultCount :: "32 word"
  Address :: string
  EntityHistorySize :: int64
  DCPrefix :: string
  ScheduleDBPageSize :: int64

definition defaultConfig :: conf where
  "defaultConfig =
     \<lparr>AppLevelConfiguration = \<lparr>FutureScheduleCreationPeriod = 7, FiredScheduleRetentionPeriod = 1,
        PayloadSize = 1024, HttpRetries = 1, HttpTimeout = 1000\<rparr>,
      FlushPeriod = 60, AggregateBatchSize = 10, MaxQueryLimit = 4, CronApp = ''Athena'', CronWindow = 5,
      DefaultCount = 5, Address = ''127.0.0.1:9091'', EntityHistorySize = 5, DCPrefix = [],
      ScheduleDBPageSize = 1000\<rparr>"

text \<open>
  The session, the configuration and the registry of callbacks; and what comes from outside: the
  clock, the time zone, and gocql's UUIDs with their text and JSON forms. The clock does not move during
  one operation; \<open>env_Fresh n\<close> is the UUID generated by the n-th call of \<^verbatim>\<open>gocql.TimeUUID\<close>.
\<close>

record 'db env =
  env_Session :: "'db session"
  env_Conf :: conf
  env_Registry :: registry
  env_Now :: time
  env_Civil :: "time \<Rightarrow> civil"
  env_String :: "uuid \<Rightarrow> string"
  env_Fresh :: "nat \<Rightarrow> uuid"

definition sample_env :: "mem env" where
  "sample_env =
     \<lparr>env_Session = mem_session, env_Conf = defaultConfig, env_Registry = [(''http'', HttpCallback zero_http)],
      env_Now = 900 * second,
      env_Civil = (\<lambda>t. \<lparr>tYear = 1970, tSecond = t div second mod 60, tMinute = t div minute_ns mod 60,
                        tHour = t div hour_ns mod 24, tDay = 1, tMonth = 1, tWeekday = 4\<rparr>),
      env_String = (\<lambda>u. concat (map (\<lambda>b. pad 3 (uint b)) u)),
      env_Fresh = (\<lambda>n. replicate 15 0 @ [word_of_nat n])\<rparr>"

definition empty_mem :: mem where
  "empty_mem = (\<lambda>t. [])"

section \<open>Operations with state\<close>

text \<open>An operation that changes a state; the state reached is known even when it panics.\<close>

type_synonym ('s, 'a) io = "'s \<Rightarrow> 'a go \<times> 's"

definition ret :: "'a \<Rightarrow> ('s, 'a) io" where
  "ret x s = (Ret x, s)"

definition bnd :: "('s, 'a) io \<Rightarrow> ('a \<Rightarrow> ('s, 'b) io) \<Rightarrow> ('s, 'b) io" where
  "bnd m f s =
     (case m s of
        (Ret x, s') \<Rightarrow> f x s'
      | (Panic e, s') \<Rightarrow> (Panic e, s')
      | (Diverge, s') \<Rightarrow> (Diverge, s'))"

text \<open>
  \<^verbatim>\<open>glog.Fatal\<close> ends the process. It is the panic with the text \<open>exit_text\<close>, which no recover catches.
\<close>

definition exit_text :: string where
  "exit_text = ''exit status 255''"

definition Fatal :: "'a go" where
  "Fatal = Panic exit_text"

text \<open>\<^verbatim>\<open>defer recover()\<close>: a panic is turned into a returned value.\<close>

definition recovering :: "'a \<Rightarrow> ('s, 'a) io \<Rightarrow> ('s, 'a) io" where
  "recovering x m s = (case m s of (Panic e, s') \<Rightarrow> if e = exit_text then (Fatal, s') else (Ret x, s') | r \<Rightarrow> r)"

definition lift_go :: "'a go \<Rightarrow> ('s, 'a) io" where
  "lift_go g s = (g, s)"

lemma bnd_ret [simp]: "bnd (ret x) f = f x"
  by (simp add: bnd_def ret_def fun_eq_iff)

lemma bnd_lift_Ret [simp]: "bnd (lift_go (Ret x)) f = f x"
  by (simp add: bnd_def lift_go_def fun_eq_iff)

lemma bnd_assoc [go_simps]: "bnd (bnd m f) g = bnd m (\<lambda>x. bnd (f x) g)"
  by (auto simp: bnd_def fun_eq_iff split: go.splits prod.splits)

lemma recovering_no_panic: "e \<noteq> exit_text \<Longrightarrow> fst (recovering x m s) \<noteq> Panic e"
  by (auto simp: recovering_def Fatal_def split: go.splits prod.splits)

lemma recovering_Ret [simp]: "m s = (Ret y, s') \<Longrightarrow> recovering x m s = (Ret y, s')"
  by (simp add: recovering_def)

lemma bnd_eq_Ret: "bnd m f s = (Ret y, s') \<longleftrightarrow> (\<exists>x s1. m s = (Ret x, s1) \<and> f x s1 = (Ret y, s'))"
  by (auto simp: bnd_def split: go.splits prod.splits)

end
