(* ===== verification/ClusterDao.thy ===== *)
theory ClusterDao
  imports Environment
begin

text \<open>
  The cluster data access object (src/dao/cluster_dao_impl.go) and the entities of the cluster
  (src/cluster_entity/entity_info.go). Its state is the database and the cache of apps in memory;
  the lock of the cache is left out, since every access is a single map operation under it.
  \<^verbatim>\<open>glog.Fatal\<close> ends the process.
\<close>

section \<open>Entities\<close>

record EntityInfo =
  ei_Id :: string
  ei_Node :: string
  ei_Status :: int64
  History :: string

definition empty_entity :: EntityInfo where
  "empty_entity = \<lparr>ei_Id = [], ei_Node = [], ei_Status = 0, History = []\<rparr>"

text \<open>The app is what comes before the last dot, the partition the number after it.\<close>

definition GetAppName :: "EntityInfo \<Rightarrow> string go" where
  "GetAppName entity =
     (let i = last_index CHR ''.'' (ei_Id entity) in
      if i < 0 then Panic ''slice bounds out of range'' else Ret (take (nat i) (ei_Id entity)))"

definition GetPartitionId :: "EntityInfo \<Rightarrow> int64" where
  "GetPartitionId entity =
     fst (ParseInt (drop (nat (last_index CHR ''.'' (ei_Id entity) + 1)) (ei_Id entity)))"

definition entity_id :: "string \<Rightarrow> nat \<Rightarrow> string" where
  "entity_id app p = app @ ''.'' @ Itoa (int p)"

section \<open>Configurations as JSON\<close>

definition show_configuration :: "Configuration \<Rightarrow> json" where
  "show_configuration c =
     JObj (omit_int ''futureScheduleCreationPeriod'' (FutureScheduleCreationPeriod c) @
           omit_int ''firedScheduleRetentionPeriod'' (FiredScheduleRetentionPeriod c) @
           omit_int ''payloadSize'' (PayloadSize c) @
           omit_int ''httpRetries'' (HttpRetries c) @
           omit_int ''httpTimeout'' (HttpTimeout c))"

definition put_configuration :: "string \<Rightarrow> json \<Rightarrow> Configuration \<Rightarrow> Configuration \<times> bool" where
  "put_configuration f v c =
     (if f = ''futureScheduleCreationPeriod''
      then (case read_int v (FutureScheduleCreationPeriod c) of (i, e) \<Rightarrow> (c\<lparr>FutureScheduleCreationPeriod := i\<rparr>, e))
      else if f = ''firedScheduleRetentionPeriod''
      then (case read_int v (FiredScheduleRetentionPeriod c) of (i, e) \<Rightarrow> (c\<lparr>FiredScheduleRetentionPeriod := i\<rparr>, e))
      else if f = ''payloadSize'' then (case read_int v (PayloadSize c) of (i, e) \<Rightarrow> (c\<lparr>PayloadSize := i\<rparr>, e))
      else if f = ''httpRetries'' then (case read_int v (HttpRetries c) of (i, e) \<Rightarrow> (c\<lparr>HttpRetries := i\<rparr>, e))
      else (case read_int v (HttpTimeout c) of (i, e) \<Rightarrow> (c\<lparr>HttpTimeout := i\<rparr>, e)))"

definition read_configuration :: "json \<Rightarrow> Configuration \<times> bool" where
  "read_configuration j =
     read_struct [''futureScheduleCreationPeriod'', ''firedScheduleRetentionPeriod'', ''payloadSize'', ''httpRetries'',
                  ''httpTimeout''] put_configuration j empty_configuration"

text \<open>\<^verbatim>\<open>json.Unmarshal\<close> of a configuration text: what was read and whether there was an error.\<close>

definition unmarshal_configuration :: "string \<Rightarrow> Configuration \<times> bool" where
  "unmarshal_configuration s =
     (case parse_json s of None \<Rightarrow> (empty_configuration, True) | Some j \<Rightarrow> read_configuration j)"

section \<open>Statements with spliced names\<close>

definition plain :: "string \<Rightarrow> bool" where
  "plain s \<longleftrightarrow> CHR 0x27 \<notin> set s"

definition quoted :: "string \<Rightarrow> string" where
  "quoted s = [CHR 0x27] @ s @ [CHR 0x27]"

definition exec_spliced :: "'db env \<Rightarrow> string list \<Rightarrow> string \<Rightarrow> stmt \<Rightarrow> 'db \<Rightarrow> go_error option \<times> 'db" where
  "exec_spliced E names txt st db =
     (if list_all plain names then Exec (env_Session E) st db else ExecText (env_Session E) txt db)"

definition scan_spliced :: "'db env \<Rightarrow> string list \<Rightarrow> string \<Rightarrow> query \<Rightarrow> 'db \<Rightarrow> go_error + row" where
  "scan_spliced E names txt q db =
     (if list_all plain names then MapScan (env_Session E) q db else ScanText (env_Session E) txt db)"

definition iter_spliced :: "'db env \<Rightarrow> string list \<Rightarrow> string \<Rightarrow> query \<Rightarrow> 'db \<Rightarrow> row list \<times> go_error option" where
  "iter_spliced E names txt q db =
     (if list_all plain names then Iter (env_Session E) q db else IterText (env_Session E) txt db)"

text \<open>\<^verbatim>\<open>Scan\<close> into variables: a column of another type does not occur, a missing one is zero.\<close>

definition text_of :: "row \<Rightarrow> string \<Rightarrow> string" where
  "text_of m c = (case map_of m c of Some (VText s) \<Rightarrow> s | _ \<Rightarrow> [])"

definition int_of :: "row \<Rightarrow> string \<Rightarrow> int64" where
  "int_of m c = (case map_of m c of Some (VInt i) \<Rightarrow> i | _ \<Rightarrow> 0)"

definition bool_of :: "row \<Rightarrow> string \<Rightarrow> bool" where
  "bool_of m c = (case map_of m c of Some (VBool b) \<Rightarrow> b | _ \<Rightarrow> False)"

section \<open>State\<close>

record 'db cluster =
  cl_DB :: 'db
  AppMap :: "(string \<times> App) list"

definition check :: "string \<Rightarrow> 'db cluster \<Rightarrow> App option" where
  "check appName c = map_of (AppMap c) appName"

definition cache :: "App \<Rightarrow> 'db cluster \<Rightarrow> 'db cluster" where
  "cache app c = c\<lparr>AppMap := put_assoc (app_AppId app) app (AppMap c)\<rparr>"

definition InvalidateSingleAppCache :: "string \<Rightarrow> 'db cluster \<Rightarrow> 'db cluster" where
  "InvalidateSingleAppCache appName c =
     (if map_of (AppMap c) appName \<noteq> None then c\<lparr>AppMap := filter (\<lambda>(k, _). k \<noteq> appName) (AppMap c)\<rparr> else c)"

section \<open>Apps\<close>

definition app_select :: "string list" where
  "app_select = [''id'', ''partitions'', ''active'', ''configuration'']"

definition app_of_row :: "row \<Rightarrow> Configuration \<Rightarrow> App" where
  "app_of_row m configuration =
     \<lparr>app_AppId = text_of m ''id'', Partitions = word_of_int (int_of m ''partitions''), Active = bool_of m ''active'',
      app_Configuration = configuration\<rparr>"

definition getApp :: "'db env \<Rightarrow> string \<Rightarrow> 'db cluster \<Rightarrow> App result \<times> 'db cluster" where
  "getApp E appName c =
     (case scan_spliced E [appName] (''SELECT id, partitions, active, configuration FROM apps WHERE id='' @ quoted appName @ '';'')
             (Select ''apps'' app_select [Eq ''id'' (VText appName)]) (cl_DB c)
      of
        Inl err \<Rightarrow> ((empty_app, Some err), c)
      | Inr m \<Rightarrow>
          (case unmarshal_configuration (text_of m ''configuration'') of (configuration, e) \<Rightarrow>
             let app = app_of_row m (if e then empty_configuration else configuration)
             in ((app, None), cache app c)))"

definition GetApp :: "'db env \<Rightarrow> string \<Rightarrow> 'db cluster \<Rightarrow> App result \<times> 'db cluster" where
  "GetApp E appName c =
     (case check appName c of Some app \<Rightarrow> ((app, None), c) | None \<Rightarrow> getApp E appName c)"

definition MaxConfigApp :: string where "MaxConfigApp = ''maxConfig''"

definition too_large :: "string \<Rightarrow> string \<Rightarrow> int64 \<Rightarrow> int64 \<Rightarrow> go_error" where
  "too_large provided limit i m = Err (''provided '' @ provided @ '': '' @ Itoa i @ '', max '' @ limit @ '': '' @ Itoa m)"

definition ValidateConfigurations :: "'db env \<Rightarrow> Configuration \<Rightarrow> 'db cluster \<Rightarrow> go_error option \<times> 'db cluster" where
  "ValidateConfigurations E config c =
     (if config = empty_configuration then (None, c)
      else
        (case GetApp E MaxConfigApp c of ((app, err), c') \<Rightarrow>
           (if err \<noteq> None then err
            else
              (let m = app_Configuration app in
               if PayloadSize config > PayloadSize m
               then Some (too_large ''payload size'' ''payload size'' (PayloadSize config) (PayloadSize m))
               else if HttpRetries config > HttpRetries m
               then Some (too_large ''http retries'' ''http retries'' (HttpRetries config) (HttpRetries m))
               else if HttpTimeout config > HttpTimeout m
               then Some (too_large ''http timeout'' ''http timeout'' (HttpTimeout config) (HttpTimeout m))
               else if FiredScheduleRetentionPeriod config > FiredScheduleRetentionPeriod m
               then Some (too_large ''fired schedule retention period'' ''fired schedule retention period''
                      (FiredScheduleRetentionPeriod config) (FiredScheduleRetentionPeriod m))
               else if FutureScheduleCreationPeriod config > FutureScheduleCreationPeriod m
               then Some (too_large ''schedule retention period'' ''future schedule creation period''
                      (FutureScheduleCreationPeriod config) (FutureScheduleCreationPeriod m))
               else None), c')))"

definition validated :: "'db env \<Rightarrow> string \<Rightarrow> Configuration \<Rightarrow> 'db cluster \<Rightarrow> go_error option \<times> 'db cluster" where
  "validated E appId configuration c =
     (if appId \<noteq> MaxConfigApp then ValidateConfigurations E configuration c else (None, c))"

definition config_text :: "Configuration \<Rightarrow> string" where
  "config_text configuration = print_json (show_configuration configuration)"

definition InsertApp :: "'db env \<Rightarrow> App \<Rightarrow> 'db cluster \<Rightarrow> go_error option \<times> 'db cluster" where
  "InsertApp E app c =
     (case validated E (app_AppId app) (app_Configuration app) c of (err, c') \<Rightarrow>
        if err \<noteq> None then (err, c')
        else
          (case Exec (env_Session E)
                  (Insert ''apps''
                    [(''id'', VText (app_AppId app)), (''partitions'', VInt (uint (Partitions app))),
                     (''active'', VBool (Active app)), (''configuration'', VText (config_text (app_Configuration app)))] None)
                  (cl_DB c')
           of (err, db') \<Rightarrow> (err, c'\<lparr>cl_DB := db'\<rparr>)))"

section \<open>Entities in the database\<close>

definition entity_select :: "string list" where
  "entity_select = [''id'', ''nodename'', ''status'', ''history'']"

definition entity_of_row :: "row \<Rightarrow> EntityInfo" where
  "entity_of_row m = \<lparr>ei_Id = text_of m ''id'', ei_Node = text_of m ''nodename'', ei_Status = int_of m ''status'',
                      History = text_of m ''history''\<rparr>"

definition GetAllEntitiesInfoOfNode :: "'db env \<Rightarrow> string \<Rightarrow> 'db cluster \<Rightarrow> EntityInfo list go" where
  "GetAllEntitiesInfoOfNode E nodeName c =
     (case iter_spliced E [nodeName] (''SELECT id, status FROM nodes WHERE nodename='' @ quoted nodeName @ '';'')
             (Select ''nodes'' [''id'', ''status''] [Eq ''nodename'' (VText nodeName)]) (cl_DB c)
      of
        (rows, None) \<Rightarrow>
          Ret (map (\<lambda>m. \<lparr>ei_Id = text_of m ''id'', ei_Node = nodeName, ei_Status = int_of m ''status'', History = []\<rparr>) rows)
      | (rows, Some err) \<Rightarrow> Fatal)"

definition GetAllEntitiesInfo :: "'db env \<Rightarrow> 'db cluster \<Rightarrow> EntityInfo list go" where
  "GetAllEntitiesInfo E c =
     (case Iter (env_Session E) (Select ''entity'' entity_select []) (cl_DB c) of
        (rows, None) \<Rightarrow> Ret (map entity_of_row rows)
      | (rows, Some err) \<Rightarrow> Fatal)"

definition GetAllEntitiesForApp :: "'db env \<Rightarrow> string \<Rightarrow> 'db cluster \<Rightarrow> EntityInfo list result \<times> 'db cluster" where
  "GetAllEntitiesForApp E appId c =
     (case GetApp E appId c of
        ((app, Some err), c') \<Rightarrow> (([], Some err), c')
      | ((app, None), c') \<Rightarrow>
          (let ids = map (\<lambda>i. entity_id (app_AppId app) i) [0..<unat (Partitions app)] in
           case iter_spliced E [app_AppId app]
                  (''SELECT id, nodename, status, history FROM entity WHERE id in ('' @ join '','' (map quoted ids) @ '');'')
                  (Select ''entity'' entity_select [In ''id'' (map VText ids)]) (cl_DB c')
           of
             (rows, None) \<Rightarrow> ((map entity_of_row rows, None), c')
           | (rows, Some err) \<Rightarrow> (([], Some err), c')))"

definition GetEntityInfo :: "'db env \<Rightarrow> string \<Rightarrow> 'db cluster \<Rightarrow> EntityInfo" where
  "GetEntityInfo E eid c =
     (case scan_spliced E [eid] (''SELECT id, nodename, status, history FROM entity WHERE id='' @ quoted eid @ '';'')
             (Select ''entity'' entity_select [Eq ''id'' (VText eid)]) (cl_DB c)
      of Inl err \<Rightarrow> empty_entity | Inr m \<Rightarrow> entity_of_row m)"

text \<open>
  The history is a text: the former node and status are appended, and only the last
  \<^verbatim>\<open>EntityHistorySize\<close> bytes are kept. A negative size puts the slice out of range.
\<close>

definition next_history :: "EntityInfo \<Rightarrow> string" where
  "next_history entity =
     (if History entity \<noteq> [] \<or> ei_Node entity \<noteq> []
      then History entity @ ''->'' @ ''{'' @ ei_Node entity @ '':'' @ Itoa (ei_Status entity) @ ''}''
      else [])"

definition cut_history :: "int64 \<Rightarrow> string \<Rightarrow> string go" where
  "cut_history n h =
     (if int (length h) > n
      then if n < 0 then Panic ''slice bounds out of range'' else Ret (drop (length h - nat n) h)
      else Ret h)"

definition exec_cluster :: "'db env \<Rightarrow> string list \<Rightarrow> string \<Rightarrow> stmt \<Rightarrow> 'db cluster \<Rightarrow> go_error option \<times> 'db cluster" where
  "exec_cluster E names txt st c =
     (case exec_spliced E names txt st (cl_DB c) of (err, db) \<Rightarrow> (err, c\<lparr>cl_DB := db\<rparr>))"

definition UpdateEntityStatus ::
    "'db env \<Rightarrow> string \<Rightarrow> string \<Rightarrow> int64 \<Rightarrow> ('db cluster, go_error option) io" where
  "UpdateEntityStatus E eid nodename status c =
     (case cut_history (EntityHistorySize (env_Conf E)) (next_history (GetEntityInfo E eid c)) of
        Ret history \<Rightarrow>
          (case exec_cluster E [nodename, history, eid]
                  (''UPDATE entity SET nodename='' @ quoted nodename @ '', status='' @ Itoa status @ '', history='' @
                     quoted history @ '' WHERE id='' @ quoted eid @ '';'')
                  (Update ''entity'' [(''nodename'', VText nodename), (''status'', VInt status), (''history'', VText history)]
                     [(''id'', VText eid)]) c
           of (err, c') \<Rightarrow> (Ret err, c'))
      | Panic e \<Rightarrow> (Panic e, c)
      | Diverge \<Rightarrow> (Diverge, c))"

definition CreateEntity :: "'db env \<Rightarrow> EntityInfo \<Rightarrow> 'db cluster \<Rightarrow> go_error option \<times> 'db cluster" where
  "CreateEntity E entityInfo c =
     (case Exec (env_Session E)
             (Insert ''entity'' [(''id'', VText (ei_Id entityInfo)), (''nodename'', VText (Address (env_Conf E))),
                (''status'', VInt 0)] None) (cl_DB c)
      of (err, db) \<Rightarrow> (err, c\<lparr>cl_DB := db\<rparr>))"

section \<open>The default apps\<close>

definition apps_by_ids :: "string \<Rightarrow> string \<Rightarrow> query" where
  "apps_by_ids a b = Select ''apps'' app_select [In ''id'' [VText a, VText b]]"

definition getDefaultApps :: "'db env \<Rightarrow> 'db cluster \<Rightarrow> string list result" where
  "getDefaultApps E c =
     (case Iter (env_Session E) (apps_by_ids MaxConfigApp (CronApp (env_Conf E))) (cl_DB c) of
        (rows, err) \<Rightarrow> (map (\<lambda>m. text_of m ''id'') rows, err))"

text \<open>A call whose error ends the process.\<close>

definition must :: "('s \<Rightarrow> go_error option \<times> 's) \<Rightarrow> ('s, unit) io" where
  "must m s = (case m s of (None, s') \<Rightarrow> (Ret (), s') | (Some err, s') \<Rightarrow> (Fatal, s'))"

definition create_max_config_app :: "'db env \<Rightarrow> string list \<Rightarrow> ('db cluster, unit) io" where
  "create_max_config_app E apps =
     (if MaxConfigApp \<in> set apps then ret ()
      else must (InsertApp E \<lparr>app_AppId = MaxConfigApp, Partitions = 0, Active = False,
                              app_Configuration = AppLevelConfiguration (env_Conf E)\<rparr>))"

fun create_partitions :: "'db env \<Rightarrow> string \<Rightarrow> nat list \<Rightarrow> ('db cluster, unit) io" where
  "create_partitions E app [] = ret ()"
| "create_partitions E app (p # ps) =
     bnd (must (CreateEntity E \<lparr>ei_Id = entity_id app p, ei_Node = Address (env_Conf E), ei_Status = 0, History = []\<rparr>))
       (\<lambda>_. create_partitions E app ps)"

definition create_cron_app :: "'db env \<Rightarrow> string list \<Rightarrow> ('db cluster, unit) io" where
  "create_cron_app E apps =
     (if CronApp (env_Conf E) \<in> set apps then ret ()
      else bnd (must (InsertApp E \<lparr>app_AppId = CronApp (env_Conf E), Partitions = DefaultCount (env_Conf E), Active = True,
                                  app_Configuration = empty_configuration\<rparr>))
             (\<lambda>_. create_partitions E (CronApp (env_Conf E)) [0..<unat (DefaultCount (env_Conf E))]))"

definition createDefaultAppsIfRequired :: "'db env \<Rightarrow> ('db cluster, unit) io" where
  "createDefaultAppsIfRequired E c =
     (case getDefaultApps E c of
        (apps, Some err) \<Rightarrow> (Fatal, c)
      | (apps, None) \<Rightarrow> bnd (create_max_config_app E apps) (\<lambda>_. create_cron_app E apps) c)"

section \<open>Reading and changing apps\<close>

definition app_of_full_row :: "row \<Rightarrow> App" where
  "app_of_full_row m = app_of_row m (fst (unmarshal_configuration (text_of m ''configuration'')))"

definition GetApps :: "'db env \<Rightarrow> string \<Rightarrow> 'db cluster \<Rightarrow> App list result \<times> 'db cluster" where
  "GetApps E appId c =
     (if appId \<noteq> []
      then (case getApp E appId c of
              ((app, None), c') \<Rightarrow> (([app], None), c')
            | ((app, Some err), c') \<Rightarrow> (([], Some err), c'))
      else (case Iter (env_Session E) (Select ''apps'' app_select []) (cl_DB c) of
              (rows, err) \<Rightarrow> ((map app_of_full_row rows, err), c)))"

definition UpdateAppActiveStatus :: "'db env \<Rightarrow> string \<Rightarrow> bool \<Rightarrow> 'db cluster \<Rightarrow> go_error option \<times> 'db cluster" where
  "UpdateAppActiveStatus E appName activeStatus =
     exec_cluster E [appName]
       (''UPDATE apps set active = '' @ (if activeStatus then ''True'' else ''False'') @ '' where id='' @ quoted appName)
       (Update ''apps'' [(''active'', VBool activeStatus)] [(''id'', VText appName)])"

fun last_app :: "string \<Rightarrow> App list \<Rightarrow> App option" where
  "last_app a [] = None"
| "last_app a (x # xs) =
     (case last_app a xs of Some y \<Rightarrow> Some y | None \<Rightarrow> if app_AppId x = a then Some x else None)"

definition getDCAwareApp :: "'db env \<Rightarrow> string \<Rightarrow> 'db cluster \<Rightarrow> App result \<times> 'db cluster" where
  "getDCAwareApp E appName c =
     (let dcPrefixedAppName = DCPrefix (env_Conf E) @ ''_'' @ appName in
      case Iter (env_Session E) (apps_by_ids dcPrefixedAppName appName) (cl_DB c) of
        (rows, Some err) \<Rightarrow> ((empty_app, Some err), c)
      | (rows, None) \<Rightarrow>
          (let apps = map app_of_full_row rows in
           case last_app dcPrefixedAppName apps of
             Some app \<Rightarrow> ((app, None), cache app c)
           | None \<Rightarrow>
               (case last_app appName apps of
                  Some app \<Rightarrow> ((app, None), cache app c)
                | None \<Rightarrow> ((empty_app, None), c))))"

definition GetDCAwareApp :: "'db env \<Rightarrow> string \<Rightarrow> 'db cluster \<Rightarrow> App result \<times> 'db cluster" where
  "GetDCAwareApp E appName c =
     (case check (DCPrefix (env_Conf E) @ appName) c of
        Some app \<Rightarrow> ((app, None), c)
      | None \<Rightarrow>
          (case check appName c of
             Some app \<Rightarrow> ((app, None), c)
           | None \<Rightarrow> getDCAwareApp E appName c))"

section \<open>Configurations of apps\<close>

definition update_config :: "'db env \<Rightarrow> string \<Rightarrow> Configuration \<Rightarrow> 'db cluster \<Rightarrow> go_error option \<times> 'db cluster" where
  "update_config E appId configuration =
     exec_cluster E [config_text configuration, appId]
       (''UPDATE apps SET configuration='' @ quoted (config_text configuration) @ '' WHERE id='' @ quoted appId @ '';'')
       (Update ''apps'' [(''configuration'', VText (config_text configuration))] [(''id'', VText appId)])"

definition CreateConfigurations ::
    "'db env \<Rightarrow> string \<Rightarrow> Configuration \<Rightarrow> 'db cluster \<Rightarrow> Configuration result \<times> 'db cluster" where
  "CreateConfigurations E appId configuration c =
     (case validated E appId configuration c of
        (Some err, c') \<Rightarrow> ((empty_configuration, Some err), c')
      | (None, c') \<Rightarrow> (case update_config E appId configuration c' of (err, c'') \<Rightarrow> ((configuration, err), c'')))"

definition GetConfiguration :: "'db env \<Rightarrow> string \<Rightarrow> 'db cluster \<Rightarrow> Configuration result" where
  "GetConfiguration E appId c =
     (case scan_spliced E [appId] (''SELECT configuration FROM apps WHERE id='' @ quoted appId @ '';'')
             (Select ''apps'' [''configuration''] [Eq ''id'' (VText appId)]) (cl_DB c)
      of
        Inl err \<Rightarrow> (empty_configuration, Some err)
      | Inr m \<Rightarrow>
          (case unmarshal_configuration (text_of m ''configuration'') of (configuration, e) \<Rightarrow>
             (configuration, if e then Some (Err ''unmarshal'') else None)))"

text \<open>\<^verbatim>\<open>mergo.Merge(&dst, src)\<close> belongs to a package outside the sources and is a parameter.\<close>

type_synonym merge = "Configuration \<Rightarrow> Configuration \<Rightarrow> Configuration result"

definition UpdateConfiguration ::
    "merge \<Rightarrow> 'db env \<Rightarrow> string \<Rightarrow> Configuration \<Rightarrow> 'db cluster \<Rightarrow> Configuration result \<times> 'db cluster" where
  "UpdateConfiguration Merge E appId configuration c =
     (case validated E appId configuration c of
        (Some err, c') \<Rightarrow> ((empty_configuration, Some err), c')
      | (None, c') \<Rightarrow>
          (case GetConfiguration E appId c' of
             (existingConfig, Some err) \<Rightarrow> ((empty_configuration, Some err), c')
           | (existingConfig, None) \<Rightarrow>
               (case Merge configuration existingConfig of
                  (merged, Some err) \<Rightarrow> ((empty_configuration, Some err), c')
                | (merged, None) \<Rightarrow>
                    (case update_config E appId merged c' of (err, c'') \<Rightarrow> ((merged, err), c'')))))"

definition DeleteConfiguration :: "'db env \<Rightarrow> string \<Rightarrow> 'db cluster \<Rightarrow> Configuration result \<times> 'db cluster" where
  "DeleteConfiguration E appId c =
     (case update_config E appId empty_configuration c of (err, c') \<Rightarrow> ((empty_configuration, err), c'))"

end
