(* ===== verification/ScheduleDao.thy ===== *)
theory ScheduleDao
  imports Environment
begin

text \<open>
  The schedule data access object (src/dao/schedule_dao_impl.go). Operations that only read take
  the database and return an outcome; operations that write return the new database as well.
  The calls to the monitor and to the log are left out.
\<close>

section \<open>Creating schedules\<close>

text \<open>Milliseconds, as the driver wants timestamps given as integers.\<close>

definition millis :: "int64 \<Rightarrow> cql" where
  "millis s = VTime (wrap64 (s * 1000))"

definition recurring_columns :: "Schedule \<Rightarrow> string \<Rightarrow> string \<Rightarrow> status \<Rightarrow> (string \<times> cql) list" where
  "recurring_columns s cb_type cb_details st =
     [(''app_id'', VText (AppId s)), (''partition_id'', VInt (PartitionId s)), (''schedule_id'', VUuid (ScheduleId s)),
      (''payload'', VText (Payload s)), (''callback_type'', VText cb_type), (''callback_details'', VText cb_details),
      (''cron_expression'', VText (CronExpression s)), (''status'', VText st)]"

definition recurring_batch :: "Schedule \<Rightarrow> status \<Rightarrow> stmt list go" where
  "recurring_batch s st =
     bind_go (GetCallBackType s) (\<lambda>cb_type.
     bind_go (GetCallbackDetails s) (\<lambda>cb_details.
       Ret (map (\<lambda>t. Insert t (recurring_columns s cb_type cb_details st) None)
              [''recurring_schedules_by_id'', ''recurring_schedules_by_partition''])))"

definition createRecurringSchedule :: "'db env \<Rightarrow> Schedule \<Rightarrow> 'db \<Rightarrow> (Schedule result \<times> 'db) go" where
  "createRecurringSchedule E s db =
     bind_go (recurring_batch s Scheduled) (\<lambda>batch.
       case ExecuteBatch (env_Session E) batch db of (err, db') \<Rightarrow>
         Ret ((s\<lparr>Status := Scheduled\<rparr>, err), db'))"

definition schedule_columns :: "Schedule \<Rightarrow> string \<Rightarrow> string \<Rightarrow> (string \<times> cql) list" where
  "schedule_columns s cb_type cb_details =
     [(''app_id'', VText (AppId s)), (''partition_id'', VInt (PartitionId s)),
      (''schedule_time_group'', millis (ScheduleGroup s)), (''schedule_id'', VUuid (ScheduleId s)),
      (''schedule_time'', millis (ScheduleTime s)), (''payload'', VText (Payload s)),
      (''callback_type'', VText cb_type), (''callback_details'', VText cb_details)]"

definition schedule_ttl :: "'db env \<Rightarrow> App \<Rightarrow> Schedule \<Rightarrow> int64" where
  "schedule_ttl E app s =
     GetTTL (env_Now E) app (FiredScheduleRetentionPeriod (AppLevelConfiguration (env_Conf E))) s"

definition createOneTimeSchedule :: "'db env \<Rightarrow> Schedule \<Rightarrow> App \<Rightarrow> 'db \<Rightarrow> (Schedule result \<times> 'db) go" where
  "createOneTimeSchedule E s app db =
     bind_go (GetCallBackType s) (\<lambda>cb_type.
     bind_go (GetCallbackDetails s) (\<lambda>cb_details.
       case Exec (env_Session E)
              (Insert ''schedules'' (schedule_columns s cb_type cb_details) (Some (schedule_ttl E app s))) db
       of (err, db') \<Rightarrow> Ret ((s, err), db')))"

definition CreateSchedule :: "'db env \<Rightarrow> Schedule \<Rightarrow> App \<Rightarrow> 'db \<Rightarrow> (Schedule result \<times> 'db) go" where
  "CreateSchedule E s app db =
     (if IsRecurring s then createRecurringSchedule E s db else createOneTimeSchedule E s app db)"

section \<open>Reading schedules\<close>

definition recurring_select :: "string list" where
  "recurring_select =
     [''schedule_id'', ''payload'', ''callback_type'', ''callback_details'', ''app_id'', ''partition_id'',
      ''cron_expression'', ''status'']"

text \<open>The loop over the rows: the schedules that could be formed and the errors of the others.\<close>

fun scan_schedules :: "registry \<Rightarrow> row list \<Rightarrow> Schedule list \<Rightarrow> go_error list \<Rightarrow> (Schedule list \<times> go_error list) go" where
  "scan_schedules reg [] schedules errs = Ret (schedules, errs)"
| "scan_schedules reg (m # ms) schedules errs =
     bind_go (CreateScheduleFromCassandraMap reg m empty_schedule) (\<lambda>(s, err).
       case err of
         Some e \<Rightarrow> scan_schedules reg ms schedules (errs @ [e])
       | None \<Rightarrow> scan_schedules reg ms (schedules @ [s]) errs)"

definition GetRecurringScheduleByPartition :: "'db env \<Rightarrow> int64 \<Rightarrow> 'db \<Rightarrow> (Schedule list \<times> go_error list) go" where
  "GetRecurringScheduleByPartition E partitionId db =
     (case Iter (env_Session E)
             (Select ''recurring_schedules_by_partition'' recurring_select [Eq ''partition_id'' (VInt partitionId)]) db
      of (rows, cerr) \<Rightarrow>
        bind_go (scan_schedules (env_Registry E) rows [] []) (\<lambda>(schedules, errs).
          Ret (schedules, errs @ (case cerr of Some e \<Rightarrow> [e] | None \<Rightarrow> []))))"

definition read_one :: "'db env \<Rightarrow> query \<Rightarrow> 'db \<Rightarrow> Schedule result go" where
  "read_one E q db =
     (case MapScan (env_Session E) q db of
        Inl err \<Rightarrow> Ret (empty_schedule, Some err)
      | Inr m \<Rightarrow> CreateScheduleFromCassandraMap (env_Registry E) m empty_schedule)"

definition getRecurringSchedule :: "'db env \<Rightarrow> uuid \<Rightarrow> 'db \<Rightarrow> Schedule result go" where
  "getRecurringSchedule E uuid db =
     read_one E (Select ''recurring_schedules_by_id'' recurring_select [Eq ''schedule_id'' (VUuid uuid)]) db"

definition schedule_select :: "string list" where
  "schedule_select =
     [''schedule_id'', ''payload'', ''schedule_time_group'', ''schedule_time'', ''callback_type'', ''callback_details'',
      ''app_id'', ''partition_id'']"

definition getOneTimeSchedule :: "'db env \<Rightarrow> uuid \<Rightarrow> 'db \<Rightarrow> Schedule result go" where
  "getOneTimeSchedule E uuid db =
     read_one E (Select ''view_schedules'' schedule_select [Eq ''schedule_id'' (VUuid uuid)]) db"

definition setStatus :: "'db env \<Rightarrow> Schedule \<Rightarrow> 'db \<Rightarrow> Schedule result go" where
  "setStatus E s db =
     (case MapScan (env_Session E)
             (Select ''status'' [''schedule_status'', ''error_msg'', ''reconciliation_history'']
               [Eq ''app_id'' (VText (AppId s)), Eq ''partition_id'' (VInt (PartitionId s)),
                Eq ''schedule_id'' (VUuid (ScheduleId s))]) db
      of
        Inl err \<Rightarrow>
          (if err = ErrNotFound then Ret (SetUnknownStatus (env_Now E) (FlushPeriod (env_Conf E)) s, None)
           else Ret (s, Some err))
      | Inr m \<Rightarrow> SetStatus m s)"

definition getEnrichedSchedule :: "'db env \<Rightarrow> uuid \<Rightarrow> 'db \<Rightarrow> Schedule result go" where
  "getEnrichedSchedule E uuid db =
     bind_go (getOneTimeSchedule E uuid db) (\<lambda>(s, err).
       if err \<noteq> None then Ret (s, err) else setStatus E s db)"

definition GetSchedule :: "'db env \<Rightarrow> uuid \<Rightarrow> 'db \<Rightarrow> Schedule result go" where
  "GetSchedule E uuid db =
     bind_go (getOneTimeSchedule E uuid db) (\<lambda>(s, err).
       if err = Some ErrNotFound then getRecurringSchedule E uuid db else Ret (s, err))"

definition GetEnrichedSchedule :: "'db env \<Rightarrow> uuid \<Rightarrow> 'db \<Rightarrow> Schedule result go" where
  "GetEnrichedSchedule E uuid db =
     bind_go (getEnrichedSchedule E uuid db) (\<lambda>(s, err).
       if err = Some ErrNotFound then getRecurringSchedule E uuid db else Ret (s, err))"

definition EnrichSchedule :: "'db env \<Rightarrow> Schedule \<Rightarrow> 'db \<Rightarrow> Schedule result go" where
  "EnrichSchedule E s db = setStatus E s db"

section \<open>Runs of a recurring schedule\<close>

definition run_select :: "string list" where
  "run_select =
     [''app_id'', ''partition_id'', ''schedule_time_group'', ''schedule_id'', ''callback_type'', ''callback_details'',
      ''payload'', ''schedule_time'']"

definition runs_query :: "uuid \<Rightarrow> query" where
  "runs_query uuid = Select ''recurring_schedule_runs'' run_select [Eq ''parent_schedule_id'' (VUuid uuid)]"

definition getRuns :: "'db env \<Rightarrow> uuid \<Rightarrow> page_state \<Rightarrow> int64 \<Rightarrow> 'db \<Rightarrow> row list \<times> page_state \<times> go_error option" where
  "getRuns E uuid pageState sz db = IterPage (env_Session E) (runs_query uuid) pageState sz db"

text \<open>
  The loop over the rows of a page: stop when the writer has \<open>sz\<close> schedules, leave the whole
  operation (\<open>True\<close>) when a row does not form a schedule.
\<close>

fun write_rows ::
  "'db env \<Rightarrow> int64 \<Rightarrow> (Schedule \<Rightarrow> bool) \<Rightarrow> 'db \<Rightarrow> row list \<Rightarrow> Schedule list \<Rightarrow> (Schedule list \<times> bool) go" where
  "write_rows E sz filt db [] schedules = Ret (schedules, False)"
| "write_rows E sz filt db (m # ms) schedules =
     (if int (length schedules) = sz then Ret (schedules, False)
      else
        bind_go (CreateScheduleFromCassandraMap (env_Registry E) m empty_schedule) (\<lambda>(s, err).
          if err \<noteq> None then Ret (schedules, True)
          else
            bind_go (setStatus E s db) (\<lambda>(s', _).
              write_rows E sz filt db ms (if filt s' then schedules @ [s'] else schedules))))"

text \<open>
  \<^verbatim>\<open>getFilteredRuns\<close>, which may read pages forever. It sets the error of a copy of the writer, so
  its callers never see an error. The counter of items of the last page, which nothing reads, is
  left out.
\<close>

partial_function (option) getFilteredRuns ::
  "'db env \<Rightarrow> uuid \<Rightarrow> int64 \<Rightarrow> (Schedule \<Rightarrow> bool) \<Rightarrow> 'db \<Rightarrow> Schedule list \<Rightarrow> page_state
     \<Rightarrow> (Schedule list \<times> page_state) go option" where
  "getFilteredRuns E uuid sz filt db schedules pageState =
     (case getRuns E uuid pageState (wrap64 (sz - int (length schedules))) db of (rows, next, cerr) \<Rightarrow>
        case write_rows E sz filt db rows schedules of
          Panic e \<Rightarrow> Some (Panic e)
        | Diverge \<Rightarrow> Some Diverge
        | Ret (schedules', failed) \<Rightarrow>
            if failed then Some (Ret (schedules', pageState))
            else if cerr \<noteq> None \<or> next = [] \<or> int (length schedules') = sz then Some (Ret (schedules', next))
            else getFilteredRuns E uuid sz filt db schedules' next)"

declare getFilteredRuns.simps [code]

definition filtered_runs ::
  "'db env \<Rightarrow> uuid \<Rightarrow> int64 \<Rightarrow> (Schedule \<Rightarrow> bool) \<Rightarrow> page_state \<Rightarrow> 'db \<Rightarrow> (Schedule list \<times> page_state) go" where
  "filtered_runs E uuid sz filt pageState db =
     (case getFilteredRuns E uuid sz filt db [] pageState of Some r \<Rightarrow> r | None \<Rightarrow> Diverge)"

type_synonym runs_result = "Schedule list \<times> page_state \<times> go_error option"

definition getAllRuns :: "'db env \<Rightarrow> uuid \<Rightarrow> int64 \<Rightarrow> page_state \<Rightarrow> 'db \<Rightarrow> runs_result go" where
  "getAllRuns E uuid sz pageState db =
     bind_go (filtered_runs E uuid sz (\<lambda>s. True) pageState db) (\<lambda>(schedules, ps). Ret (schedules, ps, None))"

definition getPastRuns :: "'db env \<Rightarrow> uuid \<Rightarrow> int64 \<Rightarrow> page_state \<Rightarrow> 'db \<Rightarrow> runs_result go" where
  "getPastRuns E uuid sz pageState db =
     bind_go (filtered_runs E uuid sz (\<lambda>s. from_Unix (ScheduleGroup s) < env_Now E) pageState db)
       (\<lambda>(schedules, ps). Ret (schedules, ps, None))"

definition is_future :: "'db env \<Rightarrow> Schedule \<Rightarrow> bool" where
  "is_future E s \<longleftrightarrow> from_Unix (ScheduleGroup s) > env_Now E"

text \<open>The loop that copies at most \<open>sz\<close> schedules from the end, all of them for a negative sz.\<close>

definition last_reversed :: "int64 \<Rightarrow> 'a list \<Rightarrow> 'a list" where
  "last_reversed sz l = (if sz < 0 then rev l else take (nat sz) (rev l))"

definition getFutureRuns :: "'db env \<Rightarrow> uuid \<Rightarrow> int64 \<Rightarrow> page_state \<Rightarrow> 'db \<Rightarrow> runs_result go" where
  "getFutureRuns E uuid sz pageState db =
     bind_go (filtered_runs E uuid sz (is_future E) pageState db) (\<lambda>(schedules, ps).
       Ret (last_reversed sz schedules, ps, None))"

definition GetScheduleRuns :: "'db env \<Rightarrow> uuid \<Rightarrow> int64 \<Rightarrow> string \<Rightarrow> page_state \<Rightarrow> 'db \<Rightarrow> runs_result go" where
  "GetScheduleRuns E uuid sz when pageState db =
     (if when = ''past'' then getPastRuns E uuid sz pageState db
      else if when = ''future'' then getFutureRuns E uuid sz pageState db
      else getAllRuns E uuid sz pageState db)"

section \<open>Deleting schedules\<close>

text \<open>The statement \<^verbatim>\<open>deleteFromSchedule\<close> for a schedule.\<close>

definition deleteFromSchedule :: "Schedule \<Rightarrow> stmt" where
  "deleteFromSchedule s =
     DeleteFrom ''schedules''
       [(''app_id'', VText (AppId s)), (''partition_id'', VInt (PartitionId s)),
        (''schedule_time_group'', millis (ScheduleGroup s)), (''schedule_id'', VUuid (ScheduleId s))]"

text \<open>The two updates that set the status of a recurring schedule.\<close>

definition status_updates :: "Schedule \<Rightarrow> status \<Rightarrow> stmt list" where
  "status_updates s st =
     [Update ''recurring_schedules_by_id'' [(''status'', VText st)] [(''schedule_id'', VUuid (ScheduleId s))],
      Update ''recurring_schedules_by_partition'' [(''status'', VText st)]
        [(''partition_id'', VInt (PartitionId s)), (''schedule_id'', VUuid (ScheduleId s)),
         (''app_id'', VText (AppId s))]]"

definition deleteRecurringSchedule :: "'db env \<Rightarrow> Schedule \<Rightarrow> 'db \<Rightarrow> (Schedule result \<times> 'db) go" where
  "deleteRecurringSchedule E s db =
     bind_go (getFutureRuns E (ScheduleId s) (- 1) [] db) (\<lambda>(runs, _, err).
       if err \<noteq> None then Ret ((s, err), db)
       else
         (case ExecuteBatch (env_Session E) (status_updates s Deleted @ map deleteFromSchedule runs) db
          of (err, db') \<Rightarrow> Ret ((s\<lparr>Status := Deleted\<rparr>, err), db')))"

definition deleteOneTimeSchedule :: "'db env \<Rightarrow> Schedule \<Rightarrow> 'db \<Rightarrow> (Schedule result \<times> 'db) go" where
  "deleteOneTimeSchedule E s db =
     (case Exec (env_Session E) (deleteFromSchedule s) db of (err, db') \<Rightarrow> Ret ((s, err), db'))"

definition DeleteSchedule :: "'db env \<Rightarrow> uuid \<Rightarrow> 'db \<Rightarrow> (Schedule result \<times> 'db) go" where
  "DeleteSchedule E uuid db =
     bind_go (GetSchedule E uuid db) (\<lambda>(s, err).
       if err \<noteq> None then Ret ((empty_schedule, err), db)
       else if IsRecurring s then deleteRecurringSchedule E s db
       else deleteOneTimeSchedule E s db)"

section \<open>Writing runs and status\<close>

definition CreateRun :: "'db env \<Rightarrow> Schedule \<Rightarrow> App \<Rightarrow> 'db \<Rightarrow> (Schedule result \<times> 'db) go" where
  "CreateRun E s app db =
     bind_go (GetCallBackType s) (\<lambda>cb_type.
     bind_go (GetCallbackDetails s) (\<lambda>cb_details.
       case ExecuteBatch (env_Session E)
              (map (\<lambda>t. Insert t
                 (schedule_columns s cb_type cb_details @ [(''parent_schedule_id'', VUuid (ParentScheduleId s))])
                 (Some (schedule_ttl E app s)))
               [''schedules'', ''recurring_schedule_runs'']) db
       of (err, db') \<Rightarrow> Ret ((s, err), db')))"

definition status_insert :: "'db env \<Rightarrow> App \<Rightarrow> Schedule \<Rightarrow> stmt" where
  "status_insert E app s =
     Insert ''status''
       [(''app_id'', VText (AppId s)), (''partition_id'', VInt (PartitionId s)),
        (''schedule_time_group'', millis (ScheduleGroup s)), (''schedule_id'', VUuid (ScheduleId s)),
        (''schedule_status'', VText (Status s)), (''error_msg'', VText (ErrorMessage s)),
        (''reconciliation_history'', VText (print_json (show_histories (ReconciliationHistory s))))]
       (Some (schedule_ttl E app s))"

definition UpdateStatus :: "'db env \<Rightarrow> Schedule list \<Rightarrow> App \<Rightarrow> 'db \<Rightarrow> go_error option \<times> 'db" where
  "UpdateStatus E schedules app db = ExecuteBatch (env_Session E) (map (status_insert E app) schedules) db"

section \<open>Schedules of an app in a time range\<close>

text \<open>The minutes of \<open>[startTime, endTime)\<close>, as the query wants them.\<close>

definition timeStamps :: "time \<Rightarrow> time \<Rightarrow> cql list" where
  "timeStamps startTime endTime =
     map (\<lambda>i. millis (Unix (startTime + int i * minute_ns)))
       [0..<nat ((endTime - startTime + minute_ns - 1) div minute_ns)]"

definition schedules_query :: "string \<Rightarrow> int64 list \<Rightarrow> time \<times> time \<Rightarrow> query" where
  "schedules_query appId partitions timeRange =
     Select ''schedules'' schedule_select
       [Eq ''app_id'' (VText appId), In ''partition_id'' (map VInt partitions),
        In ''schedule_time_group'' (timeStamps (fst timeRange) (snd timeRange))]"

definition getSchedules ::
  "'db env \<Rightarrow> string \<Rightarrow> int64 list \<Rightarrow> time \<times> time \<Rightarrow> page_state \<Rightarrow> int64 \<Rightarrow> 'db
     \<Rightarrow> row list \<times> page_state \<times> go_error option" where
  "getSchedules E appId partitions timeRange pageState sz db =
     IterPage (env_Session E) (schedules_query appId partitions timeRange) pageState sz db"

definition next_end :: "time \<Rightarrow> time \<Rightarrow> time" where
  "next_end endTime startTime = (if endTime - startTime < hour_ns then endTime else startTime + hour_ns)"

text \<open>
  \<^verbatim>\<open>getFilteredSchedules\<close>: hour by hour, each hour page by page. The result is the schedules, the
  page state and the start of the hour to continue from; errors are lost as for the runs.
\<close>

partial_function (option) getFilteredSchedules_loop ::
  "'db env \<Rightarrow> string \<Rightarrow> int64 list \<Rightarrow> time \<Rightarrow> int64 \<Rightarrow> (Schedule \<Rightarrow> bool) \<Rightarrow> 'db
     \<Rightarrow> time \<times> time \<Rightarrow> page_state \<Rightarrow> Schedule list \<Rightarrow> page_state \<Rightarrow> time
     \<Rightarrow> (Schedule list \<times> page_state \<times> time) go option" where
  "getFilteredSchedules_loop E appId partitions endTime sz filt db interval pageState schedules outState cont =
     (if fst interval = snd interval then Some (Ret (schedules, outState, cont))
      else
        (case getSchedules E appId partitions interval pageState (wrap64 (sz - int (length schedules))) db
         of (rows, next, cerr) \<Rightarrow>
           case write_rows E sz filt db rows schedules of
             Panic e \<Rightarrow> Some (Panic e)
           | Diverge \<Rightarrow> Some Diverge
           | Ret (schedules', failed) \<Rightarrow>
               if failed then Some (Ret (schedules', outState, cont))
               else if cerr \<noteq> None \<or> int (length schedules') = sz
               then Some (Ret (schedules', next, fst interval))
               else
                 getFilteredSchedules_loop E appId partitions endTime sz filt db
                   (if next = [] then (snd interval, next_end endTime (snd interval)) else interval)
                   next schedules' next (fst interval)))"

declare getFilteredSchedules_loop.simps [code]

definition getFilteredSchedules ::
  "'db env \<Rightarrow> string \<Rightarrow> int64 \<Rightarrow> time \<times> time \<Rightarrow> int64 \<Rightarrow> (Schedule \<Rightarrow> bool) \<Rightarrow> page_state \<Rightarrow> time \<Rightarrow> 'db
     \<Rightarrow> (Schedule list \<times> page_state \<times> time) go" where
  "getFilteredSchedules E appId partitions timeRange sz filt pageState continuationStartTime db =
     (let startTime = (if Unix continuationStartTime \<noteq> 0 then continuationStartTime else fst timeRange);
          endTime = snd timeRange
      in case getFilteredSchedules_loop E appId (map int [0..<nat partitions]) endTime sz filt db
                (startTime, next_end endTime startTime) pageState [] pageState continuationStartTime
         of Some r \<Rightarrow> r | None \<Rightarrow> Diverge)"

type_synonym schedules_result = "Schedule list \<times> page_state \<times> time \<times> go_error option"

definition getPaginatedSchedulesByStatus ::
  "'db env \<Rightarrow> string \<Rightarrow> int64 \<Rightarrow> time \<times> time \<Rightarrow> int64 \<Rightarrow> status \<Rightarrow> page_state \<Rightarrow> time \<Rightarrow> 'db \<Rightarrow> schedules_result go" where
  "getPaginatedSchedulesByStatus E appId partitions timeRange sz status pageState continuationStartTime db =
     bind_go
       (getFilteredSchedules E appId partitions timeRange sz
          (if status = [] then (\<lambda>s. True) else (\<lambda>s. Status s = status)) pageState continuationStartTime db)
       (\<lambda>(schedules, ps, cont). Ret (schedules, ps, cont, None))"

definition GetPaginatedSchedules ::
  "'db env \<Rightarrow> string \<Rightarrow> int64 \<Rightarrow> time \<times> time \<Rightarrow> int64 \<Rightarrow> status \<Rightarrow> page_state \<Rightarrow> time \<Rightarrow> 'db \<Rightarrow> schedules_result go" where
  "GetPaginatedSchedules E appId partitions timeRange sz status pageState continuationStartTime db =
     (if status \<in> {Success, Failure, Miss, Scheduled}
      then getPaginatedSchedulesByStatus E appId partitions timeRange sz status pageState continuationStartTime db
      else getPaginatedSchedulesByStatus E appId partitions timeRange sz [] pageState continuationStartTime db)"

definition entity_query :: "string \<Rightarrow> int64 \<Rightarrow> time \<Rightarrow> query" where
  "entity_query appId partitionId timeBucket =
     Select ''schedules''
       [''app_id'', ''partition_id'', ''schedule_time_group'', ''schedule_id'', ''callback_type'', ''callback_details'',
        ''payload'', ''schedule_time'', ''parent_schedule_id'']
       [Eq ''app_id'' (VText appId), Eq ''partition_id'' (VInt partitionId),
        Eq ''schedule_time_group'' (VTime (timeBucket div 10 ^ 6))]"

definition GetSchedulesForEntity ::
  "'db env \<Rightarrow> string \<Rightarrow> int64 \<Rightarrow> time \<Rightarrow> page_state \<Rightarrow> 'db \<Rightarrow> row list \<times> page_state \<times> go_error option" where
  "GetSchedulesForEntity E appId partitionId timeBucket pageState db =
     IterPage (env_Session E) (entity_query appId partitionId timeBucket) pageState
       (ScheduleDBPageSize (env_Conf E)) db"

definition GetCronSchedulesByApp :: "'db env \<Rightarrow> string \<Rightarrow> status \<Rightarrow> 'db \<Rightarrow> (Schedule list \<times> string list) go" where
  "GetCronSchedulesByApp E appId status db =
     (case Iter (env_Session E) (Select ''recurring_schedules_by_id'' recurring_select []) db of (rows, cerr) \<Rightarrow>
        bind_go (scan_schedules (env_Registry E) rows [] []) (\<lambda>(schedules, errs).
          Ret (filter (\<lambda>s. (AppId s = appId \<or> appId = []) \<and>
                          (Status s = status \<or> status \<noteq> Scheduled \<and> status \<noteq> Deleted)) schedules,
               map Error errs @ (case cerr of Some e \<Rightarrow> [Error e] | None \<Rightarrow> []))))"

section \<open>Status of many schedules\<close>

definition getBulkStatus :: "'db env \<Rightarrow> Schedule list \<Rightarrow> 'db \<Rightarrow> row list \<times> go_error option" where
  "getBulkStatus E schedules db =
     (case schedules of
        [] \<Rightarrow> ([], None)
      | s # _ \<Rightarrow>
          Iter (env_Session E)
            (Select ''status'' [''schedule_id'', ''schedule_status'', ''error_msg'', ''reconciliation_history'']
              [Eq ''app_id'' (VText (AppId s)), Eq ''partition_id'' (VInt (PartitionId s)),
               In ''schedule_id'' (map (\<lambda>s. VUuid (ScheduleId s)) schedules)]) db)"

text \<open>The map from identifiers to schedules; a later schedule replaces an earlier one.\<close>

definition idToSchedule :: "Schedule list \<Rightarrow> (uuid \<times> Schedule) list" where
  "idToSchedule schedules = fold (\<lambda>s. put_assoc (ScheduleId s) s) schedules []"

fun enrich_rows ::
  "(uuid \<times> Schedule) list \<Rightarrow> row list \<Rightarrow> Schedule list \<Rightarrow> uuid list \<Rightarrow> (Schedule list \<times> uuid list \<times> go_error option) go" where
  "enrich_rows ids [] enriched found = Ret (enriched, found, None)"
| "enrich_rows ids (m # ms) enriched found =
     bind_go (as_uuid (map_of m ''schedule_id'')) (\<lambda>uuid.
     bind_go (SetStatus m (case map_of ids uuid of Some s \<Rightarrow> s | None \<Rightarrow> empty_schedule)) (\<lambda>(s, err).
       if err \<noteq> None then Ret (enriched, found @ [uuid], err)
       else enrich_rows ids ms (enriched @ [s]) (found @ [uuid])))"

text \<open>
  \<^verbatim>\<open>OptimizedEnrichSchedule\<close>. Go visits the remaining schedules in an unspecified order, given
  here by the order in which their identifiers came.
\<close>

definition OptimizedEnrichSchedule :: "'db env \<Rightarrow> Schedule list \<Rightarrow> 'db \<Rightarrow> (Schedule list \<times> go_error option) go" where
  "OptimizedEnrichSchedule E schedules db =
     (if length schedules = 0 then Ret ([], None)
      else
        (case getBulkStatus E schedules db of (rows, cerr) \<Rightarrow>
           bind_go (enrich_rows (idToSchedule schedules) rows [] []) (\<lambda>(enriched, found, err).
             if err \<noteq> None then Ret (enriched, err)
             else if cerr \<noteq> None then Ret (enriched, cerr)
             else
               Ret (enriched @
                      map (\<lambda>(_, s). SetUnknownStatus (env_Now E) (FlushPeriod (env_Conf E)) s)
                        (filter (\<lambda>(u, _). u \<notin> set found) (idToSchedule schedules)), None))))"

section \<open>Bulk actions\<close>

definition BatchSize :: nat where "BatchSize = 50"

fun contains_status :: "status list \<Rightarrow> Schedule \<Rightarrow> bool" where
  "contains_status [] s \<longleftrightarrow> False"
| "contains_status (v # vs) s \<longleftrightarrow>
     (if v \<in> {Success, Failure, Miss, Scheduled} then (if v = Status s then True else contains_status vs s)
      else True)"

type_synonym 'db bulk_state = "'db \<times> queues"

definition act_on ::
  "'db env \<Rightarrow> App \<Rightarrow> action_type \<Rightarrow> Schedule \<Rightarrow> ('db bulk_state, unit) io" where
  "act_on E app actionType s st =
     (case st of (db, sent) \<Rightarrow>
        if actionType = Reconcile then
          (case Callback s of
             None \<Rightarrow> (Panic ''nil pointer dereference'', st)
           | Some c \<Rightarrow> (Ret (), db, Invoke c \<lparr>sw_Schedule = s, sw_App = app, IsReconciliation = True\<rparr> sent))
        else if actionType = Delete then
          (case DeleteSchedule E (ScheduleId s) db of
             Ret (_, db') \<Rightarrow> (Ret (), db', sent)
           | Panic e \<Rightarrow> (Panic e, st)
           | Diverge \<Rightarrow> (Diverge, st))
        else (Ret (), st))"

fun act_on_all :: "'db env \<Rightarrow> App \<Rightarrow> status list \<Rightarrow> action_type \<Rightarrow> Schedule list \<Rightarrow> ('db bulk_state, unit) io" where
  "act_on_all E app status actionType [] = ret ()"
| "act_on_all E app status actionType (s # ss) =
     (if contains_status status s
      then bnd (act_on E app actionType s) (\<lambda>_. act_on_all E app status actionType ss)
      else act_on_all E app status actionType ss)"

definition actionIfRequired ::
  "'db env \<Rightarrow> App \<Rightarrow> Schedule list \<Rightarrow> status list \<Rightarrow> action_type \<Rightarrow> ('db bulk_state, go_error option) io" where
  "actionIfRequired E app schedules status actionType st =
     (if length schedules = 0 then ret None st
      else
        bnd (lift_go (OptimizedEnrichSchedule E schedules (fst st))) (\<lambda>(enriched, err).
          if err \<noteq> None then ret err
          else bnd (act_on_all E app status actionType enriched) (\<lambda>_. ret None)) st)"

text \<open>The rows of a page, acted on in batches of \<open>BatchSize\<close>: an error stops, else the open batch.\<close>

fun bulk_rows ::
  "'db env \<Rightarrow> App \<Rightarrow> status list \<Rightarrow> action_type \<Rightarrow> row list \<Rightarrow> Schedule list
     \<Rightarrow> ('db bulk_state, go_error + Schedule list) io" where
  "bulk_rows E app status actionType [] batch = ret (Inr batch)"
| "bulk_rows E app status actionType (m # ms) batch =
     bnd (lift_go (CreateScheduleFromCassandraMap (env_Registry E) m empty_schedule)) (\<lambda>(s, err).
       case err of
         Some e \<Rightarrow> ret (Inl e)
       | None \<Rightarrow>
           (let batch' = batch @ [s] in
            if length batch' = BatchSize then
              bnd (actionIfRequired E app batch' status actionType) (\<lambda>err.
                case err of
                  Some e \<Rightarrow> ret (Inl e)
                | None \<Rightarrow> bulk_rows E app status actionType ms [])
            else bulk_rows E app status actionType ms batch'))"

definition BulkAction ::
  "'db env \<Rightarrow> App \<Rightarrow> int64 \<Rightarrow> time \<Rightarrow> status list \<Rightarrow> action_type \<Rightarrow> ('db bulk_state, go_error option) io" where
  "BulkAction E app partitionId scheduleTimeGroup status actionType =
     recovering None (\<lambda>st.
       case GetSchedulesForEntity E (app_AppId app) partitionId scheduleTimeGroup [] (fst st) of (rows, _, cerr) \<Rightarrow>
         bnd (bulk_rows E app status actionType rows []) (\<lambda>r.
           case r of
             Inl e \<Rightarrow> ret (Some e)
           | Inr batch \<Rightarrow>
               bnd (actionIfRequired E app batch status actionType) (\<lambda>err.
                 if err \<noteq> None then ret err else ret cerr)) st)"

section \<open>Changing recurring schedules\<close>

definition deleteFromRuns :: "Schedule \<Rightarrow> Schedule \<Rightarrow> stmt" where
  "deleteFromRuns s run =
     DeleteFrom ''recurring_schedule_runs''
       [(''schedule_time_group'', millis (ScheduleGroup run)), (''parent_schedule_id'', VUuid (ScheduleId s))]"

definition delete_runs :: "Schedule \<Rightarrow> Schedule list \<Rightarrow> stmt list" where
  "delete_runs s runs = concat (map (\<lambda>run. [deleteFromRuns s run, deleteFromSchedule run]) runs)"

definition UpdateRecurringScheduleStatus :: "'db env \<Rightarrow> Schedule \<Rightarrow> status \<Rightarrow> 'db \<Rightarrow> (Schedule result \<times> 'db) go" where
  "UpdateRecurringScheduleStatus E s status db =
     (let finish = (\<lambda>batch. case ExecuteBatch (env_Session E) batch db of (err, db') \<Rightarrow>
            Ret ((s\<lparr>Status := status\<rparr>, err), db'))
      in if status = Paused then
           bind_go (getFutureRuns E (ScheduleId s) (- 1) [] db) (\<lambda>(runs, _, err).
             if err \<noteq> None then Ret ((s, err), db)
             else finish (status_updates s status @ delete_runs s runs))
         else finish (status_updates s status))"

definition UpdateRecurringSchedule :: "'db env \<Rightarrow> Schedule \<Rightarrow> 'db \<Rightarrow> (Schedule result \<times> 'db) go" where
  "UpdateRecurringSchedule E s db =
     bind_go (recurring_batch s (Status s)) (\<lambda>batch.
     bind_go (getFutureRuns E (ScheduleId s) (- 1) [] db) (\<lambda>(runs, _, err).
       if err \<noteq> None then Ret ((s, err), db)
       else (case ExecuteBatch (env_Session E) (batch @ delete_runs s runs) db of (err, db') \<Rightarrow>
               Ret ((s, err), db'))))"

end
