(* ===== verification/Aggregate.thy ===== *)
theory Aggregate
  imports ClusterDao ScheduleDao "HOL-Library.Multiset"
begin

text \<open>
  Aggregation of fired schedules and the bulk update of their status (src/connectors/aggregate.go,
  src/connectors/status.go). An aggregation worker and its ticker share a map under a lock, so what
  happens is a sequence of whole steps: a schedule is received, or the ticker flushes the map.
\<close>

section \<open>The aggregation worker\<close>

text \<open>The map from apps to partitions to the schedules that wait.\<close>

type_synonym groups = "(string \<times> (int64 \<times> Schedule list) list) list"

record 'db aggregator =
  schedules :: groups
  StatusTaskQueue :: "StatusTask list"
  agg_Cluster :: "'db cluster"

definition lookup_or_nil :: "'k \<Rightarrow> ('k \<times> 'v list) list \<Rightarrow> 'v list" where
  "lookup_or_nil k m = (case map_of m k of None \<Rightarrow> [] | Some l \<Rightarrow> l)"

definition delete_key :: "'k \<Rightarrow> ('k \<times> 'v) list \<Rightarrow> ('k \<times> 'v) list" where
  "delete_key k m = filter (\<lambda>(k', _). k' \<noteq> k) m"

text \<open>One turn of the loop over the channel.\<close>

definition receive :: "'db env \<Rightarrow> ScheduleWrapper \<Rightarrow> 'db aggregator \<Rightarrow> 'db aggregator" where
  "receive E sw st =
     (let result = sw_Schedule sw;
          partitions = lookup_or_nil (AppId result) (schedules st);
          batch = lookup_or_nil (PartitionId result) partitions @ [result]
      in if int (length batch) = AggregateBatchSize (env_Conf E)
         then st\<lparr>schedules := put_assoc (AppId result) (delete_key (PartitionId result) partitions) (schedules st),
                 StatusTaskQueue := StatusTaskQueue st @ [\<lparr>st_Schedules = batch, st_App = sw_App sw\<rparr>]\<rparr>
         else st\<lparr>schedules := put_assoc (AppId result) (put_assoc (PartitionId result) batch partitions) (schedules st)\<rparr>)"

text \<open>
  One tick: the app is fetched once for the partitions of an app, only if one of them has schedules,
  and an error is ignored. Go visits maps in an unspecified order, given here by the lists.
\<close>

fun flush_partitions ::
    "'db env \<Rightarrow> string \<Rightarrow> App option \<Rightarrow> (int64 \<times> Schedule list) list \<Rightarrow> 'db cluster \<Rightarrow> StatusTask list \<times> 'db cluster" where
  "flush_partitions E appId reuse [] c = ([], c)"
| "flush_partitions E appId reuse ((partitionId, l) # ps) c =
     (if length l > 0 then
        (case (case reuse of Some app \<Rightarrow> (app, c) | None \<Rightarrow> (case GetApp E appId c of ((app, _), c') \<Rightarrow> (app, c')))
         of (app, c') \<Rightarrow>
           (case flush_partitions E appId (Some app) ps c' of (tasks, c'') \<Rightarrow>
              (\<lparr>st_Schedules = l, st_App = app\<rparr> # tasks, c'')))
      else flush_partitions E appId reuse ps c)"

fun flush_apps :: "'db env \<Rightarrow> groups \<Rightarrow> 'db cluster \<Rightarrow> StatusTask list \<times> 'db cluster" where
  "flush_apps E [] c = ([], c)"
| "flush_apps E ((appId, ps) # m) c =
     (case flush_partitions E appId None ps c of (tasks, c') \<Rightarrow>
        (case flush_apps E m c' of (tasks', c'') \<Rightarrow> (tasks @ tasks', c'')))"

definition flush :: "'db env \<Rightarrow> 'db aggregator \<Rightarrow> 'db aggregator" where
  "flush E st =
     (case flush_apps E (schedules st) (agg_Cluster st) of (tasks, c) \<Rightarrow>
        \<lparr>schedules = (if length (schedules st) > 0 then [] else schedules st),
         StatusTaskQueue = StatusTaskQueue st @ tasks, agg_Cluster = c\<rparr>)"

text \<open>\<^verbatim>\<open>aggregateSchedules\<close>: the states it can be in after the schedules it has received.\<close>

inductive aggregateSchedules :: "'db env \<Rightarrow> 'db cluster \<Rightarrow> ScheduleWrapper list \<Rightarrow> 'db aggregator \<Rightarrow> bool" for E c0 where
  start: "aggregateSchedules E c0 [] \<lparr>schedules = [], StatusTaskQueue = [], agg_Cluster = c0\<rparr>"
| received: "aggregateSchedules E c0 sws st \<Longrightarrow> aggregateSchedules E c0 (sws @ [sw]) (receive E sw st)"
| flushed: "aggregateSchedules E c0 sws st \<Longrightarrow> aggregateSchedules E c0 sws (flush E st)"

section \<open>The status worker\<close>

fun updateStatus :: "'db env \<Rightarrow> StatusTask list \<Rightarrow> 'db \<Rightarrow> 'db" where
  "updateStatus E [] db = db"
| "updateStatus E (statusTask # buf) db =
     (let batch = st_Schedules statusTask in
      updateStatus E buf
        (if length batch > 0 then snd (UpdateStatus E batch (st_App statusTask) db) else db))"

section \<open>Nothing is lost, nothing is sent twice\<close>

definition has_key :: "string \<Rightarrow> int64 \<Rightarrow> Schedule \<Rightarrow> bool" where
  "has_key a p s \<longleftrightarrow> AppId s = a \<and> PartitionId s = p"

definition pending :: "groups \<Rightarrow> string \<Rightarrow> int64 \<Rightarrow> Schedule list" where
  "pending m a p = lookup_or_nil p (lookup_or_nil a m)"

text \<open>The map has every key once, and the schedules wait under their own app and partition.\<close>

definition sorted_in :: "groups \<Rightarrow> bool" where
  "sorted_in m \<longleftrightarrow>
     distinct (map fst m) \<and>
     (\<forall>(a, ps) \<in> set m. distinct (map fst ps) \<and> (\<forall>(p, l) \<in> set ps. list_all (has_key a p) l))"

lemma lookup_put [simp]: "lookup_or_nil k (put_assoc k' v m) = (if k = k' then v else lookup_or_nil k m)"
  by (simp add: lookup_or_nil_def)

lemma lookup_delete [simp]: "lookup_or_nil k (delete_key k' m) = (if k = k' then [] else lookup_or_nil k m)"
  by (induction m) (auto simp: lookup_or_nil_def delete_key_def split: option.splits)

lemma pending_put:
  "pending (put_assoc a ps m) a' p = (if a' = a then lookup_or_nil p ps else pending m a' p)"
  by (simp add: pending_def)

lemma set_put_assoc: "set (put_assoc k v m) \<subseteq> insert (k, v) (set m)"
  by (induction m) (auto split: if_splits)

lemma set_delete_key: "set (delete_key k m) \<subseteq> set m"
  by (auto simp: delete_key_def)

lemma distinct_delete_key: "distinct (map fst m) \<Longrightarrow> distinct (map fst (delete_key k m))"
  by (auto simp: delete_key_def distinct_map inj_on_def)

definition partitions_ok :: "string \<Rightarrow> (int64 \<times> Schedule list) list \<Rightarrow> bool" where
  "partitions_ok a ps \<longleftrightarrow> distinct (map fst ps) \<and> (\<forall>(p, l) \<in> set ps. list_all (has_key a p) l)"

lemma sorted_in_iff: "sorted_in m \<longleftrightarrow> distinct (map fst m) \<and> (\<forall>(a, ps) \<in> set m. partitions_ok a ps)"
  by (simp add: sorted_in_def partitions_ok_def)

lemma sorted_in_put: "sorted_in m \<Longrightarrow> partitions_ok a ps \<Longrightarrow> sorted_in (put_assoc a ps m)"
  using set_put_assoc [of a ps m] by (fastforce simp: sorted_in_iff distinct_put_assoc)

lemma partitions_ok_lookup: "sorted_in m \<Longrightarrow> partitions_ok a (lookup_or_nil a m)"
  by (auto simp: sorted_in_iff lookup_or_nil_def partitions_ok_def [of a "[]"] split: option.splits dest: map_of_SomeD)

lemma partitions_ok_put: "partitions_ok a ps \<Longrightarrow> list_all (has_key a p) l \<Longrightarrow> partitions_ok a (put_assoc p l ps)"
  using set_put_assoc [of p l ps] by (fastforce simp: partitions_ok_def distinct_put_assoc)

lemma partitions_ok_delete: "partitions_ok a ps \<Longrightarrow> partitions_ok a (delete_key p ps)"
  using set_delete_key [of p ps] by (auto simp: partitions_ok_def distinct_delete_key)

lemma partitions_ok_list: "partitions_ok a ps \<Longrightarrow> list_all (has_key a p) (lookup_or_nil p ps)"
  by (auto simp: partitions_ok_def lookup_or_nil_def split: option.splits dest!: map_of_SomeD)

lemma pending_keyed: "sorted_in m \<Longrightarrow> list_all (has_key a p) (pending m a p)"
  by (simp add: pending_def partitions_ok_list partitions_ok_lookup)

lemma sorted_in_receive: "sorted_in (schedules st) \<Longrightarrow> sorted_in (schedules (receive E sw st))"
proof -
  let ?r = "sw_Schedule sw"
  let ?ps = "lookup_or_nil (AppId ?r) (schedules st)"
  let ?b = "lookup_or_nil (PartitionId ?r) ?ps @ [?r]"
  assume m: "sorted_in (schedules st)"
  then have ps: "partitions_ok (AppId ?r) ?ps" by (rule partitions_ok_lookup)
  then have "list_all (has_key (AppId ?r) (PartitionId ?r)) ?b"
    by (simp add: partitions_ok_list has_key_def)
  with m ps show ?thesis
    by (simp add: receive_def Let_def sorted_in_put partitions_ok_put partitions_ok_delete)
qed

text \<open>The schedules of a list of tasks.\<close>

definition sent :: "StatusTask list \<Rightarrow> Schedule list" where
  "sent tasks = concat (map st_Schedules tasks)"

lemma sent_simps [simp]: "sent [] = []" "sent (t # ts) = st_Schedules t @ sent ts" "sent (xs @ ys) = sent xs @ sent ys"
  by (simp_all add: sent_def)

lemma filter_keyed:
  "list_all (has_key a p) l \<Longrightarrow> filter (has_key a' p') l = (if a' = a \<and> p' = p then l else [])"
  by (induction l) (auto simp: has_key_def)

lemma flush_partitions_sent: "sent (fst (flush_partitions E a reuse ps c)) = concat (map snd ps)"
  by (induction ps arbitrary: reuse c) (auto simp: case_prod_beta split: prod.splits)

lemma flush_apps_sent: "sent (fst (flush_apps E m c)) = concat (map (\<lambda>(a, ps). concat (map snd ps)) m)"
  by (induction m arbitrary: c) (auto simp: case_prod_beta flush_partitions_sent)

lemma lookup_or_nil_Cons: "lookup_or_nil k ((k', v) # m) = (if k = k' then v else lookup_or_nil k m)"
  by (simp add: lookup_or_nil_def)

lemma lookup_or_nil_absent: "k \<notin> fst ` set m \<Longrightarrow> lookup_or_nil k m = []"
  by (simp add: lookup_or_nil_def map_of_eq_None_iff [symmetric])

lemma filter_partitions:
  "partitions_ok a ps \<Longrightarrow>
     filter (has_key a' p) (concat (map snd ps)) = (if a' = a then lookup_or_nil p ps else [])"
proof (induction ps)
  case (Cons x ps)
  obtain q l where x: "x = (q, l)" by fastforce
  from Cons.prems have ok: "partitions_ok a ps" "list_all (has_key a q) l" "q \<notin> fst ` set ps"
    by (auto simp: partitions_ok_def x)
  then show ?case
    using Cons.IH [OF ok(1)] filter_keyed [OF ok(2), of a' p] lookup_or_nil_absent [OF ok(3)]
    by (simp add: x lookup_or_nil_Cons)
qed (simp add: lookup_or_nil_def)

lemma filter_groups:
  "sorted_in m \<Longrightarrow> filter (has_key a p) (concat (map (\<lambda>(a, ps). concat (map snd ps)) m)) = pending m a p"
proof (induction m)
  case (Cons x m)
  obtain b ps where x: "x = (b, ps)" by fastforce
  from Cons.prems have ok: "sorted_in m" "partitions_ok b ps" "b \<notin> fst ` set m"
    by (auto simp: sorted_in_iff x)
  then show ?case
    using Cons.IH [OF ok(1)] filter_partitions [OF ok(2), of a p] lookup_or_nil_absent [OF ok(3)]
    by (simp add: x pending_def lookup_or_nil_Cons) (simp add: lookup_or_nil_def)
qed (simp add: pending_def lookup_or_nil_def)

text \<open>A task holds schedules of one app and one partition, at least one, and no more than a batch has.\<close>

definition batch_ok :: "'db env \<Rightarrow> StatusTask \<Rightarrow> bool" where
  "batch_ok E t \<longleftrightarrow>
     st_Schedules t \<noteq> [] \<and> (\<exists>a p. list_all (has_key a p) (st_Schedules t)) \<and>
     (0 < AggregateBatchSize (env_Conf E) \<longrightarrow> int (length (st_Schedules t)) \<le> AggregateBatchSize (env_Conf E))"

definition short :: "'db env \<Rightarrow> Schedule list \<Rightarrow> bool" where
  "short E l \<longleftrightarrow> (0 < AggregateBatchSize (env_Conf E) \<longrightarrow> int (length l) < AggregateBatchSize (env_Conf E))"

definition all_short :: "'db env \<Rightarrow> groups \<Rightarrow> bool" where
  "all_short E m \<longleftrightarrow> (\<forall>(a, ps) \<in> set m. \<forall>(p, l) \<in> set ps. short E l)"

lemma flush_partitions_batches:
  "partitions_ok a ps \<Longrightarrow> \<forall>(p, l) \<in> set ps. short E l \<Longrightarrow> t \<in> set (fst (flush_partitions E a reuse ps c)) \<Longrightarrow> batch_ok E t"
proof (induction ps arbitrary: reuse c)
  case (Cons x ps)
  obtain q l where x: "x = (q, l)" by fastforce
  have ok: "partitions_ok a ps" "list_all (has_key a q) l" using Cons.prems(1) by (auto simp: partitions_ok_def x)
  have "l \<noteq> [] \<Longrightarrow> batch_ok E \<lparr>st_Schedules = l, st_App = app\<rparr>" for app
    using ok(2) Cons.prems(2) by (auto simp: batch_ok_def short_def x)
  then show ?case
    using Cons.IH ok(1) Cons.prems(2,3) by (auto simp: x case_prod_beta split: if_splits)
qed simp

lemma flush_apps_batches:
  "sorted_in m \<Longrightarrow> all_short E m \<Longrightarrow> t \<in> set (fst (flush_apps E m c)) \<Longrightarrow> batch_ok E t"
proof (induction m arbitrary: c)
  case (Cons x m)
  obtain a ps where x: "x = (a, ps)" by fastforce
  have "sorted_in m" "partitions_ok a ps" "all_short E m" "\<forall>(p, l) \<in> set ps. short E l"
    using Cons.prems(1,2) by (auto simp: sorted_in_iff all_short_def x)
  with Cons.IH Cons.prems(3) flush_partitions_batches [of a ps E t None c] show ?case
    by (auto simp: x case_prod_beta)
qed simp

lemma all_short_put: "all_short E m \<Longrightarrow> \<forall>(p, l) \<in> set ps. short E l \<Longrightarrow> all_short E (put_assoc a ps m)"
  using set_put_assoc [of a ps m] by (fastforce simp: all_short_def)

lemma all_short_lookup: "all_short E m \<Longrightarrow> \<forall>(p, l) \<in> set (lookup_or_nil a m). short E l"
  by (cases "map_of m a") (auto simp: all_short_def lookup_or_nil_def dest!: map_of_SomeD)

lemma short_pending: "all_short E m \<Longrightarrow> short E (pending m a p)"
  using all_short_lookup [of E m a]
  by (auto simp: pending_def lookup_or_nil_def [of p] short_def [of E "[]"] split: option.splits dest: map_of_SomeD)

text \<open>What holds after every step.\<close>

definition agg_inv :: "'db env \<Rightarrow> ScheduleWrapper list \<Rightarrow> 'db aggregator \<Rightarrow> bool" where
  "agg_inv E sws st \<longleftrightarrow>
     sorted_in (schedules st) \<and> all_short E (schedules st) \<and> (\<forall>t \<in> set (StatusTaskQueue st). batch_ok E t) \<and>
     (\<forall>a p. filter (has_key a p) (sent (StatusTaskQueue st)) @ pending (schedules st) a p =
            filter (has_key a p) (map sw_Schedule sws))"

lemma agg_inv_flush: "agg_inv E sws st \<Longrightarrow> agg_inv E sws (flush E st)"
proof -
  assume inv: "agg_inv E sws st"
  obtain tasks c where f: "flush_apps E (schedules st) (agg_Cluster st) = (tasks, c)" by fastforce
  have "filter (has_key a p) (sent tasks) = pending (schedules st) a p" for a p
    using flush_apps_sent [of E "schedules st" "agg_Cluster st"] filter_groups [of "schedules st" a p] inv f
    by (simp add: agg_inv_def)
  moreover have "batch_ok E t" if "t \<in> set tasks" for t
    using flush_apps_batches [of "schedules st" E t "agg_Cluster st"] inv f that by (simp add: agg_inv_def)
  ultimately show ?thesis
    using inv by (auto simp: agg_inv_def flush_def f sorted_in_def all_short_def pending_def lookup_or_nil_def)
qed

lemma agg_inv_receive:
  assumes "agg_inv E sws st"
  shows "agg_inv E (sws @ [sw]) (receive E sw st)"
proof -
  let ?r = "sw_Schedule sw"
  let ?m = "schedules st"
  let ?ps = "lookup_or_nil (AppId ?r) ?m"
  let ?b = "pending ?m (AppId ?r) (PartitionId ?r) @ [?r]"
  have inv: "sorted_in ?m" "all_short E ?m" "\<forall>t \<in> set (StatusTaskQueue st). batch_ok E t"
      "filter (has_key a p) (sent (StatusTaskQueue st)) @ pending ?m a p = filter (has_key a p) (map sw_Schedule sws)" for a p
    using assms by (auto simp: agg_inv_def)
  have keyed: "list_all (has_key (AppId ?r) (PartitionId ?r)) ?b"
    using pending_keyed [OF inv(1)] by (simp add: has_key_def)
  note filter_b = filter_keyed [OF keyed]
  have len: "0 < AggregateBatchSize (env_Conf E) \<Longrightarrow> int (length ?b) \<le> AggregateBatchSize (env_Conf E)"
    using short_pending [OF inv(2), of "AppId ?r" "PartitionId ?r"] by (simp add: short_def)
  have rcv: "receive E sw st =
      (if int (length ?b) = AggregateBatchSize (env_Conf E)
       then st\<lparr>schedules := put_assoc (AppId ?r) (delete_key (PartitionId ?r) ?ps) ?m,
               StatusTaskQueue := StatusTaskQueue st @ [\<lparr>st_Schedules = ?b, st_App = sw_App sw\<rparr>]\<rparr>
       else st\<lparr>schedules := put_assoc (AppId ?r) (put_assoc (PartitionId ?r) ?b ?ps) ?m\<rparr>)"
    by (simp add: receive_def Let_def pending_def)
  have other: "pending ?m a p = pending ?m a p @ filter (has_key a p) [?r]"
    if "a \<noteq> AppId ?r \<or> p \<noteq> PartitionId ?r" for a p
    using that by (auto simp: has_key_def)
  have mine: "filter (has_key (AppId ?r) (PartitionId ?r)) (map sw_Schedule sws @ [?r]) =
      filter (has_key (AppId ?r) (PartitionId ?r)) (sent (StatusTaskQueue st)) @ ?b"
    using inv(4) [of "AppId ?r" "PartitionId ?r"] by (simp add: has_key_def flip: append_assoc)
  show ?thesis
  proof (cases "int (length ?b) = AggregateBatchSize (env_Conf E)")
    case True
    then have "batch_ok E \<lparr>st_Schedules = ?b, st_App = sw_App sw\<rparr>"
      using keyed by (auto simp: batch_ok_def)
    moreover have "all_short E (put_assoc (AppId ?r) (delete_key (PartitionId ?r) ?ps) ?m)"
      using all_short_put [OF inv(2)] all_short_lookup [OF inv(2)] set_delete_key by fast
    moreover have "filter (has_key a p) (sent (StatusTaskQueue st) @ ?b) @
        pending (put_assoc (AppId ?r) (delete_key (PartitionId ?r) ?ps) ?m) a p =
        filter (has_key a p) (map sw_Schedule (sws @ [sw]))" for a p
      using inv(4) [of a p] mine filter_b [of a p] by (auto simp: pending_put pending_def has_key_def)
    ultimately show ?thesis
      using inv sorted_in_receive [OF inv(1), of E sw] True by (simp add: agg_inv_def rcv)
  next
    case False
    then have "short E ?b" using len by (auto simp: short_def)
    then have "\<forall>(p, l) \<in> set (put_assoc (PartitionId ?r) ?b ?ps). short E l"
      using all_short_lookup [OF inv(2), of "AppId ?r"] set_put_assoc [of "PartitionId ?r" ?b ?ps] by fastforce
    then have "all_short E (put_assoc (AppId ?r) (put_assoc (PartitionId ?r) ?b ?ps) ?m)"
      by (rule all_short_put [OF inv(2)])
    moreover have "filter (has_key a p) (sent (StatusTaskQueue st)) @
        pending (put_assoc (AppId ?r) (put_assoc (PartitionId ?r) ?b ?ps) ?m) a p =
        filter (has_key a p) (map sw_Schedule (sws @ [sw]))" for a p
      using inv(4) [of a p] mine by (auto simp: pending_put pending_def has_key_def)
    ultimately show ?thesis
      using inv sorted_in_receive [OF inv(1), of E sw] False by (simp add: agg_inv_def rcv)
  qed
qed

lemma agg_inv_reachable: "aggregateSchedules E c0 sws st \<Longrightarrow> agg_inv E sws st"
proof (induction rule: aggregateSchedules.induct)
  case start
  then show ?case by (simp add: agg_inv_def sorted_in_def all_short_def pending_def lookup_or_nil_def)
qed (simp_all add: agg_inv_receive agg_inv_flush)

text \<open>
  C28. However receiving and flushing interleave, aggregation loses no schedule, duplicates none and
  keeps the order of the schedules of a partition: for every app and partition, what was handed to the status
  queue followed by what still waits is what was received. Each task has schedules of a
  single app and partition, at least one and at most a batch. A flush leaves nothing waiting.
\<close>

theorem aggregation_conserves:
  assumes "aggregateSchedules E c0 sws st" and "0 < AggregateBatchSize (env_Conf E)"
  shows "filter (has_key a p) (sent (StatusTaskQueue st)) @ pending (schedules st) a p =
      filter (has_key a p) (map sw_Schedule sws) \<and>
    int (length (pending (schedules st) a p)) < AggregateBatchSize (env_Conf E) \<and>
    (\<forall>t \<in> set (StatusTaskQueue st). st_Schedules t \<noteq> [] \<and>
       (\<exists>a p. list_all (has_key a p) (st_Schedules t)) \<and>
       int (length (st_Schedules t)) \<le> AggregateBatchSize (env_Conf E)) \<and>
    filter (has_key a p) (sent (StatusTaskQueue (flush E st))) = filter (has_key a p) (map sw_Schedule sws)"
proof -
  have inv: "agg_inv E sws st" by (rule agg_inv_reachable [OF assms(1)])
  then have "agg_inv E sws (flush E st)" by (rule agg_inv_flush)
  moreover have "pending (schedules (flush E st)) a p = []"
    by (simp add: flush_def pending_def lookup_or_nil_def case_prod_beta)
  ultimately have "filter (has_key a p) (sent (StatusTaskQueue (flush E st))) = filter (has_key a p) (map sw_Schedule sws)"
    unfolding agg_inv_def by (metis append_Nil2)
  moreover have "short E (pending (schedules st) a p)"
    using inv by (simp add: agg_inv_def short_pending)
  ultimately show ?thesis using inv assms(2) by (auto simp: agg_inv_def batch_ok_def short_def)
qed

definition sample_result :: ScheduleWrapper where
  "sample_result = \<lparr>sw_Schedule = sample_schedule, sw_App = sample_app, IsReconciliation = False\<rparr>"

theorem aggregation_conserves_witness:
  "filter (has_key ''app'' 0) (sent (StatusTaskQueue (flush sample_env (receive sample_env sample_result
      \<lparr>schedules = [], StatusTaskQueue = [], agg_Cluster = \<lparr>cl_DB = empty_mem, AppMap = []\<rparr>\<rparr>)))) = [sample_schedule]"
proof -
  have "aggregateSchedules sample_env \<lparr>cl_DB = empty_mem, AppMap = []\<rparr> ([] @ [sample_result])
      (receive sample_env sample_result \<lparr>schedules = [], StatusTaskQueue = [], agg_Cluster = \<lparr>cl_DB = empty_mem, AppMap = []\<rparr>\<rparr>)"
    by (intro aggregateSchedules.intros)
  from aggregation_conserves [OF this, of "''app''" 0] show ?thesis
    by (simp add: sample_env_def defaultConfig_def has_key_def sample_result_def sample_schedule_def empty_schedule_def)
qed

section \<open>The status is read back\<close>

definition status_columns :: "Schedule \<Rightarrow> (string \<times> cql) list" where
  "status_columns s =
     [(''app_id'', VText (AppId s)), (''partition_id'', VInt (PartitionId s)),
      (''schedule_time_group'', millis (ScheduleGroup s)), (''schedule_id'', VUuid (ScheduleId s)),
      (''schedule_status'', VText (Status s)), (''error_msg'', VText (ErrorMessage s)),
      (''reconciliation_history'', VText (print_json (show_histories (ReconciliationHistory s))))]"

definition status_key :: "Schedule \<Rightarrow> cql list" where
  "status_key s = [VText (AppId s), VInt (PartitionId s), VUuid (ScheduleId s)]"

lemma apply_status_insert: "apply_stmt (status_insert E app s) = upsert ''status'' (status_columns s)"
  by (rule ext) (simp add: status_insert_def status_columns_def)

lemma key_of_status [simp]: "key_of ''status'' (map_of (status_columns s)) = status_key s"
  by (simp add: key_of_def primary_key_def status_columns_def status_key_def)

definition status_keyed :: "table \<Rightarrow> bool" where
  "status_keyed T \<longleftrightarrow>
     (\<forall>k r. T k = Some r \<longrightarrow> (\<exists>a p u. k = [a, p, u] \<and> r ''app_id'' = Some a \<and> r ''partition_id'' = Some p \<and> r ''schedule_id'' = Some u))"

lemma status_upsert_row:
  obtains r where "upsert ''status'' (status_columns s) T ''status'' (status_key s) = Some r"
    "\<forall>(c, v) \<in> set (status_columns s). r c = Some v"
proof -
  have "distinct (map fst (status_columns s))" by (simp add: status_columns_def)
  from upsert_has_columns [OF this, of "''status''" T] that show thesis by auto
qed

lemma status_keyed_upsert: "status_keyed (T ''status'') \<Longrightarrow> status_keyed (upsert ''status'' (status_columns s) T ''status'')"
  unfolding status_keyed_def
proof (intro allI impI)
  fix k r
  assume keyed: "\<forall>k r. T ''status'' k = Some r \<longrightarrow>
      (\<exists>a p u. k = [a, p, u] \<and> r ''app_id'' = Some a \<and> r ''partition_id'' = Some p \<and> r ''schedule_id'' = Some u)"
    and r: "upsert ''status'' (status_columns s) T ''status'' k = Some r"
  show "\<exists>a p u. k = [a, p, u] \<and> r ''app_id'' = Some a \<and> r ''partition_id'' = Some p \<and> r ''schedule_id'' = Some u"
  proof (cases "k = status_key s")
    case True
    obtain r' where "upsert ''status'' (status_columns s) T ''status'' (status_key s) = Some r'"
        "\<forall>(c, v) \<in> set (status_columns s). r' c = Some v"
      by (rule status_upsert_row)
    with r True show ?thesis by (simp add: status_key_def status_columns_def)
  next
    case False
    with r upsert_other [of "''status''" "''status''" k "status_columns s" T] keyed show ?thesis by simp
  qed
qed

lemma status_batch_fold:
  "apply_batch (map (status_insert E app) b) T = fold (\<lambda>s. upsert ''status'' (status_columns s)) b T"
  by (induction b arbitrary: T) (simp_all add: apply_batch_def apply_status_insert)

lemma status_batch_other:
  "k \<notin> status_key ` set b \<Longrightarrow> apply_batch (map (status_insert E app) b) T ''status'' k = T ''status'' k"
  unfolding status_batch_fold by (induction b arbitrary: T) (simp_all add: upsert_other)

lemma status_batch_keyed:
  "status_keyed (T ''status'') \<Longrightarrow> status_keyed (apply_batch (map (status_insert E app) b) T ''status'')"
  unfolding status_batch_fold by (induction b arbitrary: T) (simp_all add: status_keyed_upsert)

text \<open>The row of a result, as a batch writes it.\<close>

definition status_stored :: "table \<Rightarrow> Schedule \<Rightarrow> bool" where
  "status_stored T s \<longleftrightarrow> (\<exists>r. T (status_key s) = Some r \<and> (\<forall>(c, v) \<in> set (status_columns s). r c = Some v))"

lemma status_batch_stored:
  assumes "s \<in> set batch" and "distinct (map status_key batch)"
  shows "status_stored (apply_batch (map (status_insert E app) batch) T ''status'') s"
proof -
  obtain pre post where split: "batch = pre @ s # post" using assms(1) by (meson split_list)
  let ?T = "apply_batch (map (status_insert E app) pre) T"
  have "status_key s \<notin> status_key ` set post" using assms(2) by (simp add: split)
  from status_batch_other [OF this, of E app "upsert ''status'' (status_columns s) ?T"]
  have "apply_batch (map (status_insert E app) batch) T ''status'' (status_key s) =
      upsert ''status'' (status_columns s) ?T ''status'' (status_key s)"
    unfolding status_batch_fold split by simp
  moreover obtain r where
      "upsert ''status'' (status_columns s) ?T ''status'' (status_key s) = Some r" "\<forall>(c, v) \<in> set (status_columns s). r c = Some v"
    by (rule status_upsert_row)
  ultimately show ?thesis by (auto simp: status_stored_def)
qed

lemma stored_status_read:
  assumes "cassandra sess tables rest pages_left" and "env_Session E = sess" and "status_keyed (tables db ''status'')"
    and "status_stored (tables db ''status'') s" and "status_key s0 = status_key s"
  shows "setStatus E s0 db =
      Ret (s0\<lparr>Status := Status s, ErrorMessage := ErrorMessage s, ReconciliationHistory := ReconciliationHistory s\<rparr>, None) \<or>
    (\<exists>e. e \<noteq> ErrNotFound \<and> setStatus E s0 db = Ret (s0, Some e))"
proof -
  obtain r where r: "tables db ''status'' (status_key s) = Some r" "\<forall>(c, v) \<in> set (status_columns s). r c = Some v"
    using assms(4) by (auto simp: status_stored_def)
  let ?cols = "[''schedule_status'', ''error_msg'', ''reconciliation_history'']"
  let ?conds = "[Eq ''app_id'' (VText (AppId s0)), Eq ''partition_id'' (VInt (PartitionId s0)), Eq ''schedule_id'' (VUuid (ScheduleId s0))]"
  have base: "base_table ''status'' = ''status''" by (simp add: base_table_def)
  have row: "project ''status'' ?cols r = [(''schedule_status'', VText (Status s)), (''error_msg'', VText (ErrorMessage s)),
      (''reconciliation_history'', VText (print_json (show_histories (ReconciliationHistory s))))]"
    using r(2) by (simp add: project_def status_columns_def)
  have "MapScan sess (Select ''status'' ?cols ?conds) db = Inr (project ''status'' ?cols r) \<or>
      (\<exists>e. MapScan sess (Select ''status'' ?cols ?conds) db = Inl e \<and> e \<noteq> ErrNotFound)"
  proof (rule cassandra.scan_unique [OF assms(1)])
    show "tables db (base_table ''status'') (status_key s) = Some r" using r(1) base by simp
    show "list_all (\<lambda>c. cond_holds c r) ?conds"
      using r(2) assms(5) by (simp add: status_columns_def status_key_def)
  next
    fix k' r' assume r': "tables db (base_table ''status'') k' = Some r'" "list_all (\<lambda>c. cond_holds c r') ?conds"
    then obtain a p u where "k' = [a, p, u]" "r' ''app_id'' = Some a" "r' ''partition_id'' = Some p" "r' ''schedule_id'' = Some u"
      using assms(3) base unfolding status_keyed_def by metis
    with r'(2) assms(5) show "k' = status_key s" by (simp add: status_key_def)
  qed
  then show ?thesis
    using assms(2) by (auto simp: setStatus_def row SetStatus_written)
qed

text \<open>
  C5. What the status worker writes is what every later read reports: a schedule of the batch gets back the
  status, error message and whole reconciliation history of the result, or the read itself fails
  with a reported error that is not \<open>ErrNotFound\<close>.
\<close>

theorem UpdateStatus_read_back:
  assumes "cassandra sess tables rest pages_left" and "env_Session E = sess" and "status_keyed (tables db ''status'')"
    and "UpdateStatus E batch app db = (None, db')" and "s \<in> set batch" and "distinct (map status_key batch)"
    and "status_key s0 = status_key s"
  shows "setStatus E s0 db' =
      Ret (s0\<lparr>Status := Status s, ErrorMessage := ErrorMessage s, ReconciliationHistory := ReconciliationHistory s\<rparr>, None) \<or>
    (\<exists>e. e \<noteq> ErrNotFound \<and> setStatus E s0 db' = Ret (s0, Some e))"
proof -
  have "tables db' = apply_batch (map (status_insert E app) batch) (tables db)"
    using cassandra.batch_ok [OF assms(1)] assms(2,4) by (simp add: UpdateStatus_def)
  then show ?thesis
    using status_batch_stored [OF assms(5,6)] status_batch_keyed assms(3) by (intro stored_status_read [OF assms(1,2) _ _ assms(7)]) simp_all
qed

theorem UpdateStatus_read_back_witness:
  "setStatus sample_env sample_schedule (snd (UpdateStatus sample_env [sample_schedule\<lparr>Status := Success\<rparr>] sample_app empty_mem)) =
     Ret (sample_schedule\<lparr>Status := Success\<rparr>, None) \<or>
   (\<exists>e. e \<noteq> ErrNotFound \<and>
     setStatus sample_env sample_schedule (snd (UpdateStatus sample_env [sample_schedule\<lparr>Status := Success\<rparr>] sample_app empty_mem)) =
       Ret (sample_schedule, Some e))"
proof -
  let ?s = "sample_schedule\<lparr>Status := Success\<rparr>"
  have "UpdateStatus sample_env [?s] sample_app empty_mem = (None, snd (UpdateStatus sample_env [?s] sample_app empty_mem))"
    by (simp add: UpdateStatus_def sample_env_def mem_session_def)
  moreover have "status_keyed (mem_tables empty_mem ''status'')" "env_Session sample_env = mem_session"
    by (simp_all add: status_keyed_def mem_tables_def empty_mem_def sample_env_def)
  moreover have "sample_schedule\<lparr>Status := Success, ErrorMessage := ErrorMessage ?s, ReconciliationHistory := ReconciliationHistory ?s\<rparr> = ?s"
    by simp
  ultimately show ?thesis
    using UpdateStatus_read_back [OF mem.cassandra_axioms, of sample_env empty_mem "[?s]" sample_app _ ?s sample_schedule]
    by (simp add: status_key_def)
qed

end
