(* ===== verification/ScheduleDaoFacts.thy ===== *)
theory ScheduleDaoFacts
  imports ScheduleDao
begin

text \<open>
  Facts about the schedule data access object, for every session that satisfies the laws of
  \<open>cassandra\<close>: the paging loops end and deliver every row once, what was stored is read back, and
  what pausing and deleting leave in the tables.
\<close>

section \<open>Paging\<close>

text \<open>
  The schedule a row stands for, enriched with its status; \<open>readable\<close> says that the row forms a
  schedule and that reading its status does not panic.
\<close>

definition enriched :: "'db env \<Rightarrow> 'db \<Rightarrow> row \<Rightarrow> Schedule" where
  "enriched E db m =
     (case CreateScheduleFromCassandraMap (env_Registry E) m empty_schedule of
        Ret (s, _) \<Rightarrow> (case setStatus E s db of Ret (s', _) \<Rightarrow> s' | _ \<Rightarrow> s)
      | _ \<Rightarrow> empty_schedule)"

definition readable :: "'db env \<Rightarrow> 'db \<Rightarrow> row \<Rightarrow> bool" where
  "readable E db m \<longleftrightarrow>
     (case CreateScheduleFromCassandraMap (env_Registry E) m empty_schedule of
        Ret (s, None) \<Rightarrow> (case setStatus E s db of Ret _ \<Rightarrow> True | _ \<Rightarrow> False)
      | _ \<Rightarrow> False)"

lemma readableE:
  assumes "readable E db m"
  obtains s e where "CreateScheduleFromCassandraMap (env_Registry E) m empty_schedule = Ret (s, None)"
    "setStatus E s db = Ret (enriched E db m, e)"
  using assms by (auto simp: readable_def enriched_def split: go.splits prod.splits option.splits)

lemma write_rows_all:
  assumes "sz < 0 \<or> int (length (acc @ filter filt (map (enriched E db) ms))) \<le> sz" and "\<forall>m \<in> set ms. readable E db m"
  shows "write_rows E sz filt db ms acc = Ret (acc @ filter filt (map (enriched E db) ms), False)"
  using assms
proof (induction ms arbitrary: acc)
  case (Cons m ms)
  then obtain s e where s: "CreateScheduleFromCassandraMap (env_Registry E) m empty_schedule = Ret (s, None)"
      "setStatus E s db = Ret (enriched E db m, e)"
    by (auto elim: readableE)
  show ?case
  proof (cases "int (length acc) = sz")
    case True
    then have "length (acc @ filter filt (map (enriched E db) (m # ms))) \<le> length acc" using Cons.prems(1) by linarith
    then have "filter filt (map (enriched E db) (m # ms)) = []" by (simp only: length_append) simp
    then show ?thesis using True by simp
  next
    case False
    let ?acc = "if filt (enriched E db m) then acc @ [enriched E db m] else acc"
    have "write_rows E sz filt db ms ?acc = Ret (?acc @ filter filt (map (enriched E db) ms), False)"
      using Cons.prems by (intro Cons.IH) auto
    then show ?thesis using False s by simp
  qed
qed simp

lemma write_rows_length:
  "write_rows E sz filt db ms acc = Ret (acc', failed) \<Longrightarrow> int (length acc) \<le> sz \<Longrightarrow> int (length acc') \<le> sz"
proof (induction ms arbitrary: acc)
  case (Cons m ms)
  show ?case
  proof (cases "int (length acc) = sz")
    case False
    with Cons.prems have "acc' = acc \<or> write_rows E sz filt db ms acc = Ret (acc', failed) \<or>
        (\<exists>s'. write_rows E sz filt db ms (acc @ [s']) = Ret (acc', failed))"
      by (auto simp: bind_go_eq_Ret split: if_splits)
    then show ?thesis using Cons.IH Cons.prems(2) False by fastforce
  qed (use Cons.prems in simp)
qed simp

lemma bind_go_Diverge: "bind_go m f = Diverge \<longleftrightarrow> m = Diverge \<or> (\<exists>x. m = Ret x \<and> f x = Diverge)"
  by (cases m) auto

lemma as_no_Diverge [simp]:
  "as_string v \<noteq> Diverge" "as_int v \<noteq> Diverge" "as_time v \<noteq> Diverge" "as_uuid v \<noteq> Diverge"
  by (simp_all add: as_defs split: option.splits cql.splits)

lemma Create_no_Diverge: "CreateScheduleFromCassandraMap reg m s \<noteq> Diverge"
proof -
  have "createCallbackFromMap reg m \<noteq> Diverge"
    by (simp add: createCallbackFromMap_def bind_go_Diverge split: option.splits)
  moreover have "set_times m x \<noteq> Diverge" "set_ids m x \<noteq> Diverge" for x
    by (simp_all add: set_times_def set_ids_def bind_go_Diverge split: option.splits)
  ultimately show ?thesis
    by (simp add: CreateScheduleFromCassandraMap_def bind_go_Diverge Let_def split: sum.splits option.splits)
qed

lemma setStatus_no_Diverge: "setStatus E s db \<noteq> Diverge"
proof -
  have "SetStatus m s \<noteq> Diverge" for m
    by (simp add: SetStatus_def bind_go_Diverge Let_def case_prod_beta split: option.splits)
  then show ?thesis by (simp add: setStatus_def split: sum.splits)
qed

lemma write_rows_no_Diverge: "write_rows E sz filt db ms acc \<noteq> Diverge"
  by (induction ms arbitrary: acc)
     (simp_all add: bind_go_Diverge Create_no_Diverge setStatus_no_Diverge case_prod_beta)

context cassandra
begin

lemma getFilteredRuns_returns:
  assumes "env_Session E = sess"
  shows "\<exists>r. getFilteredRuns E uuid sz filt db acc ps = Some r \<and> r \<noteq> Diverge \<and>
    (int (length acc) \<le> sz \<longrightarrow> (\<forall>schs ps'. r = Ret (schs, ps') \<longrightarrow> int (length schs) \<le> sz))"
proof (induction "pages_left (runs_query uuid) db ps" arbitrary: acc ps rule: less_induct)
  case less
  obtain rows next' cerr where page:
      "getRuns E uuid ps (wrap64 (sz - int (length acc))) db = (rows, next', cerr)"
    by (cases "getRuns E uuid ps (wrap64 (sz - int (length acc))) db") auto
  show ?case
  proof (cases "write_rows E sz filt db rows acc")
    case (Ret x)
    obtain acc' failed where x: "x = (acc', failed)" by (cases x)
    have len: "int (length acc) \<le> sz \<Longrightarrow> int (length acc') \<le> sz"
      using Ret x by (auto intro: write_rows_length)
    show ?thesis
    proof (cases "failed \<or> cerr \<noteq> None \<or> next' = [] \<or> int (length acc') = sz")
      case True
      then show ?thesis by (subst getFilteredRuns.simps) (auto simp: page Ret x len)
    next
      case False
      then have "pages_left (runs_query uuid) db next' < pages_left (runs_query uuid) db ps"
        using page assms by (intro page_progress [of "runs_query uuid" ps _ db rows]) (auto simp: getRuns_def)
      from less [OF this, of acc'] obtain r where r: "getFilteredRuns E uuid sz filt db acc' next' = Some r" "r \<noteq> Diverge"
          "int (length acc') \<le> sz \<longrightarrow> (\<forall>schs ps'. r = Ret (schs, ps') \<longrightarrow> int (length schs) \<le> sz)"
        by blast
      have eq: "getFilteredRuns E uuid sz filt db acc ps = getFilteredRuns E uuid sz filt db acc' next'"
        using False by (subst getFilteredRuns.simps) (simp add: page Ret x)
      show ?thesis
        unfolding eq by (intro exI [of _ r] conjI impI r(1,2)) (rule mp [OF r(3) len])
    qed
  next
    case (Panic e)
    then show ?thesis by (subst getFilteredRuns.simps) (simp add: page)
  next
    case Diverge
    then show ?thesis by (simp add: write_rows_no_Diverge)
  qed
qed

lemma getFilteredRuns_complete:
  assumes "env_Session E = sess"
    and "\<And>ps n. snd (snd (IterPage sess (runs_query uuid) ps n db)) = None"
    and "sz < 0 \<or> int (length (acc @ filter filt (map (enriched E db) (rest (runs_query uuid) db ps)))) \<le> sz"
    and "\<forall>m \<in> set (rest (runs_query uuid) db ps). readable E db m"
  shows "\<exists>ps'. getFilteredRuns E uuid sz filt db acc ps =
      Some (Ret (acc @ filter filt (map (enriched E db) (rest (runs_query uuid) db ps)), ps')) \<and> (sz < 0 \<longrightarrow> ps' = [])"
  using assms(3,4)
proof (induction "pages_left (runs_query uuid) db ps" arbitrary: acc ps rule: less_induct)
  case less
  obtain rows next' where page:
      "getRuns E uuid ps (wrap64 (sz - int (length acc))) db = (rows, next', None)"
    using assms(1,2) by (metis getRuns_def prod.collapse)
  then have iter: "IterPage sess (runs_query uuid) ps (wrap64 (sz - int (length acc))) db = (rows, next', None)"
    using assms(1) by (simp add: getRuns_def)
  note split = page_ok [OF iter]
  have rows: "\<forall>m \<in> set rows. readable E db m" using less.prems split by auto
  let ?acc = "acc @ filter filt (map (enriched E db) rows)"
  have written: "write_rows E sz filt db rows acc = Ret (?acc, False)"
    using less.prems(1) split rows by (intro write_rows_all) auto
  show ?case
  proof (cases "next' = [] \<or> int (length ?acc) = sz")
    case True
    have "filter filt (map (enriched E db) (if next' = [] then [] else rest (runs_query uuid) db next')) = []"
      if "int (length ?acc) = sz"
    proof -
      have "length (acc @ filter filt (map (enriched E db) (rest (runs_query uuid) db ps))) \<le> length ?acc"
        using less.prems(1) that by linarith
      then show ?thesis unfolding split by (auto simp: filter_map)
    qed
    with True show ?thesis
      by (subst getFilteredRuns.simps) (auto simp: page written split)
  next
    case False
    have "\<exists>ps'. getFilteredRuns E uuid sz filt db ?acc next' =
        Some (Ret (?acc @ filter filt (map (enriched E db) (rest (runs_query uuid) db next')), ps')) \<and> (sz < 0 \<longrightarrow> ps' = [])"
      using less.prems split False by (intro less.hyps page_progress [OF iter]) auto
    with False show ?thesis
      by (subst getFilteredRuns.simps) (simp add: page written split)
  qed
qed

end

section \<open>Stored schedules are read back\<close>

text \<open>
  What a type of callbacks must promise so that a schedule survives storage: its \<^verbatim>\<open>Marshal\<close>
  rebuilds it from the type and the details the data access object wrote.
\<close>

locale stored_callback =
  fixes wrap :: "'h \<Rightarrow> Callback"
    and wf :: "'h \<Rightarrow> bool"
  assumes marshal_stored: "wf h \<Longrightarrow>
      map_of m ''callback_type'' = Some (VText (GetType (wrap h))) \<Longrightarrow>
      map_of m ''callback_details'' = Some (VText (fst (GetDetails (wrap h)))) \<Longrightarrow>
      Marshal m (wrap z) = Inr (wrap h)"
    and not_deprecated: "set_deprecated (Some (wrap h)) s = s"
begin

lemma callback_from_row:
  assumes "wf h" and "map_of reg (GetType (wrap h)) = Some (wrap z)"
    and "map_of m ''callback_type'' = Some (VText (GetType (wrap h)))"
    and "map_of m ''callback_details'' = Some (VText (fst (GetDetails (wrap h))))"
  shows "createCallbackFromMap reg m = Ret (Inr (wrap h))"
  using assms marshal_stored [OF assms(1,3,4)] by (simp add: createCallbackFromMap_def as_string_def)

lemma one_time_from_row:
  assumes "wf h" and "map_of reg (GetType (wrap h)) = Some (wrap z)"
    and "Callback s = Some (wrap h)"
    and "in64 (ScheduleGroup s * 1000)" and "in64 (ScheduleTime s * 1000)"
    and "\<forall>(c, v) \<in> set (schedule_columns s (GetType (wrap h)) (fst (GetDetails (wrap h)))). r c = Some v"
  shows "CreateScheduleFromCassandraMap reg (project t schedule_select r) empty_schedule =
    Ret (empty_schedule\<lparr>ScheduleId := ScheduleId s, Payload := Payload s, AppId := AppId s,
           ScheduleTime := ScheduleTime s, PartitionId := PartitionId s, ScheduleGroup := ScheduleGroup s,
           Callback := Callback s, CallbackRaw := print_json (show_callback (wrap h))\<rparr>, None)"
proof -
  define m where "m = project t schedule_select r"
  have m: "m \<noteq> []" "map_of m ''app_id'' = Some (VText (AppId s))" "map_of m ''partition_id'' = Some (VInt (PartitionId s))"
      "map_of m ''schedule_time_group'' = Some (millis (ScheduleGroup s))"
      "map_of m ''schedule_time'' = Some (millis (ScheduleTime s))"
      "map_of m ''schedule_id'' = Some (VUuid (ScheduleId s))" "map_of m ''payload'' = Some (VText (Payload s))"
      "map_of m ''cron_expression'' = None" "map_of m ''status'' = None" "map_of m ''parent_schedule_id'' = None"
    using assms(6) by (simp_all add: m_def project_def schedule_select_def schedule_columns_def)
  have cb: "createCallbackFromMap reg m = Ret (Inr (wrap h))"
    using assms(6) by (intro callback_from_row [OF assms(1,2)])
      (simp_all add: m_def project_def schedule_select_def schedule_columns_def)
  have ms: "Unix (wrap64 (g * 1000) * 10 ^ 6) = g" if "in64 (g * 1000)" for g
    using that by (simp add: Unix_def second_def)
  show ?thesis
    using assms(3) ms [OF assms(4)] ms [OF assms(5)] m cb unfolding m_def [symmetric]
    by (simp add: CreateScheduleFromCassandraMap_def millis_def as_defs Let_def not_deprecated
        convertCallbackToRaw_def set_times_def set_ids_def)
qed

lemma recurring_from_row:
  assumes "wf h" and "map_of reg (GetType (wrap h)) = Some (wrap z)"
    and "Callback s = Some (wrap h)"
    and "\<forall>(c, v) \<in> set (recurring_columns s (GetType (wrap h)) (fst (GetDetails (wrap h))) st). r c = Some v"
  shows "CreateScheduleFromCassandraMap reg (project t recurring_select r) empty_schedule =
    Ret (empty_schedule\<lparr>ScheduleId := ScheduleId s, Payload := Payload s, AppId := AppId s,
           PartitionId := PartitionId s, Callback := Callback s,
           CallbackRaw := print_json (show_callback (wrap h)), CronExpression := CronExpression s, Status := st\<rparr>, None)"
proof -
  define m where "m = project t recurring_select r"
  have m: "m \<noteq> []" "map_of m ''app_id'' = Some (VText (AppId s))" "map_of m ''partition_id'' = Some (VInt (PartitionId s))"
      "map_of m ''schedule_id'' = Some (VUuid (ScheduleId s))" "map_of m ''payload'' = Some (VText (Payload s))"
      "map_of m ''cron_expression'' = Some (VText (CronExpression s))" "map_of m ''status'' = Some (VText st)"
      "map_of m ''parent_schedule_id'' = None"
    using assms(4) by (simp_all add: m_def project_def recurring_select_def recurring_columns_def)
  have cb: "createCallbackFromMap reg m = Ret (Inr (wrap h))"
    using assms(4) by (intro callback_from_row [OF assms(1,2)])
      (simp_all add: m_def project_def recurring_select_def recurring_columns_def)
  show ?thesis
    using assms(3) m cb unfolding m_def [symmetric]
    by (simp add: CreateScheduleFromCassandraMap_def as_defs Let_def not_deprecated
        convertCallbackToRaw_def set_times_def set_ids_def)
qed

end

interpretation http_cb: stored_callback HttpCallback "\<lambda>h. wf_headers (Headers (Details h))"
proof unfold_locales
  fix h z :: http_callback and m :: row
  assume "wf_headers (Headers (Details h))"
    "map_of m ''callback_type'' = Some (VText (GetType (HttpCallback h)))"
    "map_of m ''callback_details'' = Some (VText (fst (GetDetails (HttpCallback h))))"
  then show "Marshal m (HttpCallback z) = Inr (HttpCallback h)"
    using HttpCallback_Marshal_GetDetails [of h m z] by (simp add: Marshal_def GetType_def GetDetails_def)
qed (simp add: set_deprecated_def)

lemma distinct_columns:
  "distinct (map fst (schedule_columns s ct cd))" "distinct (map fst (recurring_columns s ct cd st))"
  by (simp_all add: schedule_columns_def recurring_columns_def)

text \<open>The schedule that a stored one time schedule is read as: the computed fields start afresh.\<close>

definition as_stored :: "Schedule \<Rightarrow> Schedule" where
  "as_stored s =
     empty_schedule\<lparr>ScheduleId := ScheduleId s, Payload := Payload s, AppId := AppId s,
       ScheduleTime := ScheduleTime s, PartitionId := PartitionId s, ScheduleGroup := ScheduleGroup s,
       Callback := Callback s,
       CallbackRaw := (case Callback s of Some c \<Rightarrow> print_json (show_callback c) | None \<Rightarrow> [])\<rparr>"

definition as_stored_recurring :: "Schedule \<Rightarrow> status \<Rightarrow> Schedule" where
  "as_stored_recurring s st =
     empty_schedule\<lparr>ScheduleId := ScheduleId s, Payload := Payload s, AppId := AppId s,
       PartitionId := PartitionId s, Callback := Callback s,
       CallbackRaw := (case Callback s of Some c \<Rightarrow> print_json (show_callback c) | None \<Rightarrow> []),
       CronExpression := CronExpression s, Status := st\<rparr>"

text \<open>No row of a table belongs to a schedule.\<close>

definition absent :: "table \<Rightarrow> uuid \<Rightarrow> bool" where
  "absent T u \<longleftrightarrow> (\<forall>k r. T k = Some r \<longrightarrow> r ''schedule_id'' \<noteq> Some (VUuid u))"

text \<open>A schedule with an HTTP callback that the registry knows.\<close>

definition storable :: "registry \<Rightarrow> Schedule \<Rightarrow> bool" where
  "storable reg s \<longleftrightarrow>
     (\<exists>h z. Callback s = Some (HttpCallback h) \<and> wf_headers (Headers (Details h)) \<and>
        map_of reg (Type h) = Some (HttpCallback z))"

lemma storableE:
  assumes "storable reg s"
  obtains h z where "Callback s = Some (HttpCallback h)" "wf_headers (Headers (Details h))"
    "map_of reg (GetType (HttpCallback h)) = Some (HttpCallback z)"
  using assms by (auto simp: storable_def GetType_def HttpCallback_GetType_def)

context cassandra
begin

text \<open>Creation writes one row, which is the only one with the identifier if there was none before.\<close>

lemma created_tables:
  assumes "env_Session E = sess" and "storable (env_Registry E) s"
    and "createOneTimeSchedule E s app db = Ret ((s', None), db')"
  obtains h z where "Callback s = Some (HttpCallback h)" "wf_headers (Headers (Details h))"
    "map_of (env_Registry E) (GetType (HttpCallback h)) = Some (HttpCallback z)"
    "tables db' = upsert ''schedules'' (schedule_columns s (GetType (HttpCallback h)) (fst (GetDetails (HttpCallback h)))) (tables db)"
proof -
  obtain h z where h: "Callback s = Some (HttpCallback h)" "wf_headers (Headers (Details h))"
      "map_of (env_Registry E) (GetType (HttpCallback h)) = Some (HttpCallback z)"
    using assms(2) by (rule storableE)
  from assms(1,3) h(1)
  have "tables db' = upsert ''schedules'' (schedule_columns s (GetType (HttpCallback h)) (fst (GetDetails (HttpCallback h)))) (tables db)"
    using exec_ok by (auto simp: createOneTimeSchedule_def GetCallBackType_def GetCallbackDetails_def split: prod.splits)
  with h show thesis using that by blast
qed

lemma created_row_unique:
  assumes "tables db' = upsert ''schedules'' (schedule_columns s ct cd) (tables db)"
    and "absent (tables db ''schedules'') (ScheduleId s)"
  obtains k r where "tables db' ''schedules'' k = Some r" "\<forall>(c, v) \<in> set (schedule_columns s ct cd). r c = Some v"
    "\<forall>k' r'. tables db' ''schedules'' k' = Some r' \<longrightarrow> r' ''schedule_id'' = Some (VUuid (ScheduleId s)) \<longrightarrow> k' = k \<and> r' = r"
proof -
  let ?k = "key_of ''schedules'' (map_of (schedule_columns s ct cd))"
  obtain r where r: "tables db' ''schedules'' ?k = Some r" "\<forall>(c, v) \<in> set (schedule_columns s ct cd). r c = Some v"
    unfolding assms(1) using distinct_columns(1) upsert_has_columns by blast
  have "k' = ?k" if "tables db' ''schedules'' k' = Some r'" "r' ''schedule_id'' = Some (VUuid (ScheduleId s))" for k' r'
  proof (rule ccontr)
    assume "k' \<noteq> ?k"
    then have "tables db ''schedules'' k' = Some r'" using that(1) assms(1) by (simp add: upsert_other)
    with that(2) assms(2) show False by (simp add: absent_def)
  qed
  with r show thesis using that [of ?k r] by fastforce
qed

lemma scan_created:
  assumes E: "env_Session E = sess" and s: "storable (env_Registry E) s"
    and t: "in64 (ScheduleGroup s * 1000)" "in64 (ScheduleTime s * 1000)"
    and absent: "absent (tables db ''schedules'') (ScheduleId s)"
    and created: "createOneTimeSchedule E s app db = Ret ((s', None), db')"
  shows "(\<exists>m. MapScan sess (Select ''view_schedules'' schedule_select [Eq ''schedule_id'' (VUuid (ScheduleId s))]) db' = Inr m \<and>
      CreateScheduleFromCassandraMap (env_Registry E) m empty_schedule = Ret (as_stored s, None)) \<or>
    (\<exists>e. MapScan sess (Select ''view_schedules'' schedule_select [Eq ''schedule_id'' (VUuid (ScheduleId s))]) db' = Inl e \<and> e \<noteq> ErrNotFound)"
proof -
  obtain h z where h: "Callback s = Some (HttpCallback h)" "wf_headers (Headers (Details h))"
      "map_of (env_Registry E) (GetType (HttpCallback h)) = Some (HttpCallback z)"
    and T: "tables db' = upsert ''schedules'' (schedule_columns s (GetType (HttpCallback h)) (fst (GetDetails (HttpCallback h)))) (tables db)"
    by (rule created_tables [OF E s created])
  obtain k r where r: "tables db' ''schedules'' k = Some r"
      "\<forall>(c, v) \<in> set (schedule_columns s (GetType (HttpCallback h)) (fst (GetDetails (HttpCallback h)))). r c = Some v"
    and unique: "\<forall>k' r'. tables db' ''schedules'' k' = Some r' \<longrightarrow> r' ''schedule_id'' = Some (VUuid (ScheduleId s)) \<longrightarrow> k' = k \<and> r' = r"
    by (rule created_row_unique [OF T absent])
  have id: "r ''schedule_id'' = Some (VUuid (ScheduleId s))" using r(2) by (simp add: schedule_columns_def)
  have "MapScan sess (Select ''view_schedules'' schedule_select [Eq ''schedule_id'' (VUuid (ScheduleId s))]) db' =
        Inr (project ''view_schedules'' schedule_select r) \<or>
      (\<exists>e. MapScan sess (Select ''view_schedules'' schedule_select [Eq ''schedule_id'' (VUuid (ScheduleId s))]) db' = Inl e \<and> e \<noteq> ErrNotFound)"
  proof (rule scan_unique)
    fix k' r'
    assume "tables db' (base_table ''view_schedules'') k' = Some r'"
      "list_all (\<lambda>c. cond_holds c r') [Eq ''schedule_id'' (VUuid (ScheduleId s))]"
    then have "tables db' ''schedules'' k' = Some r'" "r' ''schedule_id'' = Some (VUuid (ScheduleId s))" by (simp_all add: base_table_def)
    with unique show "k' = k" by blast
  qed (use r(1) id in \<open>simp_all add: base_table_def\<close>)
  moreover have "CreateScheduleFromCassandraMap (env_Registry E) (project ''view_schedules'' schedule_select r) empty_schedule =
      Ret (as_stored s, None)"
    using http_cb.one_time_from_row [OF h(2,3,1) t, of r "''view_schedules''"] r(2) by (simp add: as_stored_def h(1))
  ultimately show ?thesis by blast
qed

lemma getOneTimeSchedule_created:
  assumes "env_Session E = sess" and "storable (env_Registry E) s"
    and "in64 (ScheduleGroup s * 1000)" "in64 (ScheduleTime s * 1000)"
    and "absent (tables db ''schedules'') (ScheduleId s)"
    and "createOneTimeSchedule E s app db = Ret ((s', None), db')"
  shows "getOneTimeSchedule E (ScheduleId s) db' = Ret (as_stored s, None) \<or>
    (\<exists>e. getOneTimeSchedule E (ScheduleId s) db' = Ret (empty_schedule, Some e) \<and> e \<noteq> ErrNotFound)"
  using scan_created [OF assms] assms(1) by (auto simp: getOneTimeSchedule_def read_one_def)

end

lemma createOneTimeSchedule_returns:
  assumes "Callback s = Some c"
  shows "\<exists>err db'. createOneTimeSchedule E s app db = Ret ((s, err), db')"
  using assms by (auto simp: createOneTimeSchedule_def GetCallBackType_def GetCallbackDetails_def split: prod.splits)

text \<open>
  C11. Creating a one time schedule returns, and when the session reported no error the schedule
  is found under its identifier with the fields it was created with (or the read itself fails
  with an error of the database, which is never \<open>not found\<close>).
\<close>

theorem CreateSchedule_GetSchedule:
  assumes "cassandra sess tables rest pages_left" and "env_Session E = sess"
    and "storable (env_Registry E) s" and "\<not> IsRecurring s"
    and "in64 (ScheduleGroup s * 1000)" and "in64 (ScheduleTime s * 1000)"
    and "absent (tables db ''schedules'') (ScheduleId s)"
  shows "\<exists>err db'. CreateSchedule E s app db = Ret ((s, err), db') \<and>
    (err = None \<longrightarrow>
       GetSchedule E (ScheduleId s) db' = Ret (as_stored s, None) \<or>
       (\<exists>e. GetSchedule E (ScheduleId s) db' = Ret (empty_schedule, Some e) \<and> e \<noteq> ErrNotFound))"
proof -
  obtain h z where "Callback s = Some (HttpCallback h)" using assms(3) by (rule storableE)
  then obtain err db' where c: "createOneTimeSchedule E s app db = Ret ((s, err), db')"
    using createOneTimeSchedule_returns [of s "HttpCallback h" E app db] by blast
  have "GetSchedule E (ScheduleId s) db' = Ret (as_stored s, None) \<or>
      (\<exists>e. GetSchedule E (ScheduleId s) db' = Ret (empty_schedule, Some e) \<and> e \<noteq> ErrNotFound)" if "err = None"
    using cassandra.getOneTimeSchedule_created [OF assms(1), of E s db app s db'] assms(2,3,5,6,7) c that
    by (auto simp: GetSchedule_def)
  with c show ?thesis using assms(4) by (auto simp: CreateSchedule_def)
qed

theorem CreateSchedule_GetSchedule_witness:
  "\<exists>err db'. CreateSchedule sample_env sample_schedule sample_app empty_mem = Ret ((sample_schedule, err), db') \<and>
    (err = None \<longrightarrow>
       GetSchedule sample_env (ScheduleId sample_schedule) db' = Ret (as_stored sample_schedule, None) \<or>
       (\<exists>e. GetSchedule sample_env (ScheduleId sample_schedule) db' = Ret (empty_schedule, Some e) \<and> e \<noteq> ErrNotFound))"
  by (rule CreateSchedule_GetSchedule [OF mem.cassandra_axioms])
     (simp_all add: sample_env_def sample_defs storable_def wf_headers_def IsRecurring_def in64_def absent_def
       mem_tables_def empty_mem_def)

section \<open>Recurring schedules in both tables\<close>

lemma scan_schedules_mono:
  "scan_schedules reg ms acc errs = Ret (schs, errs') \<Longrightarrow> set acc \<subseteq> set schs"
proof (induction ms arbitrary: acc errs)
  case (Cons m ms)
  then obtain s err where "CreateScheduleFromCassandraMap reg m empty_schedule = Ret (s, err)"
    by (auto simp: bind_go_eq_Ret)
  then show ?case using Cons.prems Cons.IH by (cases err) fastforce+
qed simp

lemma scan_schedules_found:
  assumes "scan_schedules reg ms acc errs = Ret (schs, errs')" and "m \<in> set ms"
    and "CreateScheduleFromCassandraMap reg m empty_schedule = Ret (s, None)"
  shows "s \<in> set schs"
  using assms(1,2)
proof (induction ms arbitrary: acc errs)
  case (Cons x ms)
  then obtain t err where t: "CreateScheduleFromCassandraMap reg x empty_schedule = Ret (t, err)"
    by (auto simp: bind_go_eq_Ret)
  show ?case
  proof (cases "x = m")
    case True
    then have "scan_schedules reg ms (acc @ [s]) errs = Ret (schs, errs')"
      using Cons.prems(1) assms(3) by simp
    from scan_schedules_mono [OF this] show ?thesis by simp
  next
    case False
    then show ?thesis using Cons t by (cases err) auto
  qed
qed simp

definition by_id :: string where "by_id = ''recurring_schedules_by_id''"
definition by_partition :: string where "by_partition = ''recurring_schedules_by_partition''"

text \<open>The batch that writes a recurring schedule reaches both tables.\<close>

lemma recurring_rows:
  assumes "recurring_batch s st = Ret batch"
  obtains ct cd r r' where "GetCallBackType s = Ret ct" "GetCallbackDetails s = Ret cd"
    "apply_batch batch T by_id [VUuid (ScheduleId s)] = Some r"
    "\<forall>(c, v) \<in> set (recurring_columns s ct cd st). r c = Some v"
    "\<And>k. k \<noteq> [VUuid (ScheduleId s)] \<Longrightarrow> apply_batch batch T by_id k = T by_id k"
    "apply_batch batch T by_partition
       [VInt (PartitionId s), VUuid (ScheduleId s), VText (AppId s)] = Some r'"
    "\<forall>(c, v) \<in> set (recurring_columns s ct cd st). r' c = Some v"
    "\<And>t. t \<noteq> by_id \<Longrightarrow> t \<noteq> by_partition \<Longrightarrow> apply_batch batch T t = T t"
proof -
  from assms obtain ct cd where c: "GetCallBackType s = Ret ct" "GetCallbackDetails s = Ret cd"
    by (auto simp: recurring_batch_def bind_go_eq_Ret)
  let ?cols = "recurring_columns s ct cd st"
  from assms c have b: "batch = [Insert by_id ?cols None, Insert by_partition ?cols None]"
    by (simp add: recurring_batch_def by_id_def by_partition_def)
  have key: "key_of by_id (map_of ?cols) = [VUuid (ScheduleId s)]"
      "key_of by_partition (map_of ?cols) = [VInt (PartitionId s), VUuid (ScheduleId s), VText (AppId s)]"
    by (simp_all add: key_of_def primary_key_def by_id_def by_partition_def recurring_columns_def)
  have T': "apply_batch batch T = upsert by_partition ?cols (upsert by_id ?cols T)"
    by (simp add: b apply_batch_def)
  have ne: "by_id \<noteq> by_partition" by (simp add: by_id_def by_partition_def)
  obtain r where r: "upsert by_id ?cols T by_id [VUuid (ScheduleId s)] = Some r" "\<forall>(c, v) \<in> set ?cols. r c = Some v"
    using upsert_has_columns [OF distinct_columns(2)] key(1) by metis
  obtain r' where r': "upsert by_partition ?cols (upsert by_id ?cols T) by_partition
      [VInt (PartitionId s), VUuid (ScheduleId s), VText (AppId s)] = Some r'" "\<forall>(c, v) \<in> set ?cols. r' c = Some v"
    using upsert_has_columns [OF distinct_columns(2)] key(2) by metis
  show thesis
    by (rule that [OF c, of r r'])
       (use r r' ne key in \<open>simp_all add: T' upsert_frame upsert_other\<close>)
qed

context cassandra
begin

lemma getOneTimeSchedule_absent:
  assumes "env_Session E = sess" and "absent (tables db ''schedules'') u"
  shows "\<exists>e. getOneTimeSchedule E u db = Ret (empty_schedule, Some e)"
proof -
  let ?q = "Select ''view_schedules'' schedule_select [Eq ''schedule_id'' (VUuid u)]"
  have "MapScan sess ?q db \<noteq> Inr m" for m
  proof
    assume "MapScan sess ?q db = Inr m"
    then obtain rows where "answers ?q (tables db) rows" "m \<in> set rows" using scan_row by blast
    then obtain k r where "tables db (base_table ''view_schedules'') k = Some r"
        "list_all (\<lambda>c. cond_holds c r) [Eq ''schedule_id'' (VUuid u)]"
      by (rule answers_row)
    with assms(2) show False by (simp add: base_table_def absent_def)
  qed
  then obtain e where "MapScan sess ?q db = Inl e" by (cases "MapScan sess ?q db") auto
  with assms(1) show ?thesis by (simp add: getOneTimeSchedule_def read_one_def)
qed

lemma getRecurringSchedule_stored:
  assumes E: "env_Session E = sess" and s: "storable (env_Registry E) s"
    and c: "GetCallBackType s = Ret ct" "GetCallbackDetails s = Ret cd"
    and r: "tables db by_id [VUuid (ScheduleId s)] = Some r"
      "\<forall>(c, v) \<in> set (recurring_columns s ct cd st). r c = Some v"
    and unique: "\<And>k r. tables db by_id k = Some r \<Longrightarrow> r ''schedule_id'' = Some (VUuid (ScheduleId s)) \<Longrightarrow>
      k = [VUuid (ScheduleId s)]"
  shows "getRecurringSchedule E (ScheduleId s) db = Ret (as_stored_recurring s st, None) \<or>
    (\<exists>e. getRecurringSchedule E (ScheduleId s) db = Ret (empty_schedule, Some e) \<and> e \<noteq> ErrNotFound)"
proof -
  obtain h z where h: "Callback s = Some (HttpCallback h)" "wf_headers (Headers (Details h))"
      "map_of (env_Registry E) (GetType (HttpCallback h)) = Some (HttpCallback z)"
    using s by (rule storableE)
  from c h(1) have ctd: "ct = GetType (HttpCallback h)" "cd = fst (GetDetails (HttpCallback h))"
    by (simp_all add: GetCallBackType_def GetCallbackDetails_def)
  let ?q = "Select by_id recurring_select [Eq ''schedule_id'' (VUuid (ScheduleId s))]"
  have id: "r ''schedule_id'' = Some (VUuid (ScheduleId s))"
    using r(2) by (simp add: recurring_columns_def)
  have base: "base_table by_id = by_id" by (simp add: base_table_def by_id_def)
  have "MapScan sess ?q db = Inr (project by_id recurring_select r) \<or>
      (\<exists>e. MapScan sess ?q db = Inl e \<and> e \<noteq> ErrNotFound)"
    using r(1) id unique by (intro scan_unique) (simp_all add: base)
  moreover have "CreateScheduleFromCassandraMap (env_Registry E) (project by_id recurring_select r) empty_schedule =
      Ret (as_stored_recurring s st, None)"
    using http_cb.recurring_from_row [OF h(2,3,1), of st r by_id] r(2)
    by (simp add: ctd as_stored_recurring_def h(1))
  ultimately show ?thesis using E by (auto simp: getRecurringSchedule_def read_one_def by_id_def)
qed

lemma recurring_in_partition:
  assumes E: "env_Session E = sess" and s: "storable (env_Registry E) s"
    and c: "GetCallBackType s = Ret ct" "GetCallbackDetails s = Ret cd"
    and r: "tables db by_partition k = Some r"
      "\<forall>(c, v) \<in> set (recurring_columns s ct cd st). r c = Some v"
    and read: "GetRecurringScheduleByPartition E (PartitionId s) db = Ret (schs, [])"
  shows "as_stored_recurring s st \<in> set schs"
proof -
  obtain h z where h: "Callback s = Some (HttpCallback h)" "wf_headers (Headers (Details h))"
      "map_of (env_Registry E) (GetType (HttpCallback h)) = Some (HttpCallback z)"
    using s by (rule storableE)
  from c h(1) have ctd: "ct = GetType (HttpCallback h)" "cd = fst (GetDetails (HttpCallback h))"
    by (simp_all add: GetCallBackType_def GetCallbackDetails_def)
  let ?q = "Select by_partition recurring_select [Eq ''partition_id'' (VInt (PartitionId s))]"
  from read E obtain rows where rows: "Iter sess ?q db = (rows, None)"
      "scan_schedules (env_Registry E) rows [] [] = Ret (schs, [])"
    by (cases "Iter sess ?q db")
       (auto simp: GetRecurringScheduleByPartition_def bind_go_eq_Ret by_partition_def split: option.splits prod.splits)
  have base: "base_table by_partition = by_partition" by (simp add: base_table_def by_partition_def)
  have "r ''partition_id'' = Some (VInt (PartitionId s))" using r(2) by (simp add: recurring_columns_def)
  then have "project by_partition recurring_select r \<in> set rows"
    using answers_complete [OF iter_ok [OF rows(1)]] r(1) base by simp
  moreover have "CreateScheduleFromCassandraMap (env_Registry E) (project by_partition recurring_select r)
      empty_schedule = Ret (as_stored_recurring s st, None)"
    using http_cb.recurring_from_row [OF h(2,3,1), of st r by_partition] r(2)
    by (simp add: ctd as_stored_recurring_def h(1))
  ultimately show ?thesis by (rule scan_schedules_found [OF rows(2)])
qed

end

lemma recurring_batch_returns:
  "Callback s = Some c \<Longrightarrow> \<exists>batch. recurring_batch s st = Ret batch"
  by (simp add: recurring_batch_def GetCallBackType_def GetCallbackDetails_def)


definition sample_recurring :: Schedule where
  "sample_recurring = sample_schedule\<lparr>CronExpression := ''*/5 * * * *'', ScheduleTime := 0\<rparr>"


section \<open>Pausing and deleting\<close>

text \<open>The fields of a schedule that a row without a cron expression determines.\<close>

lemma one_time_row_fields:
  assumes "CreateScheduleFromCassandraMap reg m empty_schedule = Ret (s, None)"
    and "m \<noteq> []" and "map_of m ''cron_expression'' = None"
  shows "map_of m ''app_id'' = Some (VText (AppId s))" "map_of m ''partition_id'' = Some (VInt (PartitionId s))"
    "map_of m ''schedule_id'' = Some (VUuid (ScheduleId s))"
    "\<exists>g. map_of m ''schedule_time_group'' = Some (VTime g) \<and> ScheduleGroup s = Unix (g * 10 ^ 6)"
proof -
  have dep: "AppId (set_deprecated c x) = AppId x" "PartitionId (set_deprecated c x) = PartitionId x"
      "Callback (set_deprecated c x) = Callback x" for c x
    by (simp_all add: set_deprecated_def split: option.splits Callback.splits)
  from assms(1,2) obtain a p cb where 1: "map_of m ''app_id'' = Some (VText a)"
      "map_of m ''partition_id'' = Some (VInt p)" "createCallbackFromMap reg m = Ret cb"
    by (auto simp: CreateScheduleFromCassandraMap_def bind_go_eq_Ret Let_def as_Ret)
  with assms(1,2) obtain c where c: "cb = Inr c"
    by (cases cb) (auto simp: CreateScheduleFromCassandraMap_def as_defs)
  let ?s2 = "set_deprecated (Some c) (empty_schedule\<lparr>AppId := a, PartitionId := p, Callback := Some c\<rparr>)"
  let ?raw = "print_json (show_callback c)"
  let ?status = "\<lambda>s3. case map_of m ''status'' of None \<Rightarrow> Ret s3
      | Some v \<Rightarrow> bind_go (as_string (Some v)) (\<lambda>st. Ret (s3\<lparr>Status := st\<rparr>))"
  have eq: "CreateScheduleFromCassandraMap reg m empty_schedule =
      bind_go (as_string (map_of m ''payload'')) (\<lambda>pl.
      bind_go (set_times m (?s2\<lparr>CallbackRaw := ?raw, Payload := pl\<rparr>)) (\<lambda>s3.
      bind_go (?status s3) (\<lambda>s4. bind_go (set_ids m s4) (\<lambda>s5. Ret (s5, None)))))"
    using 1 c assms(2) by (simp add: CreateScheduleFromCassandraMap_def as_defs Let_def convertCallbackToRaw_def dep)
  from assms(1) [unfolded eq bind_go_eq_Ret] obtain pl s3 s4 where 2: "set_times m (?s2\<lparr>CallbackRaw := ?raw, Payload := pl\<rparr>) = Ret s3"
      "?status s3 = Ret s4" "set_ids m s4 = Ret s"
    by auto
  from 2(2) have 3: "s4 = s3 \<or> (\<exists>st. s4 = s3\<lparr>Status := st\<rparr>)"
    by (cases "map_of m ''status''") (auto simp: bind_go_eq_Ret)
  from 2(1) assms(3) obtain g t where g: "map_of m ''schedule_time_group'' = Some (VTime g)"
      "s3 = ?s2\<lparr>CallbackRaw := ?raw, Payload := pl, ScheduleGroup := Unix (g * 10 ^ 6), ScheduleTime := t\<rparr>"
    by (auto simp: set_times_def bind_go_eq_Ret as_Ret)
  from 2(3) obtain u where u: "map_of m ''schedule_id'' = Some (VUuid u)"
      "AppId s = AppId s4" "PartitionId s = PartitionId s4" "ScheduleGroup s = ScheduleGroup s4" "ScheduleId s = u"
    by (auto simp: set_ids_def bind_go_eq_Ret as_Ret split: option.splits if_splits)
  have "AppId s = a" "PartitionId s = p" "ScheduleId s = u" "ScheduleGroup s = Unix (g * 10 ^ 6)"
    using u 3 g(2) by (auto simp: dep)
  with 1 g(1) u(1) show "map_of m ''app_id'' = Some (VText (AppId s))"
    "map_of m ''partition_id'' = Some (VInt (PartitionId s))" "map_of m ''schedule_id'' = Some (VUuid (ScheduleId s))"
    "\<exists>g. map_of m ''schedule_time_group'' = Some (VTime g) \<and> ScheduleGroup s = Unix (g * 10 ^ 6)"
    by simp_all
qed

lemma SetStatus_keeps:
  assumes "SetStatus m s = Ret (s', e)"
  shows "AppId s' = AppId s" "PartitionId s' = PartitionId s" "ScheduleId s' = ScheduleId s"
    "ScheduleGroup s' = ScheduleGroup s" "Callback s' = Callback s"
  using assms
  by (auto simp: SetStatus_def as_Ret bind_go_eq_Ret Let_def case_prod_beta split: option.splits if_splits)

lemma setStatus_keeps:
  assumes "setStatus E s db = Ret (s', e)"
  shows "AppId s' = AppId s" "PartitionId s' = PartitionId s" "ScheduleId s' = ScheduleId s"
    "ScheduleGroup s' = ScheduleGroup s" "Callback s' = Callback s"
  using assms SetStatus_keeps
  by (auto simp: setStatus_def SetUnknownStatus_def split: sum.splits if_splits)

text \<open>What a batch does to a table that it does not write to, or from which it only deletes.\<close>

fun stmt_table :: "stmt \<Rightarrow> string" where
  "stmt_table (Insert t _ _) = t"
| "stmt_table (Update t _ _) = t"
| "stmt_table (DeleteFrom t _) = t"

lemma apply_stmt_frame: "stmt_table st \<noteq> t \<Longrightarrow> apply_stmt st T t = T t"
  by (cases st) (simp_all add: upsert_frame)

lemma apply_batch_append: "apply_batch (xs @ ys) T = apply_batch ys (apply_batch xs T)"
  by (simp add: apply_batch_def)

lemma apply_batch_frame: "\<forall>st \<in> set sts. stmt_table st \<noteq> t \<Longrightarrow> apply_batch sts T t = T t"
  by (induction sts arbitrary: T) (simp_all add: apply_batch_def apply_stmt_frame)

lemma apply_batch_deletes:
  "\<forall>st \<in> set sts. stmt_table st = t \<longrightarrow> (\<exists>eqs. st = DeleteFrom t eqs) \<Longrightarrow>
   apply_batch sts T t k =
     (case T t k of
        None \<Rightarrow> None
      | Some r \<Rightarrow> if \<exists>eqs. DeleteFrom t eqs \<in> set sts \<and> eq_matches eqs r then None else Some r)"
proof (induction sts arbitrary: T)
  case (Cons st sts)
  have IH: "apply_batch (st # sts) T t k =
      (case apply_stmt st T t k of
         None \<Rightarrow> None
       | Some r \<Rightarrow> if \<exists>eqs. DeleteFrom t eqs \<in> set sts \<and> eq_matches eqs r then None else Some r)"
    using Cons by (simp add: apply_batch_def)
  show ?case
  proof (cases "stmt_table st = t")
    case True
    with Cons.prems obtain eqs where "st = DeleteFrom t eqs" by auto
    then show ?thesis unfolding IH by (auto split: option.splits)
  next
    case False
    then show ?thesis unfolding IH by (cases st) (auto simp: upsert_frame split: option.splits)
  qed
qed (simp add: apply_batch_def split: option.splits)

definition runs_table :: string where "runs_table = ''recurring_schedule_runs''"

text \<open>A row as \<^verbatim>\<open>CreateRun\<close> writes it, readable for the data access object; and a run in the future.\<close>

definition run_row :: "'db env \<Rightarrow> 'db \<Rightarrow> (string \<rightharpoonup> cql) \<Rightarrow> bool" where
  "run_row E db r \<longleftrightarrow>
     (\<exists>a p g u. r ''app_id'' = Some (VText a) \<and> r ''partition_id'' = Some (VInt p) \<and>
        r ''schedule_time_group'' = Some (millis g) \<and> in64 (g * 1000) \<and> r ''schedule_id'' = Some (VUuid u)) \<and>
     readable E db (project runs_table run_select r)"

definition future_row :: "'db env \<Rightarrow> uuid \<Rightarrow> (string \<rightharpoonup> cql) \<Rightarrow> bool" where
  "future_row E u r \<longleftrightarrow>
     r ''parent_schedule_id'' = Some (VUuid u) \<and>
     (\<exists>g. r ''schedule_time_group'' = Some (millis g) \<and> in64 (g * 1000) \<and> from_Unix g > env_Now E)"

definition reads_runs :: "'db env \<Rightarrow> uuid \<Rightarrow> 'db \<Rightarrow> bool" where
  "reads_runs E u db \<longleftrightarrow> (\<forall>ps n. snd (snd (IterPage (env_Session E) (runs_query u) ps n db)) = None)"

lemma millis_eq: "in64 (g * 1000) \<Longrightarrow> in64 (g' * 1000) \<Longrightarrow> millis g = millis g' \<longleftrightarrow> g = g'"
  by (simp add: millis_def)

lemma run_select_lookup:
  assumes "m = project runs_table run_select r" and "run_row E db r"
  shows "m \<noteq> []" "map_of m ''cron_expression'' = None"
    "r ''app_id'' = map_of m ''app_id''" "r ''partition_id'' = map_of m ''partition_id''"
    "r ''schedule_time_group'' = map_of m ''schedule_time_group''" "r ''schedule_id'' = map_of m ''schedule_id''"
  using assms by (auto simp: project_def run_select_def run_row_def)

lemma enriched_run:
  assumes "run_row E db r" and "s = enriched E db (project runs_table run_select r)"
  shows "r ''app_id'' = Some (VText (AppId s))" "r ''partition_id'' = Some (VInt (PartitionId s))"
    "r ''schedule_id'' = Some (VUuid (ScheduleId s))"
    "r ''schedule_time_group'' = Some (millis (ScheduleGroup s))" "in64 (ScheduleGroup s * 1000)"
proof -
  define m where "m = project runs_table run_select r"
  note look = run_select_lookup [OF m_def assms(1)]
  from assms(1) have "readable E db m" by (simp add: run_row_def m_def)
  then obtain s0 e where s0: "CreateScheduleFromCassandraMap (env_Registry E) m empty_schedule = Ret (s0, None)"
      "setStatus E s0 db = Ret (s, e)"
    unfolding assms(2) m_def [symmetric] by (rule readableE)
  note f = one_time_row_fields [OF s0(1) look(1,2)] and keep = setStatus_keeps [OF s0(2)]
  show "r ''app_id'' = Some (VText (AppId s))" "r ''partition_id'' = Some (VInt (PartitionId s))"
    "r ''schedule_id'' = Some (VUuid (ScheduleId s))"
    using f(1,2,3) look keep by simp_all
  from f(4) obtain ms where ms: "map_of m ''schedule_time_group'' = Some (VTime ms)" "ScheduleGroup s0 = Unix (ms * 10 ^ 6)"
    by blast
  from assms(1) obtain g where g: "r ''schedule_time_group'' = Some (millis g)" "in64 (g * 1000)"
    by (auto simp: run_row_def)
  with ms look(5) have "ms = g * 1000" by (simp add: millis_def)
  with ms(2) have "ScheduleGroup s0 = g" by (simp add: Unix_def second_def)
  with g keep(4) show "r ''schedule_time_group'' = Some (millis (ScheduleGroup s))" "in64 (ScheduleGroup s * 1000)"
    by simp_all
qed

context cassandra
begin

text \<open>The future runs of a schedule are exactly the rows of the runs table in the future.\<close>

lemma getFutureRuns_rows:
  assumes E: "env_Session E = sess" and ok: "reads_runs E u db"
    and rows: "\<And>k r. tables db runs_table k = Some r \<Longrightarrow> r ''parent_schedule_id'' = Some (VUuid u) \<Longrightarrow> run_row E db r"
    and few: "sz < 0 \<or> int (card {k. \<exists>r. tables db runs_table k = Some r \<and> future_row E u r}) \<le> sz"
  obtains runs ps where "getFutureRuns E u sz [] db = Ret (runs, ps, None)" "sz < 0 \<Longrightarrow> ps = []"
    "set runs = {s. \<exists>k r. tables db runs_table k = Some r \<and> future_row E u r \<and>
                        s = enriched E db (project runs_table run_select r)}"
proof -
  let ?q = "runs_query u"
  let ?rest = "rest ?q db []"
  have base: "base_table ''recurring_schedule_runs'' = runs_table" by (simp add: base_table_def runs_table_def)
  have ans: "answers (Select ''recurring_schedule_runs'' run_select [Eq ''parent_schedule_id'' (VUuid u)]) (tables db) ?rest"
    using rest_start [of ?q db] by (simp add: runs_query_def)
  have rest_row: "m \<in> set ?rest \<longleftrightarrow> (\<exists>k r. tables db runs_table k = Some r \<and>
      r ''parent_schedule_id'' = Some (VUuid u) \<and> m = project runs_table run_select r)" for m
    unfolding answers_set [OF ans] base unfolding runs_table_def by simp
  have fut: "is_future E (enriched E db (project runs_table run_select r)) \<longleftrightarrow> future_row E u r"
    if r: "tables db runs_table k = Some r" "r ''parent_schedule_id'' = Some (VUuid u)" for k r
    using enriched_run [OF rows [OF r] refl] r(2)
    by (auto simp: is_future_def future_row_def millis_eq)
  have parent: "r ''parent_schedule_id'' = Some (VUuid u)" if "future_row E u r" for r
    using that by (simp add: future_row_def)
  let ?future = "filter (is_future E) (map (enriched E db) ?rest)"
  have "\<forall>m \<in> set ?rest. readable E db m"
    using rows rest_row by (auto simp: run_row_def)
  moreover have bound: "sz < 0 \<or> int (length ([] @ ?future)) \<le> sz"
  proof -
    have "{k. \<exists>r. tables db (base_table ''recurring_schedule_runs'') k = Some r \<and>
          list_all (\<lambda>c. cond_holds c r) [Eq ''parent_schedule_id'' (VUuid u)] \<and>
          is_future E (enriched E db (project ''recurring_schedule_runs'' run_select r))} =
        {k. \<exists>r. tables db runs_table k = Some r \<and> future_row E u r}"
      unfolding base unfolding runs_table_def [symmetric]
      by (rule Collect_cong) (use fut parent in \<open>auto simp del: not_None_eq\<close>)
    with answers_count [OF ans, of "\<lambda>m. is_future E (enriched E db m)"] few show ?thesis
      by (simp add: filter_map o_def)
  qed
  ultimately obtain ps where res: "getFilteredRuns E u sz (is_future E) db [] [] = Some (Ret ([] @ ?future, ps))" "sz < 0 \<longrightarrow> ps = []"
    using getFilteredRuns_complete [OF E ok [unfolded reads_runs_def E, rule_format], of sz "[]" "is_future E" "[]"] by blast
  let ?runs = "last_reversed sz ?future"
  have "getFutureRuns E u sz [] db = Ret (?runs, ps, None)"
    by (simp add: getFutureRuns_def filtered_runs_def res)
  moreover have "set ?runs = {s. \<exists>k r. tables db runs_table k = Some r \<and> future_row E u r \<and>
      s = enriched E db (project runs_table run_select r)}"
  proof -
    have "?runs = rev ?future" using bound by (auto simp: last_reversed_def)
    then have "x \<in> set ?runs \<longleftrightarrow> (\<exists>m. m \<in> set ?rest \<and> x = enriched E db m \<and> is_future E (enriched E db m))" for x
      by auto
    then show ?thesis unfolding rest_row using fut parent by (intro set_eqI) (simp, metis)
  qed
  ultimately show thesis using res(2) that by blast
qed

end

lemma set_delete_runs:
  "st \<in> set (delete_runs s runs) \<longleftrightarrow> (\<exists>run \<in> set runs. st = deleteFromRuns s run \<or> st = deleteFromSchedule run)"
  by (auto simp: delete_runs_def)

text \<open>The effect of a batch that updates the recurring tables and then deletes runs.\<close>

lemma delete_runs_effect:
  assumes pre: "\<forall>st \<in> set pre. stmt_table st \<in> {by_id, by_partition}"
    and T': "T' = apply_batch (pre @ delete_runs s runs) T"
  shows "T' runs_table k =
      (case T runs_table k of None \<Rightarrow> None
       | Some r \<Rightarrow> if \<exists>run \<in> set runs. r ''schedule_time_group'' = Some (millis (ScheduleGroup run)) \<and>
             r ''parent_schedule_id'' = Some (VUuid (ScheduleId s)) then None else Some r)"
    and "T' ''schedules'' k =
      (case T ''schedules'' k of None \<Rightarrow> None
       | Some r \<Rightarrow> if \<exists>run \<in> set runs. r ''app_id'' = Some (VText (AppId run)) \<and>
             r ''partition_id'' = Some (VInt (PartitionId run)) \<and>
             r ''schedule_time_group'' = Some (millis (ScheduleGroup run)) \<and>
             r ''schedule_id'' = Some (VUuid (ScheduleId run)) then None else Some r)"
    and "t \<in> {by_id, by_partition} \<Longrightarrow> T' t = apply_batch pre T t"
proof -
  have ne: "by_id \<noteq> runs_table" "by_partition \<noteq> runs_table" "by_id \<noteq> ''schedules''" "by_partition \<noteq> ''schedules''"
      "runs_table \<noteq> ''schedules''"
    by (simp_all add: by_id_def by_partition_def runs_table_def)
  have tabs: "stmt_table st = runs_table \<or> stmt_table st = ''schedules''" if "st \<in> set (delete_runs s runs)" for st
    using that by (auto simp: set_delete_runs deleteFromRuns_def deleteFromSchedule_def runs_table_def)
  have only: "\<forall>st \<in> set (pre @ delete_runs s runs). stmt_table st = t \<longrightarrow> (\<exists>eqs. st = DeleteFrom t eqs)"
    if "t = runs_table \<or> t = ''schedules''" for t
    using that pre ne by (auto simp: set_delete_runs deleteFromRuns_def deleteFromSchedule_def)
  have mem: "DeleteFrom t eqs \<in> set (pre @ delete_runs s runs) \<longleftrightarrow>
      (\<exists>run \<in> set runs. DeleteFrom t eqs = deleteFromRuns s run \<or> DeleteFrom t eqs = deleteFromSchedule run)"
    if "t = runs_table \<or> t = ''schedules''" for t eqs
    using that pre ne by (force simp: set_delete_runs)
  show "T' runs_table k =
      (case T runs_table k of None \<Rightarrow> None
       | Some r \<Rightarrow> if \<exists>run \<in> set runs. r ''schedule_time_group'' = Some (millis (ScheduleGroup run)) \<and>
             r ''parent_schedule_id'' = Some (VUuid (ScheduleId s)) then None else Some r)"
    unfolding T' apply_batch_deletes [OF only [OF disjI1 [OF refl]]] mem [OF disjI1 [OF refl]]
    using ne(5) by (auto simp: deleteFromRuns_def deleteFromSchedule_def eq_matches_def runs_table_def
        split: option.splits)
  show "T' ''schedules'' k =
      (case T ''schedules'' k of None \<Rightarrow> None
       | Some r \<Rightarrow> if \<exists>run \<in> set runs. r ''app_id'' = Some (VText (AppId run)) \<and>
             r ''partition_id'' = Some (VInt (PartitionId run)) \<and>
             r ''schedule_time_group'' = Some (millis (ScheduleGroup run)) \<and>
             r ''schedule_id'' = Some (VUuid (ScheduleId run)) then None else Some r)"
    unfolding T' apply_batch_deletes [OF only [OF disjI2 [OF refl]]] mem [OF disjI2 [OF refl]]
    using ne(5) by (auto simp: deleteFromRuns_def deleteFromSchedule_def eq_matches_def runs_table_def
        split: option.splits)
  have "stmt_table st \<noteq> t" if "t \<in> {by_id, by_partition}" "st \<in> set (delete_runs s runs)" for st
    using tabs [OF that(2)] that(1) ne by auto
  then show "t \<in> {by_id, by_partition} \<Longrightarrow> T' t = apply_batch pre T t"
    unfolding T' apply_batch_append by (intro apply_batch_frame) blast
qed

lemma status_updates_effect:
  "\<forall>st' \<in> set (status_updates s st). stmt_table st' \<in> {by_id, by_partition}"
  "\<exists>r. apply_batch (status_updates s st) T by_id [VUuid (ScheduleId s)] = Some r \<and> r ''status'' = Some (VText st)"
  "\<exists>r. apply_batch (status_updates s st) T by_partition
      [VInt (PartitionId s), VUuid (ScheduleId s), VText (AppId s)] = Some r \<and> r ''status'' = Some (VText st)"
  by (simp_all add: status_updates_def by_id_def by_partition_def apply_batch_def upsert_def Let_def key_of_def
      primary_key_def)

text \<open>The rows a paused or updated schedule leaves: no future run, every other run.\<close>

definition future_runs_removed :: "'db env \<Rightarrow> uuid \<Rightarrow> tables \<Rightarrow> tables \<Rightarrow> bool" where
  "future_runs_removed E u T T' \<longleftrightarrow>
     (\<forall>k. T' runs_table k =
        (case T runs_table k of None \<Rightarrow> None | Some r \<Rightarrow> if future_row E u r then None else Some r)) \<and>
     (\<forall>k r k' r'. T runs_table k = Some r \<and> future_row E u r \<and> T' ''schedules'' k' = Some r' \<longrightarrow>
        (\<exists>c \<in> {''app_id'', ''partition_id'', ''schedule_time_group'', ''schedule_id''}. r' c \<noteq> r c))"

context cassandra
begin

lemma future_runs_removedI:
  assumes E: "env_Session E = sess" and ok: "reads_runs E (ScheduleId s) db"
    and rows: "\<And>k r. tables db runs_table k = Some r \<Longrightarrow>
      r ''parent_schedule_id'' = Some (VUuid (ScheduleId s)) \<Longrightarrow> run_row E db r"
    and pre: "\<forall>st \<in> set pre. stmt_table st \<in> {by_id, by_partition}"
  obtains runs where "getFutureRuns E (ScheduleId s) (- 1) [] db = Ret (runs, [], None)"
    "future_runs_removed E (ScheduleId s) (tables db) (apply_batch (pre @ delete_runs s runs) (tables db))"
proof -
  obtain runs where runs: "getFutureRuns E (ScheduleId s) (- 1) [] db = Ret (runs, [], None)"
    "set runs = {x. \<exists>k r. tables db runs_table k = Some r \<and> future_row E (ScheduleId s) r \<and>
                        x = enriched E db (project runs_table run_select r)}"
    by (rule getFutureRuns_rows [OF E ok, of "- 1"]) (erule (1) rows, simp_all)
  define T' where "T' = apply_batch (pre @ delete_runs s runs) (tables db)"
  have run: "r ''app_id'' = Some (VText (AppId x)) \<and> r ''partition_id'' = Some (VInt (PartitionId x)) \<and>
      r ''schedule_id'' = Some (VUuid (ScheduleId x)) \<and> r ''schedule_time_group'' = Some (millis (ScheduleGroup x)) \<and>
      in64 (ScheduleGroup x * 1000)"
    if "tables db runs_table k = Some r" "future_row E (ScheduleId s) r"
      "x = enriched E db (project runs_table run_select r)" for k r x
    using enriched_run [OF rows [OF that(1)] that(3)] that(2) by (simp add: future_row_def)
  have hit: "(\<exists>x \<in> set runs. r ''schedule_time_group'' = Some (millis (ScheduleGroup x)) \<and>
      r ''parent_schedule_id'' = Some (VUuid (ScheduleId s))) \<longleftrightarrow> future_row E (ScheduleId s) r"
    if r: "tables db runs_table k = Some r" for k r
  proof
    assume "\<exists>x \<in> set runs. r ''schedule_time_group'' = Some (millis (ScheduleGroup x)) \<and>
      r ''parent_schedule_id'' = Some (VUuid (ScheduleId s))"
    then obtain x k' r' where x: "r ''schedule_time_group'' = Some (millis (ScheduleGroup x))"
        "r ''parent_schedule_id'' = Some (VUuid (ScheduleId s))" "tables db runs_table k' = Some r'"
        "future_row E (ScheduleId s) r'" "x = enriched E db (project runs_table run_select r')"
      unfolding runs(2) by blast
    with run [OF x(3,4,5)] show "future_row E (ScheduleId s) r" by (auto simp: future_row_def)
  next
    assume f: "future_row E (ScheduleId s) r"
    let ?x = "enriched E db (project runs_table run_select r)"
    have "?x \<in> set runs" using r f unfolding runs(2) by blast
    with run [OF r f refl] f show "\<exists>x \<in> set runs. r ''schedule_time_group'' = Some (millis (ScheduleGroup x)) \<and>
        r ''parent_schedule_id'' = Some (VUuid (ScheduleId s))"
      by (auto simp: future_row_def)
  qed
  note effect = delete_runs_effect [OF pre T'_def]
  have "T' runs_table k = (case tables db runs_table k of None \<Rightarrow> None
      | Some r \<Rightarrow> if future_row E (ScheduleId s) r then None else Some r)" for k
    unfolding effect(1) using hit by (auto split: option.splits)
  moreover have "\<exists>c \<in> {''app_id'', ''partition_id'', ''schedule_time_group'', ''schedule_id''}. r' c \<noteq> r c"
    if r: "tables db runs_table k = Some r" "future_row E (ScheduleId s) r" and r': "T' ''schedules'' k' = Some r'"
    for k r k' r'
  proof (rule ccontr)
    assume "\<not> ?thesis"
    then have "r' ''app_id'' = r ''app_id'' \<and> r' ''partition_id'' = r ''partition_id'' \<and>
        r' ''schedule_time_group'' = r ''schedule_time_group'' \<and> r' ''schedule_id'' = r ''schedule_id''" by blast
    moreover have "enriched E db (project runs_table run_select r) \<in> set runs"
      using r unfolding runs(2) by blast
    ultimately show False
      using r' run [OF r refl] unfolding effect(2) by (auto split: option.splits if_splits)
  qed
  ultimately have "future_runs_removed E (ScheduleId s) (tables db) T'"
    unfolding future_runs_removed_def by blast
  with runs(1) show thesis unfolding T'_def by (rule that)
qed

end

end
