(* ===== verification/ScheduleDaoProperties.thy ===== *)
theory ScheduleDaoProperties
  imports ScheduleDaoFacts
begin

text \<open>
  The properties of the schedule data access object that concern the runs of recurring
  schedules: paging, pausing, updating and deleting.
\<close>

section \<open>Pausing and updating a recurring schedule\<close>

definition runs_well_formed :: "'db env \<Rightarrow> 'db \<Rightarrow> table \<Rightarrow> uuid \<Rightarrow> bool" where
  "runs_well_formed E db T u \<longleftrightarrow>
     (\<forall>k r. T k = Some r \<longrightarrow> r ''parent_schedule_id'' = Some (VUuid u) \<longrightarrow> run_row E db r)"

lemma UpdateRecurringScheduleStatus_paused:
  assumes "getFutureRuns E (ScheduleId s) (- 1) [] db = Ret (runs, ps, None)"
    and "ExecuteBatch (env_Session E) (status_updates s Paused @ delete_runs s runs) db = (err, db')"
  shows "UpdateRecurringScheduleStatus E s Paused db = Ret ((s\<lparr>Status := Paused\<rparr>, err), db')"
  using assms by (simp add: UpdateRecurringScheduleStatus_def)

lemma pause_effect:
  assumes "cassandra sess tables rest pages_left" and "env_Session E = sess"
    and "reads_runs E (ScheduleId s) db"
    and "runs_well_formed E db (tables db runs_table) (ScheduleId s)"
  shows "\<exists>err db'. UpdateRecurringScheduleStatus E s Paused db = Ret ((s\<lparr>Status := Paused\<rparr>, err), db') \<and>
    (err = None \<longrightarrow>
       future_runs_removed E (ScheduleId s) (tables db) (tables db') \<and>
       (\<exists>r. tables db' by_id [VUuid (ScheduleId s)] = Some r \<and> r ''status'' = Some (VText Paused)) \<and>
       (\<exists>r. tables db' by_partition [VInt (PartitionId s), VUuid (ScheduleId s), VText (AppId s)] = Some r \<and>
            r ''status'' = Some (VText Paused)))"
proof -
  let ?pre = "status_updates s Paused"
  obtain runs where runs: "getFutureRuns E (ScheduleId s) (- 1) [] db = Ret (runs, [], None)"
      "future_runs_removed E (ScheduleId s) (tables db) (apply_batch (?pre @ delete_runs s runs) (tables db))"
    using cassandra.future_runs_removedI [OF assms(1,2,3) _ status_updates_effect(1) [of s Paused]] assms(4)
    unfolding runs_well_formed_def by blast
  obtain err db' where exec: "ExecuteBatch sess (?pre @ delete_runs s runs) db = (err, db')" by fastforce
  then have T: "tables db' = apply_batch (?pre @ delete_runs s runs) (tables db)" if "err = None"
    using cassandra.batch_ok [OF assms(1)] that by blast
  have "tables db' t = apply_batch ?pre (tables db) t" if "err = None" "t \<in> {by_id, by_partition}" for t
    using delete_runs_effect(3) [OF status_updates_effect(1) T] that by blast
  then have "future_runs_removed E (ScheduleId s) (tables db) (tables db') \<and>
       (\<exists>r. tables db' by_id [VUuid (ScheduleId s)] = Some r \<and> r ''status'' = Some (VText Paused)) \<and>
       (\<exists>r. tables db' by_partition [VInt (PartitionId s), VUuid (ScheduleId s), VText (AppId s)] = Some r \<and>
            r ''status'' = Some (VText Paused))" if "err = None"
    using runs(2) T that status_updates_effect(2,3) [of s Paused "tables db"] by simp
  with UpdateRecurringScheduleStatus_paused [OF runs(1)] exec assms(2) show ?thesis by blast
qed

text \<open>
  C13. Pausing a recurring schedule returns it with the status \<open>PAUSED\<close>. When the session reported
  no error, both tables of recurring schedules have that status, no run of the schedule in the
  future is left in the table of runs or in the table from which the pollers fire, and every
  other run is still there.
\<close>

theorem pause_removes_future_runs:
  assumes "cassandra sess tables rest pages_left" and "env_Session E = sess"
    and "reads_runs E (ScheduleId s) db"
    and "runs_well_formed E db (tables db runs_table) (ScheduleId s)"
  shows "\<exists>err db'. UpdateRecurringScheduleStatus E s Paused db = Ret ((s\<lparr>Status := Paused\<rparr>, err), db') \<and>
    (err = None \<longrightarrow>
       future_runs_removed E (ScheduleId s) (tables db) (tables db') \<and>
       (\<exists>r. tables db' by_id [VUuid (ScheduleId s)] = Some r \<and> r ''status'' = Some (VText Paused)) \<and>
       (\<exists>r. tables db' by_partition [VInt (PartitionId s), VUuid (ScheduleId s), VText (AppId s)] = Some r \<and>
            r ''status'' = Some (VText Paused)))"
  by (rule pause_effect [OF assms])

text \<open>A database with a recurring schedule and two runs, one in the past and one in the future.\<close>

definition sample_run :: "nat \<Rightarrow> int64 \<Rightarrow> Schedule" where
  "sample_run n t = (CloneAsOneTime (replicate 15 0 @ [word_of_nat n]) (from_Unix t) sample_recurring)"

definition sample_db :: mem where
  "sample_db =
     fold (\<lambda>s db. case CreateRun sample_env s sample_app db of Ret (_, db') \<Rightarrow> db' | _ \<Rightarrow> db)
       [sample_run 1 600, sample_run 2 1200] empty_mem"

lemma sample_env_session [simp]: "env_Session sample_env = mem_session"
  by (simp add: sample_env_def)

lemma sample_reads: "reads_runs sample_env u db"
  by (simp add: reads_runs_def mem_session_def mem_page_def Let_def)

definition sample_runs_ok :: "mem \<Rightarrow> bool" where
  "sample_runs_ok db \<longleftrightarrow> (\<forall>(k, r) \<in> set (db runs_table).
     list_ex (\<lambda>g. map_of r ''schedule_time_group'' = Some (millis g) \<and> in64 (g * 1000)) [600, 1200] \<and>
     map_of r ''app_id'' = Some (VText ''app'') \<and> map_of r ''partition_id'' = Some (VInt 0) \<and>
     list_ex (\<lambda>u. map_of r ''schedule_id'' = Some (VUuid u)) [replicate 15 0 @ [1], replicate 15 0 @ [2]] \<and>
     readable sample_env db (project runs_table run_select (map_of r)))"

lemma sample_runs_ok: "sample_runs_ok sample_db"
  by code_simp

lemma mem_runs_well_formed:
  assumes "sample_runs_ok db"
  shows "runs_well_formed sample_env db (mem_tables db runs_table) u"
  unfolding runs_well_formed_def
proof (intro allI impI)
  fix k r assume "mem_tables db runs_table k = Some r"
  then obtain cols where cols: "map_of (db runs_table) k = Some cols" "r = map_of cols"
    by (auto simp: mem_tables_def)
  from assms [unfolded sample_runs_ok_def] map_of_SomeD [OF cols(1)]
  have "list_ex (\<lambda>g. r ''schedule_time_group'' = Some (millis g) \<and> in64 (g * 1000)) [600, 1200] \<and>
     r ''app_id'' = Some (VText ''app'') \<and> r ''partition_id'' = Some (VInt 0) \<and>
     list_ex (\<lambda>u. r ''schedule_id'' = Some (VUuid u)) [replicate 15 0 @ [1], replicate 15 0 @ [2]] \<and>
     readable sample_env db (project runs_table run_select r)"
    unfolding cols(2) by blast
  then show "run_row sample_env db r"
    unfolding run_row_def list_ex_iff by blast
qed

lemmas sample_runs_well_formed = mem_runs_well_formed [OF sample_runs_ok]

theorem pause_removes_future_runs_witness:
  "\<exists>err db'. UpdateRecurringScheduleStatus sample_env sample_recurring Paused sample_db =
      Ret ((sample_recurring\<lparr>Status := Paused\<rparr>, err), db') \<and>
    (err = None \<longrightarrow>
       future_runs_removed sample_env (ScheduleId sample_recurring) (mem_tables sample_db) (mem_tables db') \<and>
       (\<exists>r. mem_tables db' by_id [VUuid (ScheduleId sample_recurring)] = Some r \<and> r ''status'' = Some (VText Paused)) \<and>
       (\<exists>r. mem_tables db' by_partition
              [VInt (PartitionId sample_recurring), VUuid (ScheduleId sample_recurring), VText (AppId sample_recurring)] =
              Some r \<and> r ''status'' = Some (VText Paused)))"
  by (rule pause_removes_future_runs
        [OF mem.cassandra_axioms sample_env_session sample_reads sample_runs_well_formed])

text \<open>
  C14. Updating a recurring schedule writes its new payload, callback and cron expression to both
  tables and removes its runs in the future, so that the poller plans them again from the new
  expression.
\<close>

theorem update_recurring_replans:
  assumes "cassandra sess tables rest pages_left" and "env_Session E = sess"
    and "storable (env_Registry E) s"
    and "reads_runs E (ScheduleId s) db"
    and "runs_well_formed E db (tables db runs_table) (ScheduleId s)"
  shows "\<exists>err db' ct cd. UpdateRecurringSchedule E s db = Ret ((s, err), db') \<and>
    GetCallBackType s = Ret ct \<and> GetCallbackDetails s = Ret cd \<and>
    (err = None \<longrightarrow>
       future_runs_removed E (ScheduleId s) (tables db) (tables db') \<and>
       (\<exists>r. tables db' by_id [VUuid (ScheduleId s)] = Some r \<and>
            (\<forall>(c, v) \<in> set (recurring_columns s ct cd (Status s)). r c = Some v)) \<and>
       (\<exists>r. tables db' by_partition [VInt (PartitionId s), VUuid (ScheduleId s), VText (AppId s)] = Some r \<and>
            (\<forall>(c, v) \<in> set (recurring_columns s ct cd (Status s)). r c = Some v)))"
proof -
  obtain h z where "Callback s = Some (HttpCallback h)" using assms(3) by (rule storableE)
  then obtain batch where batch: "recurring_batch s (Status s) = Ret batch"
    using recurring_batch_returns [of s "HttpCallback h" "Status s"] by blast
  then have tabs: "\<forall>st \<in> set batch. stmt_table st \<in> {by_id, by_partition}"
    by (auto simp: recurring_batch_def bind_go_eq_Ret by_id_def by_partition_def)
  obtain runs where runs: "getFutureRuns E (ScheduleId s) (- 1) [] db = Ret (runs, [], None)"
      "future_runs_removed E (ScheduleId s) (tables db) (apply_batch (batch @ delete_runs s runs) (tables db))"
    using cassandra.future_runs_removedI [OF assms(1,2,4) _ tabs] assms(5) unfolding runs_well_formed_def by blast
  obtain err db' where exec: "ExecuteBatch sess (batch @ delete_runs s runs) db = (err, db')" by fastforce
  have upd: "UpdateRecurringSchedule E s db = Ret ((s, err), db')"
    using batch runs(1) exec assms(2) by (simp add: UpdateRecurringSchedule_def)
  obtain ct cd r r' where r: "GetCallBackType s = Ret ct" "GetCallbackDetails s = Ret cd"
    "apply_batch batch (tables db) by_id [VUuid (ScheduleId s)] = Some r"
    "\<forall>(c, v) \<in> set (recurring_columns s ct cd (Status s)). r c = Some v"
    "apply_batch batch (tables db) by_partition
       [VInt (PartitionId s), VUuid (ScheduleId s), VText (AppId s)] = Some r'"
    "\<forall>(c, v) \<in> set (recurring_columns s ct cd (Status s)). r' c = Some v"
    by (rule recurring_rows [OF batch, of "tables db"]) blast
  have "future_runs_removed E (ScheduleId s) (tables db) (tables db') \<and>
      tables db' by_id [VUuid (ScheduleId s)] = Some r \<and>
      tables db' by_partition [VInt (PartitionId s), VUuid (ScheduleId s), VText (AppId s)] = Some r'" if "err = None"
  proof -
    have T: "tables db' = apply_batch (batch @ delete_runs s runs) (tables db)"
      using cassandra.batch_ok [OF assms(1)] exec that by blast
    have "tables db' t = apply_batch batch (tables db) t" if "t \<in> {by_id, by_partition}" for t
      using delete_runs_effect(3) [OF tabs T that] .
    then show ?thesis using runs(2) T r(3,5) by simp
  qed
  with upd r(1,2,4,6) show ?thesis by blast
qed

theorem update_recurring_replans_witness:
  "\<exists>err db' ct cd. UpdateRecurringSchedule sample_env sample_recurring sample_db = Ret ((sample_recurring, err), db') \<and>
    GetCallBackType sample_recurring = Ret ct \<and> GetCallbackDetails sample_recurring = Ret cd \<and>
    (err = None \<longrightarrow>
       future_runs_removed sample_env (ScheduleId sample_recurring) (mem_tables sample_db) (mem_tables db') \<and>
       (\<exists>r. mem_tables db' by_id [VUuid (ScheduleId sample_recurring)] = Some r \<and>
            (\<forall>(c, v) \<in> set (recurring_columns sample_recurring ct cd (Status sample_recurring)). r c = Some v)) \<and>
       (\<exists>r. mem_tables db' by_partition
              [VInt (PartitionId sample_recurring), VUuid (ScheduleId sample_recurring), VText (AppId sample_recurring)] =
              Some r \<and>
            (\<forall>(c, v) \<in> set (recurring_columns sample_recurring ct cd (Status sample_recurring)). r c = Some v)))"
  by (rule update_recurring_replans
        [OF mem.cassandra_axioms sample_env_session _ sample_reads sample_runs_well_formed])
     (simp add: sample_env_def sample_recurring_def sample_defs storable_def wf_headers_def)

section \<open>Deleting a recurring schedule\<close>

text \<open>
  Deleting a recurring schedule marks it \<open>DELETED\<close> in both tables, but the table of its runs
  stays as it is: the runs in the future that are no longer going to fire are still listed.
\<close>

theorem delete_recurring_keeps_run_rows:
  assumes "cassandra sess tables rest pages_left" and "env_Session E = sess"
    and "deleteRecurringSchedule E s db = Ret ((s', None), db')"
  shows "tables db' runs_table = tables db runs_table \<and> Status s' = Deleted \<and>
    (\<exists>r. tables db' by_id [VUuid (ScheduleId s)] = Some r \<and> r ''status'' = Some (VText Deleted)) \<and>
    (\<exists>r. tables db' by_partition [VInt (PartitionId s), VUuid (ScheduleId s), VText (AppId s)] = Some r \<and>
         r ''status'' = Some (VText Deleted))"
proof -
  from assms(2,3) obtain runs where
      exec: "ExecuteBatch sess (status_updates s Deleted @ map deleteFromSchedule runs) db = (None, db')"
      and s': "s' = s\<lparr>Status := Deleted\<rparr>"
    by (auto simp: deleteRecurringSchedule_def bind_go_eq_Ret split: if_splits prod.splits)
  then have T: "tables db' = apply_batch (map deleteFromSchedule runs) (apply_batch (status_updates s Deleted) (tables db))"
    using cassandra.batch_ok [OF assms(1)] by (simp add: apply_batch_append)
  have ne: "by_id \<noteq> ''schedules''" "by_partition \<noteq> ''schedules''" "runs_table \<noteq> ''schedules''"
      "by_id \<noteq> runs_table" "by_partition \<noteq> runs_table"
    by (simp_all add: by_id_def by_partition_def runs_table_def)
  have frame: "tables db' t = apply_batch (status_updates s Deleted) (tables db) t" if "t \<noteq> ''schedules''" for t
    unfolding T using that by (intro apply_batch_frame) (auto simp: deleteFromSchedule_def)
  moreover have "apply_batch (status_updates s Deleted) (tables db) runs_table = tables db runs_table"
    using status_updates_effect(1) [of s Deleted] ne(4,5) by (intro apply_batch_frame) auto
  ultimately show ?thesis
    using ne status_updates_effect(2,3) [of s Deleted "tables db"] by (simp add: s')
qed

lemma sample_deletes:
  "\<exists>db'. deleteRecurringSchedule sample_env sample_recurring sample_db =
     Ret ((sample_recurring\<lparr>Status := Deleted\<rparr>, None), db')"
proof -
  have rows: "run_row sample_env sample_db r" if "mem_tables sample_db runs_table k = Some r"
      "r ''parent_schedule_id'' = Some (VUuid u)" for k r u
    using sample_runs_well_formed [of u] that unfolding runs_well_formed_def by blast
  have "\<exists>runs. getFutureRuns sample_env (ScheduleId sample_recurring) (- 1) [] sample_db = Ret (runs, [], None)"
    by (rule mem.getFutureRuns_rows [OF sample_env_session sample_reads, of _ _ "- 1"]) (erule (1) rows, auto)
  then show ?thesis by (auto simp: deleteRecurringSchedule_def mem_session_def)
qed

theorem delete_recurring_keeps_run_rows_witness:
  "\<exists>db'. mem_tables db' runs_table = mem_tables sample_db runs_table \<and>
    deleteRecurringSchedule sample_env sample_recurring sample_db = Ret ((sample_recurring\<lparr>Status := Deleted\<rparr>, None), db')"
proof -
  obtain db' where d: "deleteRecurringSchedule sample_env sample_recurring sample_db =
      Ret ((sample_recurring\<lparr>Status := Deleted\<rparr>, None), db')"
    using sample_deletes by blast
  with delete_recurring_keeps_run_rows [OF mem.cassandra_axioms sample_env_session d] show ?thesis by blast
qed

section \<open>Errors and termination of the paging loops\<close>


text \<open>A session in memory whose pages of runs cannot be read.\<close>

definition broken_session :: "mem session" where
  "broken_session = mem_session\<lparr>IterPage := (\<lambda>q ps n db. ([], [], Some (Err ''timeout'')))\<rparr>"

lemma broken_session_laws: "cassandra broken_session mem_tables mem_rest (\<lambda>q db ps. 0)"
proof unfold_locales
  fix q :: query and db rows
  show "answers q (mem_tables db) (mem_rest q db [])" by (rule mem.rest_start)
  show "Iter broken_session q db = (rows, None) \<Longrightarrow> answers q (mem_tables db) rows"
    using mem.iter_ok [of q db rows] by (simp add: broken_session_def)
qed (use mem.exec_ok mem.batch_ok mem.scan_row mem.scan_none in \<open>simp_all add: broken_session_def\<close>)


subsection \<open>The loops end\<close>

text \<open>
  C17. Listing the runs of a schedule always comes to an end, whatever number of pages the
  database delivers, and lists no more runs than were asked for.
\<close>

theorem GetScheduleRuns_ends:
  assumes "cassandra sess tables rest pages_left" and "env_Session E = sess" and "0 \<le> sz"
  shows "case GetScheduleRuns E uuid sz when ps db of
      Ret (runs, ps', e) \<Rightarrow> int (length runs) \<le> sz | Panic m \<Rightarrow> True | Diverge \<Rightarrow> False"
proof -
  have one: "filtered_runs E uuid sz filt ps db \<noteq> Diverge \<and>
      (\<forall>runs ps'. filtered_runs E uuid sz filt ps db = Ret (runs, ps') \<longrightarrow> int (length runs) \<le> sz)" for filt
  proof -
    obtain r where "getFilteredRuns E uuid sz filt db [] ps = Some r" "r \<noteq> Diverge"
        "\<forall>schs ps'. r = Ret (schs, ps') \<longrightarrow> int (length schs) \<le> sz"
      using cassandra.getFilteredRuns_returns [OF assms(1,2), of uuid sz filt db "[]" ps] assms(3) by auto
    then show ?thesis by (simp add: filtered_runs_def)
  qed
  show ?thesis
    using one [of "\<lambda>s. True"] one [of "is_future E"] one [of "\<lambda>s. from_Unix (ScheduleGroup s) < env_Now E"] assms(3)
    by (auto simp: GetScheduleRuns_def getPastRuns_def getFutureRuns_def getAllRuns_def bind_go_Diverge bind_go_eq_Ret
        last_reversed_def split: go.splits)
qed

theorem GetScheduleRuns_ends_witness:
  "case GetScheduleRuns sample_env (ScheduleId sample_recurring) 1 ''future'' [] sample_db of
     Ret (runs, ps', e) \<Rightarrow> int (length runs) \<le> 1 | Panic m \<Rightarrow> True | Diverge \<Rightarrow> False"
  by (rule GetScheduleRuns_ends [OF mem.cassandra_axioms sample_env_session]) simp

context cassandra
begin

lemma getFilteredSchedules_loop_returns:
  assumes "env_Session E = sess" and "snd interval \<le> endTime"
  shows "\<exists>r. getFilteredSchedules_loop E appId parts endTime sz filt db interval ps acc out cont = Some r \<and> r \<noteq> Diverge"
  using assms(2)
proof (induction "if fst interval = snd interval then 0 else 1 + nat (endTime - snd interval)"
    arbitrary: interval ps acc out cont rule: less_induct)
  case less
  note outer = less.hyps and le = less.prems
  show ?case
  proof (cases "fst interval = snd interval")
    case True
    then show ?thesis by (subst getFilteredSchedules_loop.simps) simp
  next
    case ne: False
    let ?q = "schedules_query appId parts interval"
    show ?thesis
    proof (induction "pages_left ?q db ps" arbitrary: ps acc out cont rule: less_induct)
      case less
      obtain rows next' cerr where page:
          "getSchedules E appId parts interval ps (wrap64 (sz - int (length acc))) db = (rows, next', cerr)"
        by (cases "getSchedules E appId parts interval ps (wrap64 (sz - int (length acc))) db") auto
      have same: "\<exists>r. getFilteredSchedules_loop E appId parts endTime sz filt db interval next' acc' next' (fst interval) = Some r \<and> r \<noteq> Diverge"
        if "cerr = None" "next' \<noteq> []" for acc'
        using page that assms(1) by (intro less page_progress [of ?q ps]) (auto simp: getSchedules_def)
      have new: "\<exists>r. getFilteredSchedules_loop E appId parts endTime sz filt db
          (snd interval, next_end endTime (snd interval)) [] acc' [] (fst interval) = Some r \<and> r \<noteq> Diverge" for acc'
        using le ne by (intro outer) (auto simp: next_end_def hour_ns_def minute_ns_def second_def)
      show ?case
        by (subst getFilteredSchedules_loop.simps)
           (auto simp: ne page same new write_rows_no_Diverge split: go.splits)
    qed
  qed
qed

end

lemma next_end_le: "next_end e s \<le> e"
  by (simp add: next_end_def)

lemma getFilteredSchedules_ends:
  assumes "cassandra sess tables rest pages_left" and "env_Session E = sess"
  shows "getFilteredSchedules E appId partitions timeRange sz filt ps cont db \<noteq> Diverge"
proof -
  define start where "start = (if Unix cont \<noteq> 0 then cont else fst timeRange)"
  obtain r where r: "getFilteredSchedules_loop E appId (map int [0..<nat partitions]) (snd timeRange) sz filt db
      (start, next_end (snd timeRange) start) ps [] ps cont = Some r" "r \<noteq> Diverge"
    using cassandra.getFilteredSchedules_loop_returns [OF assms, of "(start, next_end (snd timeRange) start)"
        "snd timeRange"] next_end_le by fastforce
  then show ?thesis by (simp add: getFilteredSchedules_def Let_def start_def)
qed

text \<open>
  C18. The search for the schedules of an app in a time range always comes to an end, for every
  range, page state and continuation time a client sends.
\<close>

theorem GetPaginatedSchedules_ends:
  assumes "cassandra sess tables rest pages_left" and "env_Session E = sess"
  shows "GetPaginatedSchedules E appId partitions timeRange sz status ps cont db \<noteq> Diverge"
  using getFilteredSchedules_ends [OF assms]
  by (simp add: GetPaginatedSchedules_def getPaginatedSchedulesByStatus_def bind_go_Diverge case_prod_beta)

theorem GetPaginatedSchedules_ends_witness:
  "GetPaginatedSchedules sample_env ''app'' 5 (0, 3 * hour_ns) 10 Scheduled [] 0 sample_db \<noteq> Diverge"
  by (rule GetPaginatedSchedules_ends [OF mem.cassandra_axioms sample_env_session])

end
