(* ===== verification/EnrichProperties.thy ===== *)
theory EnrichProperties
  imports Aggregate ScheduleDaoProperties
begin

text \<open>
  Reading the statuses of many schedules with one query (\<open>OptimizedEnrichSchedule\<close>) gives the same schedules as reading
  them one by one (\<open>EnrichSchedule\<close>), up to their order.
\<close>

section \<open>The rows of the bulk query\<close>

definition row_uuid :: "row \<Rightarrow> uuid" where
  "row_uuid m = (case map_of m ''schedule_id'' of Some (VUuid u) \<Rightarrow> u | _ \<Rightarrow> zero_uuid)"

definition by_uuid :: "(uuid \<times> Schedule) list \<Rightarrow> uuid \<Rightarrow> Schedule" where
  "by_uuid ids u = (case map_of ids u of Some s \<Rightarrow> s | None \<Rightarrow> empty_schedule)"

definition with_status :: "row \<Rightarrow> Schedule \<Rightarrow> Schedule" where
  "with_status m s = (case SetStatus m s of Ret (s', _) \<Rightarrow> s' | _ \<Rightarrow> s)"

lemma enrich_rows_ok:
  assumes "enrich_rows ids rows acc found = Ret (acc', found', None)"
  shows "acc' = acc @ map (\<lambda>m. with_status m (by_uuid ids (row_uuid m))) rows \<and>
    found' = found @ map row_uuid rows"
  using assms
proof (induction rows arbitrary: acc found)
  case (Cons m rows)
  from Cons.prems obtain u s where u: "map_of m ''schedule_id'' = Some (VUuid u)"
      "SetStatus m (by_uuid ids u) = Ret (s, None)" "enrich_rows ids rows (acc @ [s]) (found @ [u]) = Ret (acc', found', None)"
    by (auto simp: bind_go_eq_Ret by_uuid_def as_Ret split: if_splits)
  with Cons.IH [OF u(3)] show ?case by (simp add: row_uuid_def with_status_def)
qed simp

lemma idToSchedule_distinct:
  assumes "distinct (map ScheduleId schs)"
  shows "idToSchedule schs = map (\<lambda>s. (ScheduleId s, s)) schs"
proof -
  have "fold (\<lambda>s. put_assoc (ScheduleId s) s) schs acc = acc @ map (\<lambda>s. (ScheduleId s, s)) schs"
    if "distinct (map fst acc @ map ScheduleId schs)" for acc :: "(uuid \<times> Schedule) list"
    using that by (induction schs arbitrary: acc) (auto simp: put_assoc_fresh)
  from this [of "[]"] assms show ?thesis by (simp add: idToSchedule_def)
qed

text \<open>The additional column of the bulk query does not matter to \<open>SetStatus\<close>.\<close>

abbreviation status_select :: "string list" where
  "status_select \<equiv> [''schedule_status'', ''error_msg'', ''reconciliation_history'']"

lemma SetStatus_project: "SetStatus (project t (''schedule_id'' # status_select) r) s = SetStatus (project t status_select r) s"
  by (simp add: SetStatus_def project_def)

section \<open>One by one\<close>

definition status_conds :: "Schedule \<Rightarrow> cond list" where
  "status_conds s = [Eq ''app_id'' (VText (AppId s)), Eq ''partition_id'' (VInt (PartitionId s)), Eq ''schedule_id'' (VUuid (ScheduleId s))]"

lemma status_conds_key:
  assumes "status_keyed T" and "T k = Some r"
  shows "list_all (\<lambda>c. cond_holds c r) (status_conds s) \<longleftrightarrow> k = status_key s"
proof -
  from assms obtain a p u where "k = [a, p, u]" "r ''app_id'' = Some a" "r ''partition_id'' = Some p" "r ''schedule_id'' = Some u"
    unfolding status_keyed_def by blast
  then show ?thesis by (auto simp: status_conds_def status_key_def)
qed

definition enriched_by :: "'db env \<Rightarrow> table \<Rightarrow> Schedule \<Rightarrow> Schedule" where
  "enriched_by E T s =
     (case T (status_key s) of
        Some r \<Rightarrow> with_status (project ''status'' status_select r) s
      | None \<Rightarrow> SetUnknownStatus (env_Now E) (FlushPeriod (env_Conf E)) s)"

lemma base_status [simp]: "base_table ''status'' = ''status''"
  by (simp add: base_table_def)

context cassandra
begin

lemma EnrichSchedule_table:
  assumes "env_Session E = sess" and "status_keyed (tables db ''status'')" and "EnrichSchedule E s db = Ret (s', None)"
  shows "s' = enriched_by E (tables db ''status'') s"
proof (cases "tables db ''status'' (status_key s)")
  case None
  have "answers (Select ''status'' status_select (status_conds s)) (tables db) rows \<Longrightarrow> rows = []" for rows
    using answers_set [of "''status''" status_select "status_conds s" "tables db" rows] status_conds_key [OF assms(2)] None
    by (cases rows) (auto, metis option.distinct(1))
  then have "MapScan sess (Select ''status'' status_select (status_conds s)) db \<noteq> Inr m" for m
    using scan_row by fastforce
  with assms(1,3) None show ?thesis
    by (auto simp: EnrichSchedule_def setStatus_def status_conds_def enriched_by_def split: sum.splits if_splits)
next
  case (Some r)
  have "MapScan sess (Select ''status'' status_select (status_conds s)) db = Inr (project ''status'' status_select r) \<or>
      (\<exists>e. MapScan sess (Select ''status'' status_select (status_conds s)) db = Inl e \<and> e \<noteq> ErrNotFound)"
    using status_conds_key [OF assms(2)] Some by (intro scan_unique [of db "''status''" "status_key s" r]) auto
  with assms(1,3) Some show ?thesis
    by (auto simp: EnrichSchedule_def setStatus_def status_conds_def enriched_by_def with_status_def split: if_splits)
qed

text \<open>The bulk query finds, for schedules of one app and partition, the rows that the single queries find, each once.\<close>

lemma bulk_rows_of:
  assumes "status_keyed (tables db ''status'')"
    and "answers (Select ''status'' (''schedule_id'' # status_select)
      [Eq ''app_id'' a, Eq ''partition_id'' p, In ''schedule_id'' (map VUuid us)]) (tables db) rows"
  shows "distinct (map row_uuid rows)"
    and "set (map row_uuid rows) = {u \<in> set us. tables db ''status'' [a, p, VUuid u] \<noteq> None}"
    and "\<forall>m \<in> set rows. \<exists>r. tables db ''status'' [a, p, VUuid (row_uuid m)] = Some r \<and>
      m = project ''status'' (''schedule_id'' # status_select) r"
proof -
  let ?conds = "[Eq ''app_id'' a, Eq ''partition_id'' p, In ''schedule_id'' (map VUuid us)]"
  let ?proj = "project ''status'' (''schedule_id'' # status_select)"
  have match: "list_all (\<lambda>c. cond_holds c r) ?conds \<longleftrightarrow> (\<exists>u \<in> set us. k = [a, p, VUuid u])" if "tables db ''status'' k = Some r" for k r
    using assms(1) that unfolding status_keyed_def by fastforce
  have uuid: "row_uuid (?proj r) = u" if "tables db ''status'' [a, p, VUuid u] = Some r" for u r
    using assms(1) that unfolding status_keyed_def by (fastforce simp: row_uuid_def project_def)
  from assms(2) obtain rs where rs: "distinct (map fst rs)" "rows = map (\<lambda>kr. ?proj (snd kr)) rs"
      "set rs = {(k, r). tables db ''status'' k = Some r \<and> list_all (\<lambda>c. cond_holds c r) ?conds}"
    by (auto simp: answers_def)
  have key: "\<exists>u \<in> set us. fst kr = [a, p, VUuid u] \<and> tables db ''status'' [a, p, VUuid u] = Some (snd kr) \<and> row_uuid (?proj (snd kr)) = u"
    if "kr \<in> set rs" for kr
  proof -
    obtain k r where kr: "kr = (k, r)" by fastforce
    with that rs(3) have r: "tables db ''status'' k = Some r" "list_all (\<lambda>c. cond_holds c r) ?conds" by auto
    then obtain u where "u \<in> set us" "k = [a, p, VUuid u]" using match by blast
    with r(1) uuid kr show ?thesis by auto
  qed
  have "map fst rs = map (\<lambda>kr. [a, p, VUuid (row_uuid (?proj (snd kr)))]) rs" using key by (auto intro!: map_cong)
  with rs(1) have "distinct (map (\<lambda>u. [a, p, VUuid u]) (map row_uuid rows))" by (simp add: rs(2) o_def)
  then show "distinct (map row_uuid rows)" unfolding distinct_map [of "\<lambda>u. [a, p, VUuid u]"] by blast
  show "\<forall>m \<in> set rows. \<exists>r. tables db ''status'' [a, p, VUuid (row_uuid m)] = Some r \<and> m = ?proj r"
    using key by (fastforce simp: rs(2))
  show "set (map row_uuid rows) = {u \<in> set us. tables db ''status'' [a, p, VUuid u] \<noteq> None}"
  proof (intro set_eqI iffI)
    fix u assume "u \<in> {u \<in> set us. tables db ''status'' [a, p, VUuid u] \<noteq> None}"
    then obtain r where r: "u \<in> set us" "tables db ''status'' [a, p, VUuid u] = Some r" by auto
    then have "([a, p, VUuid u], r) \<in> set rs" using rs(3) match by auto
    with uuid [OF r(2)] show "u \<in> set (map row_uuid rows)" by (force simp: rs(2))
  qed (use key in \<open>fastforce simp: rs(2)\<close>)
qed

end

section \<open>The two ways agree\<close>

text \<open>The schedules with a row, found by the query, and those without.\<close>

abbreviation has_status :: "table \<Rightarrow> Schedule \<Rightarrow> bool" where
  "has_status T s \<equiv> T (status_key s) \<noteq> None"

abbreviation bulk_query :: "string \<Rightarrow> int64 \<Rightarrow> Schedule list \<Rightarrow> query" where
  "bulk_query a p schs \<equiv> Select ''status'' (''schedule_id'' # status_select)
     [Eq ''app_id'' (VText a), Eq ''partition_id'' (VInt p), In ''schedule_id'' (map VUuid (map ScheduleId schs))]"

lemma by_uuid_idToSchedule:
  assumes "distinct (map ScheduleId schs)" and "s \<in> set schs"
  shows "by_uuid (idToSchedule schs) (ScheduleId s) = s"
proof -
  have "map_of (map (\<lambda>s. (ScheduleId s, s)) schs) (ScheduleId s) = Some s"
    using assms by (intro map_of_is_SomeI) (auto simp: o_def)
  then show ?thesis by (simp add: idToSchedule_distinct [OF assms(1)] by_uuid_def)
qed

context cassandra
begin

lemma found_uuids:
  assumes "status_keyed (tables db ''status'')" and "\<forall>s \<in> set schs. AppId s = a \<and> PartitionId s = p"
    and "answers (bulk_query a p schs) (tables db) rows"
  shows "set (map row_uuid rows) = set (map ScheduleId (filter (has_status (tables db ''status'')) schs))"
proof -
  have "status_key s = [VText a, VInt p, VUuid (ScheduleId s)]" if "s \<in> set schs" for s
    using assms(2) that by (simp add: status_key_def)
  then show ?thesis unfolding bulk_rows_of(2) [OF assms(1,3)] by auto
qed

lemma found_enriched:
  assumes "status_keyed (tables db ''status'')" and "\<forall>s \<in> set schs. AppId s = a \<and> PartitionId s = p"
    and "distinct (map ScheduleId schs)" and "answers (bulk_query a p schs) (tables db) rows"
  shows "mset (map (\<lambda>m. with_status m (by_uuid (idToSchedule schs) (row_uuid m))) rows) =
    mset (map (enriched_by E (tables db ''status'')) (filter (has_status (tables db ''status'')) schs))"
proof -
  let ?T = "tables db ''status''"
  let ?by = "enriched_by E ?T" and ?hits = "filter (has_status ?T) schs"
  let ?F = "?by \<circ> by_uuid (idToSchedule schs)"
  note rows = bulk_rows_of [OF assms(1,4)] and look = by_uuid_idToSchedule [OF assms(3)] and hits = found_uuids [OF assms(1,2,4)]
  have "with_status m (by_uuid (idToSchedule schs) (row_uuid m)) = ?F (row_uuid m)" if "m \<in> set rows" for m
  proof -
    from rows(3) that obtain t where t: "?T [VText a, VInt p, VUuid (row_uuid m)] = Some t"
        "m = project ''status'' (''schedule_id'' # status_select) t"
      by blast
    from that have "row_uuid m \<in> set (map row_uuid rows)" by simp
    then obtain s where s: "s \<in> set schs" "ScheduleId s = row_uuid m" unfolding hits by auto
    with assms(2) have "status_key s = [VText a, VInt p, VUuid (row_uuid m)]" by (simp add: status_key_def)
    with t s look [of s] show ?thesis by (simp add: enriched_by_def with_status_def SetStatus_project)
  qed
  then have "mset (map (\<lambda>m. with_status m (by_uuid (idToSchedule schs) (row_uuid m))) rows) = mset (map ?F (map row_uuid rows))"
    by (intro arg_cong [where f = mset]) simp
  also have "\<dots> = image_mset ?F (mset (map row_uuid rows))" by (simp only: mset_map)
  also have "mset (map row_uuid rows) = mset (map ScheduleId ?hits)"
    by (rule iffD1 [OF set_eq_iff_mset_eq_distinct hits]) (rule rows(1), rule distinct_map_filter [OF assms(3)])
  also have "image_mset ?F \<dots> = mset (map ?F (map ScheduleId ?hits))" by (simp only: mset_map)
  also have "map ?F (map ScheduleId ?hits) = map ?by ?hits" using look by simp
  finally show ?thesis .
qed

lemma missing_enriched:
  assumes "status_keyed (tables db ''status'')" and "\<forall>s \<in> set schs. AppId s = a \<and> PartitionId s = p"
    and "distinct (map ScheduleId schs)" and "answers (bulk_query a p schs) (tables db) rows"
  shows "map (\<lambda>(_, s). SetUnknownStatus (env_Now E) (FlushPeriod (env_Conf E)) s)
      (filter (\<lambda>(u, _). u \<notin> set (map row_uuid rows)) (idToSchedule schs)) =
    map (enriched_by E (tables db ''status'')) (filter (\<lambda>s. \<not> has_status (tables db ''status'') s) schs)"
proof -
  have "ScheduleId s \<in> set (map row_uuid rows) \<longleftrightarrow> has_status (tables db ''status'') s" if "s \<in> set schs" for s
    using assms(3) that unfolding found_uuids [OF assms(1,2,4)] by (auto simp: distinct_map dest: inj_onD)
  then have "filter (\<lambda>(u, _). u \<notin> set (map row_uuid rows)) (idToSchedule schs) =
      map (\<lambda>s. (ScheduleId s, s)) (filter (\<lambda>s. \<not> has_status (tables db ''status'') s) schs)"
    unfolding idToSchedule_distinct [OF assms(3)] filter_map by (intro arg_cong [where f = "map _"] filter_cong) auto
  then show ?thesis by (simp add: enriched_by_def)
qed

lemma OptimizedEnrichSchedule_table:
  assumes "env_Session E = sess" and "status_keyed (tables db ''status'')"
    and "\<forall>s \<in> set schs. AppId s = a \<and> PartitionId s = p" and "distinct (map ScheduleId schs)"
    and "OptimizedEnrichSchedule E schs db = Ret (bulk, None)"
  shows "mset bulk = mset (map (enriched_by E (tables db ''status'')) schs)"
proof (cases schs)
  case Nil
  with assms(5) show ?thesis by (simp add: OptimizedEnrichSchedule_def)
next
  case (Cons s0 rest')
  let ?by = "enriched_by E (tables db ''status'')" and ?hit = "has_status (tables db ''status'')"
  have "getBulkStatus E schs db = Iter sess (bulk_query a p schs) db"
    using Cons assms(1,3) by (simp add: getBulkStatus_def o_def)
  with assms(5) Cons obtain rows enr found where r: "Iter sess (bulk_query a p schs) db = (rows, None)"
      "enrich_rows (idToSchedule schs) rows [] [] = Ret (enr, found, None)"
      "bulk = enr @ map (\<lambda>(_, s). SetUnknownStatus (env_Now E) (FlushPeriod (env_Conf E)) s)
         (filter (\<lambda>(u, _). u \<notin> set found) (idToSchedule schs))"
    by (auto simp: OptimizedEnrichSchedule_def bind_go_eq_Ret split: prod.splits if_splits)
  note ans = iter_ok [OF r(1)]
  have enr: "enr = map (\<lambda>m. with_status m (by_uuid (idToSchedule schs) (row_uuid m))) rows" "found = map row_uuid rows"
    using enrich_rows_ok [OF r(2)] by simp_all
  have "mset bulk = mset (map ?by (filter ?hit schs)) + mset (map ?by (filter (\<lambda>s. \<not> ?hit s) schs))"
    unfolding r(3) enr mset_append found_enriched [OF assms(2-4) ans, of E] missing_enriched [OF assms(2-4) ans] ..
  also have "\<dots> = image_mset ?by (mset schs)"
    by (simp only: mset_map mset_filter image_mset_union [symmetric] multiset_partition [symmetric])
  finally show ?thesis by simp
qed

end

text \<open>
  C9. Enriching schedules of one app and partition with a single query gives, up to the order, exactly the schedules that
  enriching them one by one gives, the ones without a status row included, whenever neither way reports an error.
\<close>

theorem OptimizedEnrichSchedule_equiv:
  assumes "cassandra sess tables rest pages_left" and "env_Session E = sess" and "status_keyed (tables db ''status'')"
    and "\<forall>s \<in> set schs. AppId s = a \<and> PartitionId s = p" and "distinct (map ScheduleId schs)"
    and "OptimizedEnrichSchedule E schs db = Ret (bulk, None)"
    and "map (\<lambda>s. EnrichSchedule E s db) schs = map (\<lambda>s'. Ret (s', None)) single"
  shows "mset bulk = mset single"
proof -
  have "map (enriched_by E (tables db ''status'')) schs = single"
  proof (rule nth_equalityI)
    show len: "length (map (enriched_by E (tables db ''status'')) schs) = length single" using assms(7) by (metis length_map)
    fix i assume i: "i < length (map (enriched_by E (tables db ''status'')) schs)"
    then have "EnrichSchedule E (schs ! i) db = Ret (single ! i, None)" using assms(7) len by (metis length_map nth_map)
    from cassandra.EnrichSchedule_table [OF assms(1), OF assms(2,3) this] i
    show "map (enriched_by E (tables db ''status'')) schs ! i = single ! i" by simp
  qed
  with cassandra.OptimizedEnrichSchedule_table [OF assms(1), OF assms(2-6)] show ?thesis by simp
qed

text \<open>Two schedules, of which only the first has been fired.\<close>

definition sample_pair :: "Schedule list" where
  "sample_pair = [sample_schedule, sample_schedule\<lparr>ScheduleId := replicate 15 0 @ [8]\<rparr>]"

definition sample_fired :: mem where
  "sample_fired = snd (UpdateStatus sample_env [sample_schedule\<lparr>Status := Success\<rparr>] sample_app empty_mem)"

definition value_of :: "('a \<times> 'b) go \<Rightarrow> 'a \<Rightarrow> 'a" where
  "value_of r d = (case r of Ret (x, _) \<Rightarrow> x | _ \<Rightarrow> d)"

lemma sample_fired_keyed: "status_keyed (mem_tables sample_fired ''status'')"
proof -
  have "\<forall>(k, r) \<in> set (sample_fired ''status''). k = status_key sample_schedule \<and> map_of r ''app_id'' = Some (VText ''app'') \<and>
      map_of r ''partition_id'' = Some (VInt 0) \<and> map_of r ''schedule_id'' = Some (VUuid sample_uuid)"
    by code_simp
  moreover have "status_key sample_schedule = [VText ''app'', VInt 0, VUuid sample_uuid]" by code_simp
  ultimately show ?thesis unfolding status_keyed_def mem_tables_def by (fastforce dest: map_of_SomeD)
qed

theorem OptimizedEnrichSchedule_equiv_witness:
  "\<exists>bulk single. OptimizedEnrichSchedule sample_env sample_pair sample_fired = Ret (bulk, None) \<and>
    map (\<lambda>s. EnrichSchedule sample_env s sample_fired) sample_pair = map (\<lambda>s'. Ret (s', None)) single \<and>
    map Status single = [Success, Miss] \<and> mset bulk = mset single"
proof -
  define bulk where "bulk = value_of (OptimizedEnrichSchedule sample_env sample_pair sample_fired) []"
  define single where "single = map (\<lambda>s. value_of (EnrichSchedule sample_env s sample_fired) s) sample_pair"
  have b: "OptimizedEnrichSchedule sample_env sample_pair sample_fired = Ret (bulk, None)" unfolding bulk_def by code_simp
  have e: "map (\<lambda>s. EnrichSchedule sample_env s sample_fired) sample_pair = map (\<lambda>s'. Ret (s', None)) single"
    "map Status single = [Success, Miss]"
    unfolding single_def by code_simp+
  have s: "\<forall>s \<in> set sample_pair. AppId s = ''app'' \<and> PartitionId s = 0" "distinct (map ScheduleId sample_pair)" by code_simp+
  have "mset bulk = mset single"
    by (rule OptimizedEnrichSchedule_equiv [where db = sample_fired and tables = mem_tables, OF mem.cassandra_axioms sample_env_session
          sample_fired_keyed s b e(1)])
  with b e show ?thesis by (intro exI [of _ bulk] exI [of _ single] conjI)
qed

end
