(* ===== verification/SchemaProperties.thy ===== *)
theory SchemaProperties
  imports ScheduleDaoProperties
begin

text \<open>
  The types of the columns. The schema (src/cassandra/cassandra.cql) gives each column of the schedule tables a type;
  the code reads a row by type assertions that panic when a value has another type. Every statement that the
  schedule DAO writes fits the schema, so the tables keep their types through any series of operations, failed ones
  included, and on such tables no reading operation panics. What a failed call may have done is the
  locale \<open>faulty_cassandra\<close>.
\<close>

section \<open>The schema\<close>

datatype cql_type = CText | CInt | CTimestamp | CUuid | CBoolean

fun of_type :: "cql_type \<Rightarrow> cql \<Rightarrow> bool" where
  "of_type CText (VText _) = True"
| "of_type CInt (VInt _) = True"
| "of_type CTimestamp (VTime _) = True"
| "of_type CUuid (VUuid _) = True"
| "of_type CBoolean (VBool _) = True"
| "of_type _ _ = False"

lemma of_type_iff:
  "of_type CText v \<longleftrightarrow> (\<exists>s. v = VText s)" "of_type CInt v \<longleftrightarrow> (\<exists>i. v = VInt i)"
  "of_type CTimestamp v \<longleftrightarrow> (\<exists>t. v = VTime t)" "of_type CUuid v \<longleftrightarrow> (\<exists>u. v = VUuid u)"
  by (cases v; simp)+

definition run_schema :: "(string \<times> cql_type) list" where
  "run_schema =
     [(''app_id'', CText), (''partition_id'', CInt), (''schedule_time_group'', CTimestamp), (''schedule_id'', CUuid),
      (''callback_type'', CText), (''callback_details'', CText), (''payload'', CText), (''schedule_time'', CTimestamp),
      (''parent_schedule_id'', CUuid)]"

definition status_schema :: "(string \<times> cql_type) list" where
  "status_schema =
     [(''app_id'', CText), (''partition_id'', CInt), (''schedule_time_group'', CTimestamp), (''schedule_id'', CUuid),
      (''schedule_status'', CText), (''error_msg'', CText), (''reconciliation_history'', CText)]"

definition recurring_schema :: "(string \<times> cql_type) list" where
  "recurring_schema =
     [(''app_id'', CText), (''partition_id'', CInt), (''schedule_id'', CUuid), (''callback_type'', CText),
      (''callback_details'', CText), (''payload'', CText), (''cron_expression'', CText), (''status'', CText)]"

definition schema :: "string \<Rightarrow> (string \<times> cql_type) list" where
  "schema t =
     (if t = ''schedules'' \<or> t = ''recurring_schedule_runs'' then run_schema
      else if t = ''status'' then status_schema
      else if t = ''recurring_schedules_by_id'' \<or> t = ''recurring_schedules_by_partition'' then recurring_schema
      else [])"

lemmas schema_defs = schema_def run_schema_def status_schema_def recurring_schema_def

definition typed_column :: "string \<Rightarrow> string \<times> cql \<Rightarrow> bool" where
  "typed_column t cv \<longleftrightarrow> (case map_of (schema t) (fst cv) of Some ty \<Rightarrow> of_type ty (snd cv) | None \<Rightarrow> False)"

definition typed_tables :: "tables \<Rightarrow> bool" where
  "typed_tables T \<longleftrightarrow> (\<forall>t k r c v. schema t \<noteq> [] \<longrightarrow> T t k = Some r \<longrightarrow> r c = Some v \<longrightarrow> typed_column t (c, v))"

fun typed_stmt :: "stmt \<Rightarrow> bool" where
  "typed_stmt (Insert t cols ttl) = list_all (typed_column t) cols"
| "typed_stmt (Update t sets eqs) = list_all (typed_column t) (eqs @ sets)"
| "typed_stmt (DeleteFrom t eqs) = list_all (typed_column t) eqs"

lemma upsert_typed:
  assumes "typed_tables T" and "list_all (typed_column t) cols"
  shows "typed_tables (upsert t cols T)"
proof -
  have "typed_column t (c, v)" if "map_of cols c = Some v" for c v
    using that assms(2) by (auto simp: list_all_iff dest: map_of_SomeD)
  then show ?thesis
    using assms(1) by (fastforce simp: typed_tables_def upsert_def Let_def map_add_Some_iff split: if_splits option.splits)
qed

lemma stmt_typed: "typed_tables T \<Longrightarrow> typed_stmt st \<Longrightarrow> typed_tables (apply_stmt st T)"
proof (cases st)
  case (DeleteFrom t eqs)
  assume "typed_tables T"
  then show ?thesis by (auto simp: DeleteFrom typed_tables_def split: option.splits if_splits)
qed (simp_all add: upsert_typed)

lemma batch_typed: "typed_tables T \<Longrightarrow> list_all typed_stmt sts \<Longrightarrow> typed_tables (apply_batch sts T)"
  unfolding apply_batch_def by (induction sts arbitrary: T) (auto simp: stmt_typed)

section \<open>Calls that fail\<close>

text \<open>
  A write that reports an error, such as a timeout, may have been applied or not, and of a batch any part; a read that fails
  may have delivered some of its rows before. In no case are other values written or other rows delivered.
\<close>

locale faulty_cassandra = cassandra +
  assumes exec_failed: "Exec sess st db = (Some e, db') \<Longrightarrow> tables db' = tables db \<or> tables db' = apply_stmt st (tables db)"
    and batch_failed: "ExecuteBatch sess sts db = (Some e, db') \<Longrightarrow>
      \<exists>sts'. set sts' \<subseteq> set sts \<and> tables db' = apply_batch sts' (tables db)"
    and iter_failed: "Iter sess q db = (rows, Some e) \<Longrightarrow> \<exists>all. answers q (tables db) all \<and> set rows \<subseteq> set all"
    and page_rows: "IterPage sess q ps n db = (rows, ps', err) \<Longrightarrow> \<exists>all. answers q (tables db) all \<and> set rows \<subseteq> set all"
begin

lemma exec_typed:
  assumes "typed_tables (tables db)" and "typed_stmt st"
  shows "typed_tables (tables (snd (Exec sess st db)))"
proof (cases "Exec sess st db")
  case (Pair err db')
  then have "tables db' = tables db \<or> tables db' = apply_stmt st (tables db)"
    using exec_ok exec_failed by (cases err) auto
  with Pair assms stmt_typed show ?thesis by auto
qed

lemma execute_batch_typed:
  assumes "typed_tables (tables db)" and "list_all typed_stmt sts"
  shows "typed_tables (tables (snd (ExecuteBatch sess sts db)))"
proof (cases "ExecuteBatch sess sts db")
  case (Pair err db')
  then obtain sts' where "set sts' \<subseteq> set sts" "tables db' = apply_batch sts' (tables db)"
    using batch_ok [of sts db db'] batch_failed [of sts db _ db'] by (cases err) blast+
  with Pair assms batch_typed [of "tables db" sts'] show ?thesis by (auto simp: list_all_iff)
qed

end

section \<open>Rows\<close>

definition typed_row :: "string \<Rightarrow> string list \<Rightarrow> row \<Rightarrow> bool" where
  "typed_row t cols m \<longleftrightarrow> (\<exists>r. m = project t cols r \<and> (\<forall>c v. r c = Some v \<longrightarrow> typed_column (base_table t) (c, v)))"

lemma answers_typed:
  assumes "typed_tables T" and "answers (Select t cols conds) T rows" and "m \<in> set rows" and "schema (base_table t) \<noteq> []"
  shows "typed_row t cols m"
proof -
  from assms(2,3) obtain k r where "m = project t cols r" "T (base_table t) k = Some r" by (rule answers_row)
  with assms(1,4) show ?thesis by (auto simp: typed_row_def typed_tables_def)
qed

lemma typed_row_value:
  assumes "typed_row t cols m" and "c \<in> set cols" and "map_of (schema (base_table t)) c = Some ty" and "of_type ty (null_value t c)"
  shows "\<exists>v. map_of m c = Some v \<and> of_type ty v"
proof -
  from assms(1) obtain r where r: "m = project t cols r" "\<forall>c v. r c = Some v \<longrightarrow> typed_column (base_table t) (c, v)"
    by (auto simp: typed_row_def)
  from r(2) assms(3) have "of_type ty v" if "r c = Some v" for v using that by (fastforce simp: typed_column_def)
  with r(1) project_lookup [OF assms(2), of t r] assms(4) show ?thesis by (cases "r c") auto
qed

lemma typed_row_other: "typed_row t cols m \<Longrightarrow> c \<notin> set cols \<Longrightarrow> map_of m c = None"
  by (auto simp: typed_row_def project_def map_of_eq_None_iff)

text \<open>Operations that return.\<close>

definition returns :: "'a go \<Rightarrow> bool" where
  "returns m \<longleftrightarrow> (\<exists>x. m = Ret x)"

lemma returns_simps [simp]: "returns (Ret x)" "\<not> returns (Panic e)" "\<not> returns Diverge"
  by (simp_all add: returns_def)

lemma returns_bind [intro]: "returns m \<Longrightarrow> (\<And>x. returns (f x)) \<Longrightarrow> returns (bind_go m f)"
  by (auto simp: returns_def)

lemma returns_bind_pair: "returns m \<Longrightarrow> (\<And>x y. returns (f x y)) \<Longrightarrow> returns (bind_go m (\<lambda>(x, y). f x y))"
  by (auto simp: returns_def)

definition has_column :: "row \<Rightarrow> string \<times> cql_type \<Rightarrow> bool" where
  "has_column m cty \<longleftrightarrow> (case map_of m (fst cty) of Some v \<Rightarrow> of_type (snd cty) v | None \<Rightarrow> False)"

definition may_have_column :: "row \<Rightarrow> string \<times> cql_type \<Rightarrow> bool" where
  "may_have_column m cty \<longleftrightarrow> map_of m (fst cty) = None \<or> has_column m cty"

lemma assert_returns:
  "has_column m (c, CText) \<Longrightarrow> returns (as_string (map_of m c))" "has_column m (c, CInt) \<Longrightarrow> returns (as_int (map_of m c))"
  "has_column m (c, CTimestamp) \<Longrightarrow> returns (as_time (map_of m c))" "has_column m (c, CUuid) \<Longrightarrow> returns (as_uuid (map_of m c))"
  by (auto simp: has_column_def as_defs of_type_iff split: option.splits)

text \<open>What a row must have so that a schedule can be formed, and the columns that it may have.\<close>

definition required_columns :: "(string \<times> cql_type) list" where
  "required_columns =
     [(''app_id'', CText), (''callback_type'', CText), (''payload'', CText), (''partition_id'', CInt), (''schedule_id'', CUuid)]"

definition time_columns :: "(string \<times> cql_type) list" where
  "time_columns = [(''schedule_time_group'', CTimestamp), (''schedule_time'', CTimestamp)]"

definition optional_columns :: "(string \<times> cql_type) list" where
  "optional_columns = [(''cron_expression'', CText), (''status'', CText), (''parent_schedule_id'', CUuid)]"

definition forms_schedule :: "row \<Rightarrow> bool" where
  "forms_schedule m \<longleftrightarrow> list_all (has_column m) required_columns \<and>
     (map_of m ''cron_expression'' \<noteq> None \<or> list_all (has_column m) time_columns) \<and>
     list_all (may_have_column m) optional_columns"

lemma forms_times:
  assumes "forms_schedule m"
  shows "returns (set_times m s)"
proof (cases "map_of m ''cron_expression''")
  case None
  with assms have "has_column m (''schedule_time_group'', CTimestamp)" "has_column m (''schedule_time'', CTimestamp)"
    by (simp_all add: forms_schedule_def time_columns_def)
  then show ?thesis by (auto simp: set_times_def None intro!: returns_bind assert_returns)
next
  case (Some v)
  with assms have "has_column m (''cron_expression'', CText)" by (simp add: forms_schedule_def optional_columns_def may_have_column_def)
  with assert_returns(1) [OF this] show ?thesis by (auto simp: set_times_def Some)
qed

lemma forms_ids:
  assumes "forms_schedule m"
  shows "returns (set_ids m s)"
proof -
  have "has_column m (''schedule_id'', CUuid)" using assms by (simp add: forms_schedule_def required_columns_def)
  moreover have "map_of m ''parent_schedule_id'' \<noteq> None \<Longrightarrow> has_column m (''parent_schedule_id'', CUuid)"
    using assms by (auto simp: forms_schedule_def optional_columns_def may_have_column_def)
  ultimately show ?thesis
    using assert_returns(4) [of m "''parent_schedule_id''"]
    by (auto simp: set_ids_def intro!: returns_bind assert_returns split: option.split)
qed

lemma forms_status:
  assumes "forms_schedule m"
  shows "returns (case map_of m ''status'' of None \<Rightarrow> Ret s | Some v \<Rightarrow> bind_go (as_string (Some v)) (\<lambda>st. Ret (s\<lparr>Status := st\<rparr>)))"
proof (cases "map_of m ''status''")
  case (Some v)
  with assms have "has_column m (''status'', CText)" by (simp add: forms_schedule_def optional_columns_def may_have_column_def)
  with assert_returns(1) [OF this] show ?thesis by (auto simp: Some)
qed simp

lemma forms_callback:
  assumes "forms_schedule m"
  shows "returns (createCallbackFromMap reg m)"
proof -
  have "has_column m (''callback_type'', CText)" using assms by (simp add: forms_schedule_def required_columns_def)
  from assert_returns(1) [OF this] show ?thesis
    unfolding createCallbackFromMap_def by (rule returns_bind) (simp split: option.split)
qed

lemma schedule_formed:
  assumes "forms_schedule m"
  shows "returns (CreateScheduleFromCassandraMap reg m s)"
proof -
  have cols: "has_column m (''app_id'', CText)" "has_column m (''partition_id'', CInt)" "has_column m (''payload'', CText)"
    using assms by (simp_all add: forms_schedule_def required_columns_def)
  show ?thesis
    unfolding CreateScheduleFromCassandraMap_def Let_def
    by (auto split: sum.split intro!: returns_bind assert_returns cols forms_callback forms_times forms_ids forms_status assms)
qed

text \<open>The columns that a query must select: each comes with a value of its type, null values included.\<close>

definition comes_as :: "string \<Rightarrow> string \<times> cql_type \<Rightarrow> bool" where
  "comes_as t cty \<longleftrightarrow> map_of (schema (base_table t)) (fst cty) = Some (snd cty) \<and> of_type (snd cty) (null_value t (fst cty))"

definition selects :: "string \<Rightarrow> string list \<Rightarrow> bool" where
  "selects t cols \<longleftrightarrow>
     list_all (\<lambda>cty. fst cty \<in> set cols \<and> comes_as t cty) required_columns \<and>
     (''cron_expression'' \<in> set cols \<or> list_all (\<lambda>cty. fst cty \<in> set cols \<and> comes_as t cty) time_columns) \<and>
     list_all (\<lambda>cty. fst cty \<in> set cols \<longrightarrow> comes_as t cty) optional_columns"

lemma typed_row_has:
  assumes "typed_row t cols m" and "fst cty \<in> set cols" and "comes_as t cty"
  shows "has_column m cty"
  using typed_row_value [OF assms(1), of "fst cty" "snd cty"] assms(2,3) by (auto simp: has_column_def comes_as_def)

lemma selects_form:
  assumes "typed_row t cols m" and "selects t cols"
  shows "forms_schedule m"
proof -
  have sel: "list_all (\<lambda>cty. fst cty \<in> set cols \<and> comes_as t cty) required_columns"
      "''cron_expression'' \<in> set cols \<or> list_all (\<lambda>cty. fst cty \<in> set cols \<and> comes_as t cty) time_columns"
      "list_all (\<lambda>cty. fst cty \<in> set cols \<longrightarrow> comes_as t cty) optional_columns"
    using assms(2) by (simp_all add: selects_def)
  have has: "list_all (has_column m) l" if "list_all (\<lambda>cty. fst cty \<in> set cols \<and> comes_as t cty) l" for l
    using that by (rule list.pred_mono_strong) (use typed_row_has [OF assms(1)] in blast)
  have may: "list_all (may_have_column m) optional_columns"
    using sel(3) unfolding may_have_column_def
    by (rule list.pred_mono_strong) (use typed_row_has [OF assms(1)] typed_row_other [OF assms(1)] in blast)
  have "map_of m ''cron_expression'' \<noteq> None" if "''cron_expression'' \<in> set cols"
    using that assms(1) by (auto simp: typed_row_def project_lookup)
  with has [OF sel(1)] has [of time_columns] sel(2) may show ?thesis unfolding forms_schedule_def by blast
qed

lemma code_selects:
  "selects ''view_schedules'' schedule_select" "selects ''schedules'' schedule_select" "selects ''recurring_schedule_runs'' run_select"
  "selects ''recurring_schedules_by_id'' recurring_select" "selects ''recurring_schedules_by_partition'' recurring_select"
  by code_simp+

section \<open>Reading\<close>

lemma SetStatus_returns:
  assumes "typed_row ''status'' cols m" and "{''schedule_status'', ''error_msg'', ''reconciliation_history''} \<subseteq> set cols"
  shows "returns (SetStatus m s)"
proof -
  have "comes_as ''status'' (c, CText)" if "c \<in> {''schedule_status'', ''error_msg'', ''reconciliation_history''}" for c
    using that by (auto simp: comes_as_def schema_defs base_table_def null_value_def)
  then have "has_column m (c, CText)" if "c \<in> {''schedule_status'', ''error_msg'', ''reconciliation_history''}" for c
    using typed_row_has [OF assms(1), of "(c, CText)"] assms(2) that by auto
  then have "has_column m (''schedule_status'', CText)" "has_column m (''error_msg'', CText)" "has_column m (''reconciliation_history'', CText)"
    by simp_all
  then show ?thesis
    unfolding SetStatus_def Let_def by (auto intro!: returns_bind assert_returns split: option.split prod.split)
qed

lemma scan_schedules_returns: "list_all forms_schedule rows \<Longrightarrow> returns (scan_schedules reg rows schs errs)"
proof (induction rows arbitrary: schs errs)
  case (Cons m rows)
  then have "returns (scan_schedules reg rows schs errs)" for schs errs by simp
  with schedule_formed [of m reg] Cons.prems show ?case
    by (auto intro!: returns_bind_pair split: option.split simp del: returns_simps)
qed simp

context faulty_cassandra
begin

lemma rows_typed:
  assumes "typed_tables (tables db)" and "schema (base_table t) \<noteq> []"
  shows "MapScan sess (Select t cols conds) db = Inr m \<Longrightarrow> typed_row t cols m"
    and "Iter sess (Select t cols conds) db = (rows, err) \<Longrightarrow> list_all (typed_row t cols) rows"
    and "IterPage sess (Select t cols conds) ps n db = (rows, ps', err) \<Longrightarrow> list_all (typed_row t cols) rows"
proof -
  note typed = answers_typed [OF assms(1) _ _ assms(2)]
  show "MapScan sess (Select t cols conds) db = Inr m \<Longrightarrow> typed_row t cols m"
    using scan_row typed by blast
  show "Iter sess (Select t cols conds) db = (rows, err) \<Longrightarrow> list_all (typed_row t cols) rows"
    using iter_ok [of _ db rows] iter_failed [of _ db rows] typed by (cases err) (fastforce simp: list_all_iff)+
  show "IterPage sess (Select t cols conds) ps n db = (rows, ps', err) \<Longrightarrow> list_all (typed_row t cols) rows"
    using page_rows typed by (fastforce simp: list_all_iff)
qed

text \<open>The tables of schedules, with the columns that the code reads.\<close>

lemma rows_form:
  assumes "typed_tables (tables db)" and "schema (base_table t) \<noteq> []" and "selects t cols"
  shows "MapScan sess (Select t cols conds) db = Inr m \<Longrightarrow> forms_schedule m"
    and "Iter sess (Select t cols conds) db = (rows, err) \<Longrightarrow> list_all forms_schedule rows"
    and "IterPage sess (Select t cols conds) ps n db = (rows, ps', err) \<Longrightarrow> list_all forms_schedule rows"
  using rows_typed [OF assms(1,2)] selects_form [OF _ assms(3)] by (blast, metis list_all_iff, metis list_all_iff)

end

lemma schemas_not_Nil [simp]:
  "schema (base_table ''view_schedules'') \<noteq> []" "schema (base_table ''schedules'') \<noteq> []" "schema (base_table ''status'') \<noteq> []"
  "schema (base_table ''recurring_schedule_runs'') \<noteq> []" "schema (base_table ''recurring_schedules_by_id'') \<noteq> []"
  "schema (base_table ''recurring_schedules_by_partition'') \<noteq> []"
  by code_simp+

context faulty_cassandra
begin

lemma read_one_returns:
  assumes "typed_tables (tables db)" and "env_Session E = sess" and "schema (base_table t) \<noteq> []" and "selects t cols"
  shows "returns (read_one E (Select t cols conds) db)"
  using rows_form(1) [OF assms(1,3,4)] by (auto simp: read_one_def assms(2) intro: schedule_formed split: sum.split)

lemma setStatus_returns:
  assumes "typed_tables (tables db)" and "env_Session E = sess"
  shows "returns (setStatus E s db)"
  unfolding setStatus_def assms(2)
  by (split sum.split) (auto intro: SetStatus_returns [OF rows_typed(1) [OF assms(1)]])

lemma GetSchedule_returns:
  assumes "typed_tables (tables db)" and "env_Session E = sess"
  shows "returns (GetSchedule E uuid db)" and "returns (GetEnrichedSchedule E uuid db)" and "returns (EnrichSchedule E s db)"
proof -
  have one: "returns (getOneTimeSchedule E uuid db)" "returns (getRecurringSchedule E uuid db)"
    by (simp_all add: getOneTimeSchedule_def getRecurringSchedule_def read_one_returns assms code_selects)
  then show "returns (GetSchedule E uuid db)" unfolding GetSchedule_def by (auto intro!: returns_bind_pair)
  have "returns (getEnrichedSchedule E uuid db)"
    unfolding getEnrichedSchedule_def using one(1) setStatus_returns [OF assms] by (auto intro!: returns_bind_pair)
  with one(2) show "returns (GetEnrichedSchedule E uuid db)" unfolding GetEnrichedSchedule_def by (auto intro!: returns_bind_pair)
  show "returns (EnrichSchedule E s db)" by (simp add: EnrichSchedule_def setStatus_returns assms)
qed

lemma recurring_returns:
  assumes "typed_tables (tables db)" and "env_Session E = sess"
  shows "returns (GetRecurringScheduleByPartition E p db)" and "returns (GetCronSchedulesByApp E appId status db)"
proof -
  note forms = rows_form(2) [OF assms(1)]
  show "returns (GetRecurringScheduleByPartition E p db)"
    by (auto simp: GetRecurringScheduleByPartition_def assms(2) split: prod.split
        intro!: returns_bind_pair scan_schedules_returns forms [OF _ code_selects(5)])
  show "returns (GetCronSchedulesByApp E appId status db)"
    by (auto simp: GetCronSchedulesByApp_def assms(2) split: prod.split
        intro!: returns_bind_pair scan_schedules_returns forms [OF _ code_selects(4)])
qed

lemma write_rows_returns:
  assumes "typed_tables (tables db)" and "env_Session E = sess" and "list_all forms_schedule rows"
  shows "returns (write_rows E sz filt db rows schs)"
  using assms(3)
proof (induction rows arbitrary: schs)
  case (Cons m rows)
  then have "returns (write_rows E sz filt db rows schs)" for schs by simp
  with schedule_formed [of m "env_Registry E"] Cons.prems setStatus_returns [OF assms(1,2)] show ?case
    by (auto intro!: returns_bind_pair)
qed simp

lemma getFilteredRuns_typed:
  assumes "getFilteredRuns E uuid sz filt db schs ps = Some r"
  shows "typed_tables (tables db) \<longrightarrow> env_Session E = sess \<longrightarrow> (\<forall>e. r \<noteq> Panic e)"
proof (rule getFilteredRuns.raw_induct [OF _ assms], goal_cases)
  case (1 f E uuid sz filt db schs ps r)
  show ?case
  proof (intro impI allI)
    assume db: "typed_tables (tables db)" and E: "env_Session E = sess"
    obtain rows ps' cerr where page: "getRuns E uuid ps (wrap64 (sz - int (length schs))) db = (rows, ps', cerr)"
      by (cases "getRuns E uuid ps (wrap64 (sz - int (length schs))) db") auto
    have "list_all forms_schedule rows"
      using page rows_form(3) [OF db _ code_selects(3)] by (simp add: getRuns_def runs_query_def E)
    then obtain schs' failed where "write_rows E sz filt db rows schs = Ret (schs', failed)"
      using write_rows_returns [OF db E] by (fastforce simp: returns_def)
    with 1(1) 1(2) page db E show "r \<noteq> Panic e" for e by (auto split: if_splits)
  qed
qed

lemma GetScheduleRuns_returns:
  assumes "typed_tables (tables db)" and "env_Session E = sess"
  shows "returns (GetScheduleRuns E uuid sz when ps db)"
proof -
  have "returns (filtered_runs E uuid sz filt ps db)" for filt
  proof -
    obtain r where r: "getFilteredRuns E uuid sz filt db [] ps = Some r" "r \<noteq> Diverge"
      using getFilteredRuns_returns [OF assms(2)] by blast
    with getFilteredRuns_typed [OF r(1)] assms show ?thesis by (cases r) (auto simp: filtered_runs_def)
  qed
  then show ?thesis
    by (auto simp: GetScheduleRuns_def getPastRuns_def getFutureRuns_def getAllRuns_def intro!: returns_bind_pair)
qed

lemma getFilteredSchedules_typed:
  assumes "getFilteredSchedules_loop E appId parts endTime sz filt db interval ps schs out cont = Some r"
  shows "typed_tables (tables db) \<longrightarrow> env_Session E = sess \<longrightarrow> (\<forall>e. r \<noteq> Panic e)"
proof (rule getFilteredSchedules_loop.raw_induct [OF _ assms], goal_cases)
  case (1 f E appId parts endTime sz filt db interval ps schs out cont r)
  show ?case
  proof (intro impI allI)
    assume db: "typed_tables (tables db)" and E: "env_Session E = sess"
    obtain rows ps' cerr where page: "getSchedules E appId parts interval ps (wrap64 (sz - int (length schs))) db = (rows, ps', cerr)"
      by (cases "getSchedules E appId parts interval ps (wrap64 (sz - int (length schs))) db") auto
    have "list_all forms_schedule rows"
      using page rows_form(3) [OF db _ code_selects(2)] by (simp add: getSchedules_def schedules_query_def E)
    then obtain schs' failed where "write_rows E sz filt db rows schs = Ret (schs', failed)"
      using write_rows_returns [OF db E] by (fastforce simp: returns_def)
    with 1(1) 1(2) page db E show "r \<noteq> Panic e" for e by (auto split: if_splits)
  qed
qed

end

context faulty_cassandra
begin

lemma GetPaginatedSchedules_returns:
  assumes "typed_tables (tables db)" and "env_Session E = sess"
  shows "returns (GetPaginatedSchedules E appId partitions timeRange sz status ps cont db)"
proof -
  have "returns (getFilteredSchedules E appId partitions timeRange sz filt ps cont db)" for filt
    using getFilteredSchedules_ends [OF cassandra_axioms assms(2), of appId partitions timeRange sz filt ps cont db] assms
      getFilteredSchedules_typed [of E appId "map int [0..<nat partitions]" "snd timeRange" sz filt db]
    by (cases "getFilteredSchedules E appId partitions timeRange sz filt ps cont db")
      (fastforce simp: getFilteredSchedules_def Let_def split: option.splits)+
  then show ?thesis
    by (auto simp: GetPaginatedSchedules_def getPaginatedSchedulesByStatus_def intro!: returns_bind)
qed

end

section \<open>Writing\<close>

text \<open>The statements of the schedule DAO fit the schema.\<close>

lemma columns_typed:
  "t = ''recurring_schedules_by_id'' \<or> t = ''recurring_schedules_by_partition'' \<Longrightarrow>
     list_all (typed_column t) (recurring_columns s cb_type cb_details st)"
  "t = ''schedules'' \<or> t = ''recurring_schedule_runs'' \<Longrightarrow>
     list_all (typed_column t) (schedule_columns s cb_type cb_details @ [(''parent_schedule_id'', VUuid u)])"
  by (auto simp: typed_column_def recurring_columns_def schedule_columns_def millis_def schema_defs)

lemma statements_typed:
  "recurring_batch s st = Ret batch \<Longrightarrow> list_all typed_stmt batch"
  "list_all typed_stmt (status_updates s st)" "typed_stmt (deleteFromSchedule s)" "list_all typed_stmt (delete_runs s runs)"
  "typed_stmt (status_insert E app s)"
proof -
  show "recurring_batch s st = Ret batch \<Longrightarrow> list_all typed_stmt batch"
    by (auto simp: recurring_batch_def bind_go_eq_Ret columns_typed(1))
  show "list_all typed_stmt (status_updates s st)" by (simp add: status_updates_def typed_column_def schema_defs)
  show del: "typed_stmt (deleteFromSchedule s)" for s by (simp add: deleteFromSchedule_def typed_column_def schema_defs millis_def)
  show "list_all typed_stmt (delete_runs s runs)"
    using del by (auto simp: delete_runs_def list_all_iff deleteFromRuns_def typed_column_def schema_defs millis_def)
  show "typed_stmt (status_insert E app s)" by (simp add: status_insert_def typed_column_def schema_defs millis_def)
qed

text \<open>The operations that write; one that panics does so before it writes.\<close>

datatype dao_write =
    Creating Schedule App
  | Deleting uuid
  | Running Schedule App
  | Reporting "Schedule list" App
  | Switching Schedule status
  | Changing Schedule

definition written :: "(Schedule result \<times> 'db) go \<Rightarrow> 'db \<Rightarrow> 'db" where
  "written r db = (case r of Ret (_, db') \<Rightarrow> db' | _ \<Rightarrow> db)"

fun perform :: "'db env \<Rightarrow> dao_write \<Rightarrow> 'db \<Rightarrow> 'db" where
  "perform E (Creating s app) db = written (CreateSchedule E s app db) db"
| "perform E (Deleting uuid) db = written (DeleteSchedule E uuid db) db"
| "perform E (Running s app) db = written (CreateRun E s app db) db"
| "perform E (Reporting ss app) db = snd (UpdateStatus E ss app db)"
| "perform E (Switching s st) db = written (UpdateRecurringScheduleStatus E s st db) db"
| "perform E (Changing s) db = written (UpdateRecurringSchedule E s db) db"

context faulty_cassandra
begin

lemma written_typed:
  assumes "typed_tables (tables db)" and "\<And>x db'. r = Ret (x, db') \<Longrightarrow> typed_tables (tables db')"
  shows "typed_tables (tables (written r db))"
  using assms by (auto simp: written_def split: go.split)

lemma create_typed:
  assumes "typed_tables (tables db)" and "env_Session E = sess"
  shows "typed_tables (tables (written (CreateSchedule E s app db) db))" and "typed_tables (tables (written (CreateRun E s app db) db))"
proof -
  note exec = exec_typed [OF assms(1)] and batch = execute_batch_typed [OF assms(1)]
  have "typed_stmt (Insert ''schedules'' (schedule_columns s cb_type cb_details) ttl)" for cb_type cb_details ttl
    using columns_typed(2) [of "''schedules''" s cb_type cb_details] by simp
  then have "typed_tables (tables db')" if "CreateSchedule E s app db = Ret (x, db')" for x db'
    using that exec batch [OF statements_typed(1)] assms(2)
    by (auto simp: CreateSchedule_def createRecurringSchedule_def createOneTimeSchedule_def bind_go_eq_Ret case_prod_beta split: if_splits)
  then show "typed_tables (tables (written (CreateSchedule E s app db) db))" by (rule written_typed [OF assms(1)])
  have run_typed: "list_all typed_stmt (map (\<lambda>t. Insert t (schedule_columns s cb_type cb_details @ [(''parent_schedule_id'', VUuid u)]) ttl)
      [''schedules'', ''recurring_schedule_runs''])" for cb_type cb_details u ttl
    using columns_typed(2) [of _ s cb_type cb_details u] by simp
  have "typed_tables (tables db')" if "CreateRun E s app db = Ret (x, db')" for x db'
    using that assms(2) batch [OF run_typed] by (auto simp: CreateRun_def bind_go_eq_Ret case_prod_beta)
  then show "typed_tables (tables (written (CreateRun E s app db) db))" by (rule written_typed [OF assms(1)])
qed

lemma delete_typed:
  assumes "typed_tables (tables db)" and "env_Session E = sess"
  shows "typed_tables (tables (written (DeleteSchedule E uuid db) db))"
proof (rule written_typed [OF assms(1)])
  fix x db'
  note exec = exec_typed [OF assms(1) statements_typed(3)] and batch = execute_batch_typed [OF assms(1)]
  have "list_all typed_stmt (status_updates s Deleted @ map deleteFromSchedule runs)" for s runs
    using statements_typed(2,3) by (auto simp: list.pred_map o_def list_all_iff)
  from batch [OF this] show "DeleteSchedule E uuid db = Ret (x, db') \<Longrightarrow> typed_tables (tables db')"
    using assms exec
    by (auto simp: DeleteSchedule_def deleteRecurringSchedule_def deleteOneTimeSchedule_def bind_go_eq_Ret case_prod_beta split: if_splits)
qed

lemma update_typed:
  assumes "typed_tables (tables db)" and "env_Session E = sess"
  shows "typed_tables (tables (written (UpdateRecurringScheduleStatus E s st db) db))"
    and "typed_tables (tables (written (UpdateRecurringSchedule E s db) db))"
    and "typed_tables (tables (snd (UpdateStatus E ss app db)))"
proof -
  note batch = execute_batch_typed [OF assms(1)]
  have "list_all typed_stmt (status_updates s st @ delete_runs s runs)" for runs using statements_typed(2,4) by simp
  from batch [OF this] have "typed_tables (tables db')" if "UpdateRecurringScheduleStatus E s st db = Ret (x, db')" for x db'
    using that assms batch [OF statements_typed(2)]
    by (auto simp: UpdateRecurringScheduleStatus_def Let_def bind_go_eq_Ret case_prod_beta split: if_splits)
  then show "typed_tables (tables (written (UpdateRecurringScheduleStatus E s st db) db))" by (rule written_typed [OF assms(1)])
  have "list_all typed_stmt (b @ delete_runs s runs)" if "recurring_batch s (Status s) = Ret b" for b runs
    using that statements_typed(1,4) by simp
  from batch [OF this] have "typed_tables (tables db')" if "UpdateRecurringSchedule E s db = Ret (x, db')" for x db'
    using that assms by (auto simp: UpdateRecurringSchedule_def bind_go_eq_Ret case_prod_beta split: if_splits)
  then show "typed_tables (tables (written (UpdateRecurringSchedule E s db) db))" by (rule written_typed [OF assms(1)])
  show "typed_tables (tables (snd (UpdateStatus E ss app db)))"
    unfolding UpdateStatus_def assms(2) by (rule batch) (simp add: list_all_iff statements_typed(5))
qed

lemma performs_typed:
  assumes "typed_tables (tables db)" and "env_Session E = sess"
  shows "typed_tables (tables (fold (perform E) ws db))"
  using assms(1)
proof (induction ws arbitrary: db)
  case (Cons w ws)
  have "typed_tables (tables (perform E w db))"
    using create_typed [OF Cons.prems assms(2)] delete_typed [OF Cons.prems assms(2)] update_typed [OF Cons.prems assms(2)] by (cases w) simp_all
  with Cons.IH show ?case by simp
qed simp

end

text \<open>
  C6. The schedule tables keep the types of their columns, and no reader of them ever panics. Whatever operations of the schedule
  DAO are performed, in whatever order, and whichever of them the database refuses or applies in part, every value in the
  tables has the type that the schema gives to its column; and then each operation that reads schedules, runs or their status
  returns, with a result or an error, instead of failing in a type assertion. The tables may start empty.
\<close>

theorem schedule_tables_typed:
  assumes "faulty_cassandra sess tables rest pages_left" and "env_Session E = sess" and "typed_tables (tables db)"
    and "db' = fold (perform E) ws db"
  shows "typed_tables (tables db') \<and> returns (GetSchedule E uuid db') \<and> returns (GetEnrichedSchedule E uuid db') \<and>
    returns (EnrichSchedule E s db') \<and> returns (GetRecurringScheduleByPartition E p db') \<and> returns (GetCronSchedulesByApp E appId status db') \<and>
    returns (GetScheduleRuns E uuid sz when ps db') \<and> returns (GetPaginatedSchedules E appId partitions timeRange sz status ps cont db')"
proof -
  have db': "typed_tables (tables db')" using faulty_cassandra.performs_typed [OF assms(1,3,2)] assms(4) by simp
  note rules = faulty_cassandra.GetSchedule_returns faulty_cassandra.recurring_returns faulty_cassandra.GetScheduleRuns_returns
    faulty_cassandra.GetPaginatedSchedules_returns
  show ?thesis using db' rules [OF assms(1) db' assms(2)] by simp
qed

section \<open>A database that times out\<close>

interpretation faulty_mem: faulty_cassandra mem_session mem_tables mem_rest "\<lambda>q db ps. length (mem_rest q db ps)"
proof unfold_locales
  fix q ps n db rows ps' err
  assume "IterPage mem_session q ps n db = (rows, ps', err)"
  then have "set rows \<subseteq> set (mem_select q db)"
    by (auto simp: mem_session_def mem_page_def Let_def split: if_splits dest!: in_set_takeD in_set_dropD)
  then show "\<exists>all. answers q (mem_tables db) all \<and> set rows \<subseteq> set all" using mem_select_answers by blast
qed (simp_all add: mem_session_def)

text \<open>Single statements are applied, but the answer is lost.\<close>

definition late_session :: "mem session" where
  "late_session = mem_session\<lparr>Exec := (\<lambda>st db. (Some (Err ''timeout''), mem_apply st db))\<rparr>"

lemma late_session_laws: "faulty_cassandra late_session mem_tables mem_rest (\<lambda>q db ps. length (mem_rest q db ps))"
proof -
  have eq: "ExecuteBatch late_session = ExecuteBatch mem_session" "MapScan late_session = MapScan mem_session" "Iter late_session = Iter mem_session"
      "IterPage late_session = IterPage mem_session" by (simp_all add: late_session_def)
  have late: "cassandra late_session mem_tables mem_rest (\<lambda>q db ps. length (mem_rest q db ps))"
    using mem.cassandra_axioms unfolding cassandra_def eq by (elim conjE, intro conjI) (assumption | simp add: late_session_def)+
  show ?thesis
    using late faulty_mem.faulty_cassandra_axioms unfolding faulty_cassandra_def faulty_cassandra_axioms_def eq
    by (simp add: late_session_def mem_tables_apply)
qed

theorem schedule_tables_typed_witness:
  "returns (GetEnrichedSchedule (sample_env\<lparr>env_Session := late_session\<rparr>) (ScheduleId sample_recurring)
     (fold (perform (sample_env\<lparr>env_Session := late_session\<rparr>)) [Creating sample_recurring sample_app, Switching sample_recurring Paused] empty_mem))"
proof -
  let ?E = "sample_env\<lparr>env_Session := late_session\<rparr>"
  have "env_Session ?E = late_session" by simp
  moreover have "typed_tables (mem_tables empty_mem)" by (simp add: typed_tables_def mem_tables_def empty_mem_def)
  ultimately show ?thesis using schedule_tables_typed [OF late_session_laws _ _ refl, of ?E empty_mem] by blast
qed

end
