(* ===== verification/Retrievers.thy ===== *)
theory Retrievers
  imports ClusterDao ScheduleDao
begin

text \<open>
  Retrieval of the schedules that are due (src/retrievers/*.go) and the pollers that trigger it
  (src/poller/*.go). A retriever reads pages of rows and hands what it finds to the
  queues of the workers.
\<close>

section \<open>State of a node\<close>

text \<open>The cluster and schedule databases with the cache, and what was sent to the queues.\<close>

record 'db node =
  nd_Cluster :: "'db cluster"
  nd_Queues :: queues
  CronTaskQueue :: "CreateScheduleTask list"

definition nd_DB :: "'db node \<Rightarrow> 'db" where
  "nd_DB st = cl_DB (nd_Cluster st)"

definition on_cluster :: "('db cluster \<Rightarrow> 'a \<times> 'db cluster) \<Rightarrow> ('db node, 'a) io" where
  "on_cluster f st = (case f (nd_Cluster st) of (x, c) \<Rightarrow> (Ret x, st\<lparr>nd_Cluster := c\<rparr>))"

text \<open>An operation on the database and the callback queues.\<close>

definition on_bulk :: "('db bulk_state, 'a) io \<Rightarrow> ('db node, 'a) io" where
  "on_bulk f st =
     (case f (nd_DB st, nd_Queues st) of (x, db, sent) \<Rightarrow>
        (x, st\<lparr>nd_Cluster := (nd_Cluster st)\<lparr>cl_DB := db\<rparr>, nd_Queues := sent\<rparr>))"

section \<open>Schedules that are due\<close>

definition invoke :: "App \<Rightarrow> Schedule \<Rightarrow> ('db node, unit) io" where
  "invoke app sch st =
     (case Callback sch of
        None \<Rightarrow> (Panic ''nil pointer dereference'', st)
      | Some c \<Rightarrow> (Ret (), st\<lparr>nd_Queues := Invoke c \<lparr>sw_Schedule = sch, sw_App = app, IsReconciliation = False\<rparr> (nd_Queues st)\<rparr>))"

fun invoke_rows :: "'db env \<Rightarrow> App \<Rightarrow> row list \<Rightarrow> ('db node, go_error option) io" where
  "invoke_rows E app [] = ret None"
| "invoke_rows E app (m # ms) =
     bnd (lift_go (CreateScheduleFromCassandraMap (env_Registry E) m empty_schedule)) (\<lambda>(sch, err).
       if err \<noteq> None then ret err
       else bnd (invoke app sch) (\<lambda>_. invoke_rows E app ms))"

text \<open>
  The loop over the pages; it stops at the last page, or when more queries were made than
  \<^verbatim>\<open>MaxQueryLimit\<close>.
\<close>

function poll_pages ::
    "'db env \<Rightarrow> App \<Rightarrow> string \<Rightarrow> int64 \<Rightarrow> time \<Rightarrow> page_state \<Rightarrow> int64 \<Rightarrow> ('db node, go_error option) io" where
  "poll_pages E app appName partitionId timeBucket pageState queryCount st =
     (case GetSchedulesForEntity E appName partitionId timeBucket pageState (nd_DB st) of (rows, next, cerr) \<Rightarrow>
        bnd (invoke_rows E app rows) (\<lambda>err.
          if err \<noteq> None then ret err
          else if cerr \<noteq> None then ret cerr
          else if length next = 0 \<or> queryCount + 1 > MaxQueryLimit (env_Conf E) then ret None
          else poll_pages E app appName partitionId timeBucket next (queryCount + 1)) st)"
  by pat_completeness auto
termination
  by (relation "measure (\<lambda>(E, app, n, p, t, ps, q, st). nat (MaxQueryLimit (env_Conf E) - q))") auto

declare poll_pages.simps [simp del]

definition ScheduleRetriever_GetSchedules ::
    "'db env \<Rightarrow> string \<Rightarrow> int64 \<Rightarrow> time \<Rightarrow> ('db node, go_error option) io" where
  "ScheduleRetriever_GetSchedules E appName partitionId timeBucket =
     recovering None
       (bnd (on_cluster (GetApp E appName)) (\<lambda>(app, err).
          if err \<noteq> None then ret err
          else poll_pages E app appName partitionId timeBucket [] 0))"

section \<open>Bulk action on schedules\<close>

text \<open>
  The functions \<^verbatim>\<open>contains\<close> and \<^verbatim>\<open>actionIfRequired\<close> of this package are copies of those of the data
  access object.
\<close>

definition ScheduleRetriever_contains :: "status list \<Rightarrow> Schedule \<Rightarrow> bool" where
  "ScheduleRetriever_contains = contains_status"

definition ScheduleRetriever_actionIfRequired ::
    "'db env \<Rightarrow> App \<Rightarrow> Schedule list \<Rightarrow> status list \<Rightarrow> action_type \<Rightarrow> ('db node, go_error option) io" where
  "ScheduleRetriever_actionIfRequired E app schedules status actionType =
     on_bulk (actionIfRequired E app schedules status actionType)"

text \<open>
  The loop over the pages, with the batch that is not full yet: the error that ended it, or the
  open batch. It is no fixed number of steps, since an action may change the rows.
\<close>

partial_function (option) bulk_pages ::
    "'db env \<Rightarrow> App \<Rightarrow> int64 \<Rightarrow> time \<Rightarrow> status list \<Rightarrow> action_type \<Rightarrow> page_state \<Rightarrow> Schedule list \<Rightarrow> 'db node
       \<Rightarrow> ((go_error + Schedule list) go \<times> 'db node) option" where
  "bulk_pages E app partitionId scheduleTimeGroup status actionType pageState batch st =
     (case GetSchedulesForEntity E (app_AppId app) partitionId scheduleTimeGroup pageState (nd_DB st) of (rows, next, cerr) \<Rightarrow>
        (case on_bulk (bulk_rows E app status actionType rows batch) st of
           (Ret (Inr batch'), st') \<Rightarrow>
             (case cerr of
                Some err \<Rightarrow> Some (Ret (Inl err), st')
              | None \<Rightarrow>
                  if length next = 0 then Some (Ret (Inr batch'), st')
                  else bulk_pages E app partitionId scheduleTimeGroup status actionType next batch' st')
         | r \<Rightarrow> Some r))"

definition ScheduleRetriever_BulkAction ::
    "'db env \<Rightarrow> App \<Rightarrow> int64 \<Rightarrow> time \<Rightarrow> status list \<Rightarrow> action_type \<Rightarrow> ('db node, go_error option) io" where
  "ScheduleRetriever_BulkAction E app partitionId scheduleTimeGroup status actionType =
     recovering None
       (bnd (\<lambda>st. case bulk_pages E app partitionId scheduleTimeGroup status actionType [] [] st of
                    None \<Rightarrow> (Diverge, st) | Some r \<Rightarrow> r)
          (\<lambda>r. case r of
                 Inl err \<Rightarrow> ret (Some err)
               | Inr batch \<Rightarrow>
                   if length batch > 0 then ScheduleRetriever_actionIfRequired E app batch status actionType
                   else ret None))"

section \<open>Recurring schedules\<close>

definition CronRetriever_GetSchedules ::
    "'db env \<Rightarrow> string \<Rightarrow> int64 \<Rightarrow> time \<Rightarrow> ('db node, go_error option) io" where
  "CronRetriever_GetSchedules E app partitionId now st =
     bnd (lift_go (GetRecurringScheduleByPartition E partitionId (nd_DB st))) (\<lambda>(schedules, errs) st.
       (Ret None, st\<lparr>CronTaskQueue := CronTaskQueue st @
          map (\<lambda>s. \<lparr>task_Cron = s, task_From = now, task_Duration = wrap64 (CronWindow (env_Conf E) * minute_ns)\<rparr>)
            (filter (\<lambda>s. Status s = Scheduled) schedules)\<rparr>)) st"

definition CronRetriever_BulkAction ::
    "'db env \<Rightarrow> App \<Rightarrow> int64 \<Rightarrow> time \<Rightarrow> status list \<Rightarrow> action_type \<Rightarrow> ('db node, go_error option) io" where
  "CronRetriever_BulkAction E app partitionId timeBucket status actionType = ret None"

section \<open>Choice of a retriever\<close>

datatype retriever = ScheduleRetriever | CronRetriever

definition default_key :: string where
  "default_key = ''<<DEFAULT>>''"

text \<open>
  The map of retrievers. In the composite literal of \<^verbatim>\<open>InitRetrievers\<close> the entry of the cron app comes last.
  A key that is missing gives a nil retriever.
\<close>

definition InitRetrievers :: "conf \<Rightarrow> (string \<times> retriever) list" where
  "InitRetrievers c = put_assoc (CronApp c) CronRetriever [(default_key, ScheduleRetriever)]"

definition Get :: "(string \<times> retriever) list \<Rightarrow> string \<Rightarrow> retriever option" where
  "Get retrievers app =
     (case map_of retrievers app of Some r \<Rightarrow> Some r | None \<Rightarrow> map_of retrievers default_key)"

definition GetSchedules :: "'db env \<Rightarrow> retriever option \<Rightarrow> string \<Rightarrow> int64 \<Rightarrow> time \<Rightarrow> ('db node, go_error option) io" where
  "GetSchedules E r =
     (case r of
        Some ScheduleRetriever \<Rightarrow> ScheduleRetriever_GetSchedules E
      | Some CronRetriever \<Rightarrow> CronRetriever_GetSchedules E
      | None \<Rightarrow> (\<lambda>app p t. lift_go (Panic ''nil pointer dereference'')))"

definition retriever_BulkAction ::
    "'db env \<Rightarrow> retriever option \<Rightarrow> App \<Rightarrow> int64 \<Rightarrow> time \<Rightarrow> status list \<Rightarrow> action_type \<Rightarrow> ('db node, go_error option) io" where
  "retriever_BulkAction E r =
     (case r of
        Some ScheduleRetriever \<Rightarrow> ScheduleRetriever_BulkAction E
      | Some CronRetriever \<Rightarrow> CronRetriever_BulkAction E
      | None \<Rightarrow> (\<lambda>app p t status a. lift_go (Panic ''nil pointer dereference'')))"

section \<open>Pollers\<close>

text \<open>A ticker that is not nil ticks or has been stopped.\<close>

record poller =
  AppName :: string
  pl_PartitionId :: int64
  scheduleRetrievalImpl :: "retriever option"
  ticker :: "bool option"

definition Poller_Init :: "poller \<Rightarrow> poller" where
  "Poller_Init p = p\<lparr>ticker := Some True\<rparr>"

definition Poller_Stop :: "poller \<Rightarrow> poller go" where
  "Poller_Stop p =
     (case ticker p of None \<Rightarrow> Panic ''nil pointer dereference'' | Some _ \<Rightarrow> Ret (p\<lparr>ticker := Some False\<rparr>))"

text \<open>\<^verbatim>\<open>PollerFactory.CreateEntity\<close>: the name is split at every dot and the first two parts are used.\<close>

definition GetEntityRetriever :: "conf \<Rightarrow> string \<Rightarrow> retriever option" where
  "GetEntityRetriever c appName = Get (InitRetrievers c) appName"

definition PollerFactory_CreateEntity :: "conf \<Rightarrow> string \<Rightarrow> poller go" where
  "PollerFactory_CreateEntity c pollerId =
     (case split_on CHR ''.'' pollerId of
        appName # partitionId # _ \<Rightarrow>
          (case ParseInt partitionId of (i, err) \<Rightarrow>
             if err then Panic (''Cannot create poller for '' @ pollerId)
             else Ret \<lparr>AppName = appName, pl_PartitionId = i, scheduleRetrievalImpl = GetEntityRetriever c appName, ticker = None\<rparr>)
      | _ \<Rightarrow> Panic ''index out of range'')"

text \<open>
  The start of the minute. \<^verbatim>\<open>time.Date\<close> with the fields of the time and zero seconds gives the time less its
  seconds, except in an hour that the clocks pass twice, which is left aside.
\<close>

definition start_of_minute :: "'db env \<Rightarrow> time \<Rightarrow> time" where
  "start_of_minute E t = t - (tSecond (env_Civil E t) * second + t mod second)"

text \<open>What a poller does at a tick; the call runs in a goroutine of its own and its error is dropped.\<close>

definition poller_tick :: "'db env \<Rightarrow> poller \<Rightarrow> time \<Rightarrow> ('db node, unit) io" where
  "poller_tick E p currentTime =
     bnd (GetSchedules E (scheduleRetrievalImpl p) (AppName p) (pl_PartitionId p) (start_of_minute E currentTime))
       (\<lambda>_. ret ())"

end
