(* ===== verification/Supervisor.thy ===== *)
theory Supervisor
  imports Retrievers
begin

text \<open>
  The supervisor of a node (src/cluster/supervisor.go, messages.go, recoverable.go): which entities run
  on which node of the cluster. The state is that of the whole cluster, since a node forwards requests to
  others: the shared database, and for every address the entities, the cache and the queues of that
  node. Ringpop and TChannel are not part of the sources; what the supervisor asks of them is the
  record \<open>ringpop\<close>.
\<close>

section \<open>State\<close>

record recoverable =
  Obj :: poller
  Recovered :: int64

record member =
  entities :: "(string \<times> recoverable) list"
  mb_AppMap :: "(string \<times> App) list"
  mb_Queues :: queues
  mb_CronTasks :: "CreateScheduleTask list"

record 'db net =
  net_DB :: 'db
  members :: "string \<Rightarrow> member"

text \<open>The node at an address, as the other components see it.\<close>

definition node_at :: "string \<Rightarrow> 'db net \<Rightarrow> 'db node" where
  "node_at a n =
     (let m = members n a in
      \<lparr>nd_Cluster = \<lparr>cl_DB = net_DB n, AppMap = mb_AppMap m\<rparr>, nd_Queues = mb_Queues m, CronTaskQueue = mb_CronTasks m\<rparr>)"

definition put_node :: "string \<Rightarrow> 'db node \<Rightarrow> 'db net \<Rightarrow> 'db net" where
  "put_node a nd n =
     \<lparr>net_DB = nd_DB nd,
      members = (members n)(a := (members n a)\<lparr>mb_AppMap := AppMap (nd_Cluster nd), mb_Queues := nd_Queues nd,
        mb_CronTasks := CronTaskQueue nd\<rparr>)\<rparr>"

definition at_node :: "string \<Rightarrow> ('db node, 'a) io \<Rightarrow> ('db net, 'a) io" where
  "at_node a f n = (case f (node_at a n) of (x, nd) \<Rightarrow> (x, put_node a nd n))"

definition dao :: "('db cluster, 'a) io \<Rightarrow> ('db node, 'a) io" where
  "dao f st = (case f (nd_Cluster st) of (x, c) \<Rightarrow> (x, st\<lparr>nd_Cluster := c\<rparr>))"

text \<open>A read of the database by the cluster DAO of a node.\<close>

definition read_db :: "string \<Rightarrow> ('db cluster \<Rightarrow> 'a go) \<Rightarrow> ('db net, 'a) io" where
  "read_db a f n = (f (nd_Cluster (node_at a n)), n)"

definition entities_at :: "'db net \<Rightarrow> string \<Rightarrow> (string \<times> recoverable) list" where
  "entities_at n a = entities (members n a)"

definition set_entities :: "string \<Rightarrow> (string \<times> recoverable) list \<Rightarrow> 'db net \<Rightarrow> 'db net" where
  "set_entities a es n = n\<lparr>members := (members n)(a := (members n a)\<lparr>entities := es\<rparr>)\<rparr>"

section \<open>Options\<close>

text \<open>
  The levels of ringpop's log are kept by name. The reporter of statistics is an interface value, of which only
  its presence is kept.
\<close>

record options =
  clusterName :: string
  address :: string
  logEnabled :: bool
  logLevels :: "(string \<times> string) list"
  replicaPoints :: int64
  bootStrapServers :: "string list"
  joinSize :: int64
  statsD :: "unit option"
  reconciliationEnabled :: bool
  reconciliationOffset :: int64

definition defaultOptions :: options where
  "defaultOptions =
     \<lparr>clusterName = ''default'', address = ''127.0.0.1:9091'', logEnabled = True,
      logLevels = map (\<lambda>k. (k, ''Debug''))
        [''join'', ''damping'', ''dissemination'', ''gossip'', ''membership'', ''ring'', ''suspicion''],
      replicaPoints = 2, bootStrapServers = [''127.0.0.1:9091''], joinSize = 1, statsD = None,
      reconciliationEnabled = True, reconciliationOffset = 3\<rparr>"

definition WithClusterName :: "string \<Rightarrow> options \<Rightarrow> options" where
  "WithClusterName v o' = o'\<lparr>clusterName := v\<rparr>"

definition WithAddress :: "string \<Rightarrow> options \<Rightarrow> options" where
  "WithAddress v o' = o'\<lparr>address := v\<rparr>"

definition WithLogEnabled :: "bool \<Rightarrow> options \<Rightarrow> options" where
  "WithLogEnabled v o' = o'\<lparr>logEnabled := v\<rparr>"

definition WithLogLevels :: "(string \<times> string) list \<Rightarrow> options \<Rightarrow> options" where
  "WithLogLevels v o' = o'\<lparr>logLevels := v\<rparr>"

definition WithReplicaPoints :: "int64 \<Rightarrow> options \<Rightarrow> options" where
  "WithReplicaPoints v o' = o'\<lparr>replicaPoints := v\<rparr>"

definition WithBootStrapServers :: "string list \<Rightarrow> options \<Rightarrow> options" where
  "WithBootStrapServers v o' = o'\<lparr>bootStrapServers := v\<rparr>"

definition WithJoinSize :: "int64 \<Rightarrow> options \<Rightarrow> options" where
  "WithJoinSize v o' = o'\<lparr>joinSize := v\<rparr>"

definition WithStatsD :: "unit option \<Rightarrow> options \<Rightarrow> options" where
  "WithStatsD v o' = o'\<lparr>statsD := v\<rparr>"

definition WithReconciliationEnabled :: "bool \<Rightarrow> options \<Rightarrow> options" where
  "WithReconciliationEnabled v o' = o'\<lparr>reconciliationEnabled := v\<rparr>"

definition WithReconciliationOffset :: "int64 \<Rightarrow> options \<Rightarrow> options" where
  "WithReconciliationOffset v o' = o'\<lparr>reconciliationOffset := v\<rparr>"

text \<open>A new supervisor: the options applied in order, and no entities.\<close>

definition NewSupervisor :: "(options \<Rightarrow> options) list \<Rightarrow> options \<times> (string \<times> recoverable) list" where
  "NewSupervisor opt = (fold (\<lambda>o' opts. o' opts) opt defaultOptions, [])"

section \<open>Messages and ringpop\<close>

datatype entity = EntityIDs "string list" | AppNames "string list" | OtherEntity string

record Request =
  rq_entity :: entity
  rq_method :: string
  destNode :: string

record Response =
  ServerAddress :: string
  rs_Error :: string
  rs_Status :: int64

definition SUCCESS :: int64 where "SUCCESS = 0"
definition FAILED :: int64 where "FAILED = 1"

definition STOPPED :: int64 where "STOPPED = 0"
definition RUNNING :: int64 where "RUNNING = 1"

definition StartEntities_name :: string where "StartEntities_name = ''StartEntities''"
definition StopEntities_name :: string where "StopEntities_name = ''StopEntities''"
definition AppDetailsUpdate :: string where "AppDetailsUpdate = ''AppDetailsUpdate''"

definition put_response :: "string \<Rightarrow> json \<Rightarrow> Response \<Rightarrow> Response \<times> bool" where
  "put_response f v r =
     (if f = ''ServerAddress'' then (case read_string v (ServerAddress r) of (s, e) \<Rightarrow> (r\<lparr>ServerAddress := s\<rparr>, e))
      else if f = ''Error'' then (case read_string v (rs_Error r) of (s, e) \<Rightarrow> (r\<lparr>rs_Error := s\<rparr>, e))
      else (case read_int v (rs_Status r) of (i, e) \<Rightarrow> (r\<lparr>rs_Status := i\<rparr>, e)))"

definition unmarshal_response :: "string \<Rightarrow> Response \<times> bool" where
  "unmarshal_response s =
     (let zero = \<lparr>ServerAddress = [], rs_Error = [], rs_Status = 0\<rparr> in
      case parse_json s of
        None \<Rightarrow> (zero, True)
      | Some j \<Rightarrow> read_struct [''ServerAddress'', ''Error'', ''Status''] put_response j zero)"

text \<open>
  What the supervisor of an address asks of ringpop: the node that a key belongs to, the nodes that can be
  reached, and to forward a request (destination, keys, body, method), which may change the state of every
  node and the database.
\<close>

record 'db ringpop =
  Lookup :: "string \<Rightarrow> string \<Rightarrow> go_error + string"
  GetReachableMembers :: "string \<Rightarrow> go_error + string list"
  Forward :: "string \<Rightarrow> string list \<Rightarrow> string \<Rightarrow> string \<Rightarrow> 'db net \<Rightarrow> (string option \<times> go_error option) \<times> 'db net"

section \<open>Starting and stopping one entity\<close>

text \<open>
  \<^verbatim>\<open>RecoverableEntity.Start\<close> runs in a goroutine of its own: it makes a new ticker, stopping the old one, and
  then waits for ticks for ever. A poller that waits for ticks does not panic, so the recovery is not reached.
\<close>

definition RecoverableEntity_Start :: "recoverable \<Rightarrow> recoverable" where
  "RecoverableEntity_Start r = r\<lparr>Obj := Poller_Init (Obj r)\<rparr>"

definition RecoverableEntity_Stop :: "recoverable \<Rightarrow> recoverable go" where
  "RecoverableEntity_Stop r = bind_go (Poller_Stop (Obj r)) (\<lambda>p. Ret (r\<lparr>Obj := p\<rparr>))"

definition StartEntity :: "'db env \<Rightarrow> string \<Rightarrow> string \<Rightarrow> ('db net, bool \<times> go_error option) io" where
  "StartEntity E a eid =
     bnd (\<lambda>n. case map_of (entities_at n a) eid of
            None \<Rightarrow>
              (case PollerFactory_CreateEntity (env_Conf E) eid of
                 Ret p \<Rightarrow> (Ret (), set_entities a (put_assoc eid (RecoverableEntity_Start \<lparr>Obj = p, Recovered = 0\<rparr>) (entities_at n a)) n)
               | Panic e \<Rightarrow> (Panic e, n)
               | Diverge \<Rightarrow> (Diverge, n))
          | Some r \<Rightarrow> (Ret (), set_entities a (put_assoc eid (RecoverableEntity_Start r) (entities_at n a)) n))
       (\<lambda>_. bnd (at_node a (dao (UpdateEntityStatus E eid a RUNNING))) (\<lambda>err. ret (True, err)))"

definition StopEntity :: "'db env \<Rightarrow> string \<Rightarrow> string \<Rightarrow> ('db net, bool \<times> go_error option) io" where
  "StopEntity E a eid n =
     (case map_of (entities_at n a) eid of
        None \<Rightarrow> (Ret (False, None), n)
      | Some r \<Rightarrow>
          bnd (lift_go (RecoverableEntity_Stop r)) (\<lambda>_.
          bnd (\<lambda>n. (Ret (), set_entities a (filter (\<lambda>(k, _). k \<noteq> eid) (entities_at n a)) n)) (\<lambda>_.
          bnd (at_node a (dao (UpdateEntityStatus E eid a STOPPED))) (\<lambda>err. ret (True, err)))) n)"

section \<open>Forwarding\<close>

text \<open>\<^verbatim>\<open>%+v\<close> of an entity of a request.\<close>

definition show_entity :: "entity \<Rightarrow> string" where
  "show_entity v =
     (case v of
        EntityIDs ids \<Rightarrow> ''{Ids:['' @ join '' '' ids @ '']}''
      | AppNames names \<Rightarrow> ''{Names:['' @ join '' '' names @ '']}''
      | OtherEntity s \<Rightarrow> s)"

definition request_body :: "string \<Rightarrow> string list \<Rightarrow> string" where
  "request_body f ids = print_json (JObj [(f, JArr (map JStr ids))])"

definition forwardEntity :: "'db ringpop \<Rightarrow> Request \<Rightarrow> ('db net, string option \<times> go_error option) io" where
  "forwardEntity R r n =
     (case rq_entity r of
        EntityIDs ids \<Rightarrow> (case Forward R (destNode r) ids (request_body ''Ids'' ids) (rq_method r) n of (x, n') \<Rightarrow> (Ret x, n'))
      | AppNames ids \<Rightarrow> (case Forward R (destNode r) ids (request_body ''Names'' ids) (rq_method r) n of (x, n') \<Rightarrow> (Ret x, n'))
      | OtherEntity s \<Rightarrow> (Ret (None, Some (Err (''Unknown entity '' @ s))), n))"

definition forwardOrPanicIfRequired :: "'db ringpop \<Rightarrow> string \<Rightarrow> Request \<Rightarrow> ('db net, unit) io" where
  "forwardOrPanicIfRequired R a r =
     bnd (forwardEntity R r) (\<lambda>(handle, err).
       case handle of
         Some bytes \<Rightarrow>
           if snd (unmarshal_response bytes)
           then lift_go (Panic (''Error while Unmarshalling '' @ bytes @ '' response, err: unmarshal''))
           else ret ()
       | None \<Rightarrow>
           (case err of
              Some e \<Rightarrow> lift_go (Panic (''Forwarding entity '' @ show_entity (rq_entity r) @ '' to node '' @ destNode r @
                          '' from node '' @ a @ '' failed with error : '' @ Error e))
            | None \<Rightarrow> ret ()))"

definition entity_request :: "EntityInfo \<Rightarrow> string \<Rightarrow> Request" where
  "entity_request entity method = \<lparr>rq_entity = EntityIDs [ei_Id entity], rq_method = method, destNode = ei_Node entity\<rparr>"

definition forward :: "'db ringpop \<Rightarrow> EntityInfo \<Rightarrow> string \<Rightarrow> ('db net, string option \<times> go_error option) io" where
  "forward R entity method = forwardEntity R (entity_request entity method)"

definition forwardOrPanic :: "'db ringpop \<Rightarrow> string \<Rightarrow> EntityInfo \<Rightarrow> string \<Rightarrow> ('db net, unit) io" where
  "forwardOrPanic R a entity method = forwardOrPanicIfRequired R a (entity_request entity method)"

text \<open>\<^verbatim>\<open>Lookup\<close> at a node; an error is a panic with a text that the caller makes of it.\<close>

definition lookup_or_panic :: "'db ringpop \<Rightarrow> string \<Rightarrow> string \<Rightarrow> (go_error \<Rightarrow> string) \<Rightarrow> ('db net, string) io" where
  "lookup_or_panic R a eid msg =
     lift_go (case Lookup R a eid of Inr dest \<Rightarrow> Ret dest | Inl err \<Rightarrow> Panic (msg err))"

section \<open>The handlers of requests\<close>

text \<open>
  The loops of the handlers; the value is the error with which the handler returns early. A panic is turned into
  a response that says so.
\<close>

fun start_entities :: "'db ringpop \<Rightarrow> 'db env \<Rightarrow> string \<Rightarrow> string list \<Rightarrow> ('db net, go_error option) io" where
  "start_entities R E a [] = ret None"
| "start_entities R E a (eid # ids) =
     bnd (lookup_or_panic R a eid Error) (\<lambda>dest.
       if dest = a then
         bnd (StartEntity E a eid) (\<lambda>(_, err). if err \<noteq> None then ret err else start_entities R E a ids)
       else
         bnd (forwardOrPanicIfRequired R a \<lparr>rq_entity = EntityIDs [eid], rq_method = StartEntities_name, destNode = dest\<rparr>)
           (\<lambda>_. start_entities R E a ids))"

fun stop_entities :: "'db ringpop \<Rightarrow> 'db env \<Rightarrow> string \<Rightarrow> string list \<Rightarrow> ('db net, go_error option) io" where
  "stop_entities R E a [] = ret None"
| "stop_entities R E a (eid # ids) =
     bnd (StopEntity E a eid) (\<lambda>(exists, err).
       case err of
         Some e \<Rightarrow> lift_go (Panic (Error e))
       | None \<Rightarrow>
           bnd (lookup_or_panic R a eid Error) (\<lambda>dest.
             if exists \<or> dest = a then stop_entities R E a ids
             else
               bnd (forwardOrPanicIfRequired R a \<lparr>rq_entity = EntityIDs [eid], rq_method = StopEntities_name, destNode = dest\<rparr>)
                 (\<lambda>_. stop_entities R E a ids)))"

definition responding :: "string \<Rightarrow> ('db net, go_error option) io \<Rightarrow> ('db net, Response \<times> go_error option) io" where
  "responding a m n =
     (case m n of
        (Ret err, n') \<Rightarrow> (Ret (\<lparr>ServerAddress = a, rs_Error = [], rs_Status = SUCCESS\<rparr>, err), n')
      | (Panic e, n') \<Rightarrow>
          if e = exit_text then (Fatal, n')
          else (Ret (\<lparr>ServerAddress = a, rs_Error = e, rs_Status = FAILED\<rparr>, None), n')
      | (Diverge, n') \<Rightarrow> (Diverge, n'))"

definition StartEntities :: "'db ringpop \<Rightarrow> 'db env \<Rightarrow> string \<Rightarrow> string list \<Rightarrow> ('db net, Response \<times> go_error option) io" where
  "StartEntities R E a ids = responding a (start_entities R E a ids)"

definition StopEntities :: "'db ringpop \<Rightarrow> 'db env \<Rightarrow> string \<Rightarrow> string list \<Rightarrow> ('db net, Response \<times> go_error option) io" where
  "StopEntities R E a ids = responding a (stop_entities R E a ids)"

definition AppDetailsUpdateHandler :: "string \<Rightarrow> string \<Rightarrow> ('db net, unit) io" where
  "AppDetailsUpdateHandler a appName = at_node a (on_cluster (\<lambda>c. ((), InvalidateSingleAppCache appName c)))"

fun app_details_updates :: "string \<Rightarrow> string list \<Rightarrow> ('db net, go_error option) io" where
  "app_details_updates a [] = ret None"
| "app_details_updates a (appName # names) = bnd (AppDetailsUpdateHandler a appName) (\<lambda>_. app_details_updates a names)"

text \<open>
  The results of this handler are not named, so that after a recovered panic they would be nil; invalidating an entry of
  the cache does not panic.
\<close>

definition AppDetailsUpdateEventHandler :: "string \<Rightarrow> string list \<Rightarrow> ('db net, Response \<times> go_error option) io" where
  "AppDetailsUpdateEventHandler a names = responding a (app_details_updates a names)"

text \<open>The handlers registered for the methods.\<close>

definition RegisterHandler ::
    "'db ringpop \<Rightarrow> 'db env \<Rightarrow> string \<Rightarrow> (string \<times> (string list \<Rightarrow> ('db net, Response \<times> go_error option) io)) list" where
  "RegisterHandler R E a =
     [(StartEntities_name, StartEntities R E a), (StopEntities_name, StopEntities R E a),
      (AppDetailsUpdate, AppDetailsUpdateEventHandler a)]"

section \<open>Booting\<close>

text \<open>A change of an app is announced to every node that can be reached, the node itself included.\<close>

fun broadcast :: "'db ringpop \<Rightarrow> string \<Rightarrow> string \<Rightarrow> string list \<Rightarrow> ('db net, unit) io" where
  "broadcast R a appName [] = ret ()"
| "broadcast R a appName (node # nodes) =
     bnd (if node = a then AppDetailsUpdateHandler a appName
          else forwardOrPanicIfRequired R a \<lparr>rq_entity = AppNames [appName], rq_method = AppDetailsUpdate, destNode = node\<rparr>)
       (\<lambda>_. broadcast R a appName nodes)"

definition appDetailsUpdateBroadcast :: "'db ringpop \<Rightarrow> string \<Rightarrow> string \<Rightarrow> ('db net, unit) io" where
  "appDetailsUpdateBroadcast R a appName =
     (case GetReachableMembers R a of Inl err \<Rightarrow> ret () | Inr nodes \<Rightarrow> broadcast R a appName nodes)"

definition get_app :: "'db env \<Rightarrow> string \<Rightarrow> string \<Rightarrow> ('db net, App \<times> go_error option) io" where
  "get_app E a appName = at_node a (on_cluster (GetApp E appName))"

text \<open>The body of \<^verbatim>\<open>BootEntity\<close>; a panic in it becomes the returned error.\<close>

definition boot_entity :: "'db ringpop \<Rightarrow> 'db env \<Rightarrow> string \<Rightarrow> EntityInfo \<Rightarrow> bool \<Rightarrow> ('db net, unit) io" where
  "boot_entity R E a entity fwd =
     bnd (lift_go (GetAppName entity)) (\<lambda>appName.
     bnd (get_app E a appName) (\<lambda>(app, err).
       case err of
         Some e \<Rightarrow> lift_go (Panic (''Error: '' @ Error e @ '', while getting app status while booting''))
       | None \<Rightarrow>
           if \<not> Active app then ret ()
           else
             (case GetReachableMembers R a of
                Inl e \<Rightarrow> lift_go (Panic (''Error '' @ Error e @ '' on node '' @ a @ '' while querying for reachable mebers''))
              | Inr nodes \<Rightarrow>
                  bnd (lookup_or_panic R a (ei_Id entity) (\<lambda>e. ''Lookup failed for entity '' @ ei_Id entity @ '' with error '' @ Error e))
                    (\<lambda>dest.
                       if dest = a then
                         bnd (if ei_Status entity = RUNNING \<and> ei_Node entity \<in> set nodes \<and> ei_Node entity \<noteq> a
                              then forwardOrPanic R a entity StopEntities_name else ret ()) (\<lambda>_.
                         bnd (StartEntity E a (ei_Id entity)) (\<lambda>(_, err).
                           case err of
                             Some e \<Rightarrow> lift_go (Panic (''Start entity failed for entity '' @ ei_Id entity @ '' with error '' @ Error e))
                           | None \<Rightarrow> ret ()))
                       else if fwd then forwardOrPanic R a entity StartEntities_name
                       else ret ()))))"

definition BootEntity :: "'db ringpop \<Rightarrow> 'db env \<Rightarrow> string \<Rightarrow> EntityInfo \<Rightarrow> bool \<Rightarrow> ('db net, go_error option) io" where
  "BootEntity R E a entity fwd n =
     (case boot_entity R E a entity fwd n of
        (Ret u, n') \<Rightarrow> (Ret None, n')
      | (Panic e, n') \<Rightarrow> if e = exit_text then (Fatal, n') else (Ret (Some (Err e)), n')
      | (Diverge, n') \<Rightarrow> (Diverge, n'))"

fun boot_entities :: "'db ringpop \<Rightarrow> 'db env \<Rightarrow> string \<Rightarrow> EntityInfo list \<Rightarrow> ('db net, unit) io" where
  "boot_entities R E a [] = ret ()"
| "boot_entities R E a (entity # es) =
     bnd (BootEntity R E a entity False) (\<lambda>err.
       case err of Some e \<Rightarrow> lift_go (Panic (Error e)) | None \<Rightarrow> boot_entities R E a es)"

definition Boot :: "'db ringpop \<Rightarrow> 'db env \<Rightarrow> string \<Rightarrow> ('db net, unit) io" where
  "Boot R E a = bnd (read_db a (GetAllEntitiesInfo E)) (boot_entities R E a)"

fun stop_all :: "'db env \<Rightarrow> string \<Rightarrow> string list \<Rightarrow> ('db net, unit) io" where
  "stop_all E a [] = ret ()"
| "stop_all E a (eid # ids) =
     bnd (StopEntity E a eid) (\<lambda>(_, err).
       case err of
         Some e \<Rightarrow> lift_go (Panic (''Error while stopping key: '' @ eid @ '', error: '' @ Error e))
       | None \<Rightarrow> stop_all E a ids)"

definition StopNode :: "'db env \<Rightarrow> string \<Rightarrow> ('db net, unit) io" where
  "StopNode E a n = stop_all E a (map fst (entities_at n a)) n"

section \<open>A node that left\<close>

text \<open>The minutes from \<open>timeOffset\<close> minutes ago until now; errors are only logged.\<close>

fun retry_minutes :: "'db env \<Rightarrow> string \<Rightarrow> App \<Rightarrow> int64 \<Rightarrow> nat list \<Rightarrow> ('db net, unit) io" where
  "retry_minutes E a app partitionId [] = ret ()"
| "retry_minutes E a app partitionId (i # is) =
     bnd (at_node a (retriever_BulkAction E (GetEntityRetriever (env_Conf E) (app_AppId app)) app partitionId
            (start_of_minute E (env_Now E) - int i * minute_ns) [Scheduled, Miss] Reconcile))
       (\<lambda>_. retry_minutes E a app partitionId is)"

definition fetchAndRetrySchedule :: "'db env \<Rightarrow> string \<Rightarrow> App \<Rightarrow> int64 \<Rightarrow> int64 \<Rightarrow> ('db net, unit) io" where
  "fetchAndRetrySchedule E a app partitionId timeOffset =
     retry_minutes E a app partitionId (rev [0..<nat (timeOffset + 1)])"

definition offload_entity :: "'db ringpop \<Rightarrow> 'db env \<Rightarrow> options \<Rightarrow> string \<Rightarrow> EntityInfo \<Rightarrow> ('db net, unit) io" where
  "offload_entity R E opts a entity =
     bnd (lift_go (GetAppName entity)) (\<lambda>appName.
     bnd (get_app E a appName) (\<lambda>(app, err).
       if err \<noteq> None then lift_go (Panic (''Could not get app: '' @ appName))
       else if \<not> Active app then ret ()
       else
         bnd (lookup_or_panic R a (ei_Id entity) (\<lambda>e. ''Lookup failed with error '' @ Error e)) (\<lambda>dest.
           if dest = a then
             bnd (StartEntity E a (ei_Id entity)) (\<lambda>(_, err).
               if err \<noteq> None then lift_go (Panic (''Error starting entity: '' @ ei_Id entity))
               else if reconciliationEnabled opts
               then fetchAndRetrySchedule E a app (GetPartitionId entity) (reconciliationOffset opts)
               else ret ())
           else ret ())))"

fun offload_entities :: "'db ringpop \<Rightarrow> 'db env \<Rightarrow> options \<Rightarrow> string \<Rightarrow> EntityInfo list \<Rightarrow> ('db net, unit) io" where
  "offload_entities R E opts a [] = ret ()"
| "offload_entities R E opts a (entity # es) =
     bnd (offload_entity R E opts a entity) (\<lambda>_. offload_entities R E opts a es)"

definition OffloadOrPanic :: "'db ringpop \<Rightarrow> 'db env \<Rightarrow> options \<Rightarrow> string \<Rightarrow> string \<Rightarrow> ('db net, unit) io" where
  "OffloadOrPanic R E opts a nodeName =
     bnd (read_db a (GetAllEntitiesInfoOfNode E nodeName)) (offload_entities R E opts a)"

text \<open>The events: the servers that left the ring, and those without an effect.\<close>

datatype event = RingChangedEvent "string list" | MemberlistChangesReceivedEvent | OtherEvent

fun servers_removed :: "'db ringpop \<Rightarrow> 'db env \<Rightarrow> options \<Rightarrow> string \<Rightarrow> string list \<Rightarrow> ('db net, unit) io" where
  "servers_removed R E opts a [] = ret ()"
| "servers_removed R E opts a (server # servers) =
     (if a = server then lift_go (Panic ''ServersRemoved for Self!!!'')
      else bnd (OffloadOrPanic R E opts a server) (\<lambda>_. servers_removed R E opts a servers))"

definition HandleEvent :: "'db ringpop \<Rightarrow> 'db env \<Rightarrow> options \<Rightarrow> string \<Rightarrow> event \<Rightarrow> ('db net, unit) io" where
  "HandleEvent R E opts a e =
     (case e of RingChangedEvent servers \<Rightarrow> servers_removed R E opts a servers | _ \<Rightarrow> ret ())"

section \<open>Apps\<close>

fun deactivate_partitions :: "'db ringpop \<Rightarrow> 'db env \<Rightarrow> string \<Rightarrow> string \<Rightarrow> nat list \<Rightarrow> ('db net, unit) io" where
  "deactivate_partitions R E a app [] = ret ()"
| "deactivate_partitions R E a app (p # ps) =
     (let eid = entity_id app p in
      bnd (lookup_or_panic R a eid (\<lambda>e. ''Lookup failed with error '' @ Error e)) (\<lambda>dest.
        if dest \<noteq> a then
          bnd (forwardOrPanic R a (empty_entity\<lparr>ei_Id := eid, ei_Node := dest\<rparr>) StopEntities_name)
            (\<lambda>_. deactivate_partitions R E a app ps)
        else
          bnd (StopEntity E a eid) (\<lambda>(_, err).
            case err of
              Some e \<Rightarrow> lift_go (Panic (''Stopping entity failed with error '' @ Error e))
            | None \<Rightarrow> deactivate_partitions R E a app ps)))"

definition DeactivateApp :: "'db ringpop \<Rightarrow> 'db env \<Rightarrow> string \<Rightarrow> App \<Rightarrow> ('db net, unit) io" where
  "DeactivateApp R E a app =
     bnd (deactivate_partitions R E a (app_AppId app) [0..<unat (Partitions app)]) (\<lambda>_.
       appDetailsUpdateBroadcast R a (app_AppId app))"

fun activate_partitions :: "'db ringpop \<Rightarrow> 'db env \<Rightarrow> string \<Rightarrow> string \<Rightarrow> nat list \<Rightarrow> ('db net, unit) io" where
  "activate_partitions R E a app [] = ret ()"
| "activate_partitions R E a app (p # ps) =
     (let eid = entity_id app p in
      bnd (lookup_or_panic R a eid (\<lambda>e. ''Lookup failed with error '' @ Error e)) (\<lambda>dest.
        if dest \<noteq> a then
          bnd (forwardOrPanic R a (empty_entity\<lparr>ei_Id := eid, ei_Node := dest\<rparr>) StartEntities_name)
            (\<lambda>_. activate_partitions R E a app ps)
        else
          bnd (StartEntity E a eid) (\<lambda>(_, err).
            case err of
              Some e \<Rightarrow> lift_go (Panic (''Starting entity failed with error '' @ Error e))
            | None \<Rightarrow> activate_partitions R E a app ps)))"

definition ActivateApp :: "'db ringpop \<Rightarrow> 'db env \<Rightarrow> string \<Rightarrow> App \<Rightarrow> ('db net, unit) io" where
  "ActivateApp R E a app =
     bnd (activate_partitions R E a (app_AppId app) [0..<unat (Partitions app)]) (\<lambda>_.
       appDetailsUpdateBroadcast R a (app_AppId app))"

end
