(* ===== verification/Service.thy ===== *)
theory Service
  imports Supervisor
begin

text \<open>
  The HTTP interface (src/service/*.go) and its error codes (src/error/error.go). A handler is a function of the
  parts of the request that it reads; what it writes is the HTTP status with the status and the data of the JSON
  body. Counters of requests are left out.
\<close>

section \<open>State and parameters\<close>

record 'db server =
  sv_Net :: "'db net"
  sv_Fresh :: nat
  BulkActionQueue :: "BulkActionTask list"

text \<open>
  \<^verbatim>\<open>gocql.ParseUUID\<close>, the UUID of a JSON value, \<^verbatim>\<open>time.ParseInLocation\<close> with the layout of the service and the location
  Asia/Kolkata, which the time zone database of the machine decides, and the texts of a time and of an error of
  \<^verbatim>\<open>strconv.ParseInt\<close>, which only messages contain.
\<close>

record web =
  ParseUUID :: "string \<Rightarrow> go_error + uuid"
  uuid_of_json :: "json \<Rightarrow> uuid option"
  ParseInLocation :: "string \<Rightarrow> go_error + time"
  show_time :: "time \<Rightarrow> string"
  show_num_error :: "string \<Rightarrow> string"

definition on_net :: "('db net, 'a) io \<Rightarrow> ('db server, 'a) io" where
  "on_net f st = (case f (sv_Net st) of (x, n) \<Rightarrow> (x, st\<lparr>sv_Net := n\<rparr>))"

definition cluster_dao :: "string \<Rightarrow> ('db cluster \<Rightarrow> 'a \<times> 'db cluster) \<Rightarrow> ('db server, 'a) io" where
  "cluster_dao a f = on_net (at_node a (on_cluster f))"

definition schedule_read :: "('db \<Rightarrow> 'a go) \<Rightarrow> ('db server, 'a) io" where
  "schedule_read f st = (f (net_DB (sv_Net st)), st)"

definition schedule_write :: "('db \<Rightarrow> ('a \<times> 'db) go) \<Rightarrow> ('db server, 'a) io" where
  "schedule_write f st =
     (case f (net_DB (sv_Net st)) of
        Ret (x, db') \<Rightarrow> (Ret x, st\<lparr>sv_Net := (sv_Net st)\<lparr>net_DB := db'\<rparr>\<rparr>)
      | Panic e \<Rightarrow> (Panic e, st)
      | Diverge \<Rightarrow> (Diverge, st))"

section \<open>Errors\<close>

definition InvalidDataCode :: int where "InvalidDataCode = 400"
definition DataNotFound :: int where "DataNotFound = 404"
definition Conflict :: int where "Conflict = 409"
definition UnprocessableEntity :: int where "UnprocessableEntity = 422"
definition TooManyRequests :: int where "TooManyRequests = 429"
definition InvalidAppId :: int where "InvalidAppId = 4001"
definition DeactivatedApp :: int where "DeactivatedApp = 4002"
definition ActivatedApp :: int where "ActivatedApp = 4003"
definition BulkActionPushFailure :: int where "BulkActionPushFailure = 4004"
definition InvalidBulkActionType :: int where "InvalidBulkActionType = 4005"
definition UnmarshalErrorCode :: int where "UnmarshalErrorCode = 5001"
definition ValidationFailCode :: int where "ValidationFailCode = 5003"
definition DataPersistenceFailure :: int where "DataPersistenceFailure = 5004"
definition InvalidCallbackType :: int where "InvalidCallbackType = 5005"
definition DataFetchFailure :: int where "DataFetchFailure = 5006"
definition EntityBootFailed :: int where "EntityBootFailed = 5007"

lemmas error_codes = InvalidDataCode_def DataNotFound_def Conflict_def UnprocessableEntity_def TooManyRequests_def
  InvalidAppId_def DeactivatedApp_def ActivatedApp_def BulkActionPushFailure_def InvalidBulkActionType_def
  UnmarshalErrorCode_def ValidationFailCode_def DataPersistenceFailure_def InvalidCallbackType_def DataFetchFailure_def
  EntityBootFailed_def

definition NewError :: "int \<Rightarrow> go_error \<Rightarrow> go_error" where
  "NewError code err = AppErr code err"

record status_body =
  StatusCode :: int
  StatusMessage :: string
  StatusType :: string
  TotalCount :: int

datatype data =
    NoData
  | ScheduleData Schedule
  | SchedulesData "Schedule list"
  | RunsData "Schedule list" string
  | PaginatedData "Schedule list" string int64
  | AppData App
  | AppsData "App list"
  | ActiveData string bool
  | ConfigurationData string Configuration
  | Remarks string

record http_reply =
  hr_Code :: int
  hr_Status :: status_body
  hr_Data :: data

definition Success_text :: string where "Success_text = ''Success''"
definition Fail_text :: string where "Fail_text = ''Fail''"

definition http_code :: "int \<Rightarrow> int" where
  "http_code code =
     (if code = DataNotFound then 404
      else if code \<in> {InvalidDataCode, ValidationFailCode, InvalidAppId, DeactivatedApp, ActivatedApp} then 400
      else if code \<in> {DataPersistenceFailure, InvalidCallbackType} then 500
      else if code = UnmarshalErrorCode then 400
      else if code = TooManyRequests then 429
      else if code = UnprocessableEntity then 422
      else if code = Conflict then 409
      else 500)"

text \<open>\<^verbatim>\<open>Handle\<close>, after the assertion \<^verbatim>\<open>err.(er.AppError)\<close> of its callers.\<close>

definition Handle :: "go_error \<Rightarrow> http_reply go" where
  "Handle err =
     (case err of
        AppErr code e \<Rightarrow>
          Ret \<lparr>hr_Code = http_code code,
               hr_Status = \<lparr>StatusCode = code, StatusMessage = Error err, StatusType = Fail_text, TotalCount = 0\<rparr>, hr_Data = NoData\<rparr>
      | _ \<Rightarrow> Panic ''interface conversion'')"

text \<open>A reply without an explicit HTTP status has the status 200, whatever the code in its body.\<close>

definition success :: "int \<Rightarrow> string \<Rightarrow> int \<Rightarrow> data \<Rightarrow> http_reply" where
  "success code msg count d =
     \<lparr>hr_Code = 200, hr_Status = \<lparr>StatusCode = code, StatusMessage = msg, StatusType = Success_text, TotalCount = count\<rparr>, hr_Data = d\<rparr>"

definition handle :: "int \<Rightarrow> go_error \<Rightarrow> ('db server, http_reply) io" where
  "handle code err = lift_go (Handle (NewError code err))"

text \<open>The end of a handler: the error of the operation, or the reply made of its value.\<close>

definition respond :: "('a \<Rightarrow> http_reply) \<Rightarrow> 'a \<times> go_error option \<Rightarrow> ('db server, http_reply) io" where
  "respond f r = (case r of (x, Some err) \<Rightarrow> lift_go (Handle err) | (x, None) \<Rightarrow> ret (f x))"

section \<open>Creating, reading and deleting schedules\<close>

definition not_registered :: "string \<Rightarrow> go_error" where
  "not_registered appId = NewError InvalidAppId (Err (''app Id '' @ appId @ '' is not registered''))"

definition Service_getApp :: "'db env \<Rightarrow> string \<Rightarrow> string \<Rightarrow> ('db server, App result) io" where
  "Service_getApp E a appId =
     bnd (cluster_dao a (GetApp E appId)) (\<lambda>(app, err).
       if err = Some ErrNotFound then ret (empty_app, Some (not_registered appId))
       else
         (case err of
            Some e \<Rightarrow> ret (empty_app, Some (NewError DataFetchFailure e))
          | None \<Rightarrow>
              if length (app_AppId app) = 0 then ret (empty_app, Some (not_registered appId))
              else if \<not> Active app
              then ret (empty_app, Some (NewError DeactivatedApp (Err (''app Id '' @ app_AppId app @ '' is deactivated''))))
              else ret (app, None)))"

definition TimeUUID :: "'db env \<Rightarrow> ('db server, uuid) io" where
  "TimeUUID E st = (Ret (env_Fresh E (sv_Fresh st)), st\<lparr>sv_Fresh := sv_Fresh st + 1\<rparr>)"

text \<open>The second half of \<^verbatim>\<open>CreateSchedule\<close>, for the app that the schedule is stored under.\<close>

definition store_schedule :: "'db env \<Rightarrow> Schedule \<Rightarrow> App \<Rightarrow> ('db server, Schedule result) io" where
  "store_schedule E input app =
     bnd (TimeUUID E) (\<lambda>fresh.
     bnd (lift_go (SetFields (env_String E) fresh app input)) (\<lambda>input.
     bnd (schedule_write (CreateSchedule E input app)) (\<lambda>(schedule, err).
       case err of
         Some e \<Rightarrow> ret (empty_schedule, Some (NewError DataPersistenceFailure e))
       | None \<Rightarrow> ret (schedule, None))))"

definition Service_CreateSchedule :: "'db env \<Rightarrow> string \<Rightarrow> Schedule \<Rightarrow> ('db server, Schedule result) io" where
  "Service_CreateSchedule E a input =
     bnd (Service_getApp E a (AppId input)) (\<lambda>(app, err).
       if err \<noteq> None then ret (empty_schedule, err)
       else
         bnd (lift_go (ValidateSchedule (env_Now E) app (AppLevelConfiguration (env_Conf E)) input)) (\<lambda>errs.
           if length errs > 0 then ret (empty_schedule, Some (NewError InvalidDataCode (Err (join '','' errs))))
           else if IsRecurring input then
             bnd (Service_getApp E a (CronApp (env_Conf E))) (\<lambda>(cronApp, err).
               case err of
                 Some e \<Rightarrow> ret (empty_schedule, Some (NewError DataPersistenceFailure e))
               | None \<Rightarrow> store_schedule E input cronApp)
           else store_schedule E input app))"

definition Post :: "web \<Rightarrow> 'db env \<Rightarrow> string \<Rightarrow> go_error + string \<Rightarrow> ('db server, http_reply) io" where
  "Post W E a body =
     (case body of
        Inl err \<Rightarrow> handle UnmarshalErrorCode err
      | Inr b \<Rightarrow>
          (case Schedule_UnmarshalJSON (uuid_of_json W) (env_Registry E) b empty_schedule of
             (_, Some err) \<Rightarrow> handle UnmarshalErrorCode err
           | (input, None) \<Rightarrow>
               bnd (Service_CreateSchedule E a input) (respond (\<lambda>s. success 201 Success_text 1 (ScheduleData s)))))"

text \<open>The errors of a lookup by identifier.\<close>

definition fetch_result :: "Schedule result \<Rightarrow> Schedule result" where
  "fetch_result r =
     (case r of
        (s, None) \<Rightarrow> (s, None)
      | (_, Some err) \<Rightarrow> (empty_schedule, Some (NewError (if err = ErrNotFound then DataNotFound else DataFetchFailure) err)))"

definition Service_GetSchedule :: "web \<Rightarrow> 'db env \<Rightarrow> string \<Rightarrow> ('db server, Schedule result) io" where
  "Service_GetSchedule W E u =
     (case ParseUUID W u of
        Inl err \<Rightarrow> ret (empty_schedule, Some (NewError InvalidDataCode err))
      | Inr scheduleId \<Rightarrow> bnd (schedule_read (GetEnrichedSchedule E scheduleId)) (\<lambda>r. ret (fetch_result r)))"

definition Service_Get :: "web \<Rightarrow> 'db env \<Rightarrow> string \<Rightarrow> ('db server, http_reply) io" where
  "Service_Get W E u = bnd (Service_GetSchedule W E u) (respond (\<lambda>s. success 200 Success_text 1 (ScheduleData s)))"

definition Service_DeleteSchedule :: "web \<Rightarrow> 'db env \<Rightarrow> string \<Rightarrow> ('db server, Schedule result) io" where
  "Service_DeleteSchedule W E u =
     (case ParseUUID W u of
        Inl err \<Rightarrow> ret (empty_schedule, Some (NewError InvalidDataCode err))
      | Inr scheduleId \<Rightarrow> bnd (schedule_write (DeleteSchedule E scheduleId)) (\<lambda>r. ret (fetch_result r)))"

definition CancelSchedule :: "web \<Rightarrow> 'db env \<Rightarrow> string \<Rightarrow> ('db server, http_reply) io" where
  "CancelSchedule W E u = bnd (Service_DeleteSchedule W E u) (respond (\<lambda>s. success 200 Success_text 1 (ScheduleData s)))"

section \<open>Pausing and resuming\<close>

text \<open>The common start of the handlers: the schedule of the request, which has to be recurring.\<close>

definition recurring_schedule :: "web \<Rightarrow> 'db env \<Rightarrow> string \<Rightarrow> (uuid \<Rightarrow> Schedule \<Rightarrow> ('db server, http_reply) io) \<Rightarrow> ('db server, http_reply) io" where
  "recurring_schedule W E scheduleID k =
     (case ParseUUID W scheduleID of
        Inl err \<Rightarrow> handle InvalidDataCode (Err (Error err))
      | Inr u \<Rightarrow>
          bnd (schedule_read (GetSchedule E u)) (\<lambda>(schedule, err).
            case err of
              Some e \<Rightarrow>
                if e = ErrNotFound then handle DataNotFound (Err (''Schedule with id: '' @ env_String E u @ '' not found''))
                else handle DataPersistenceFailure (Err (Error e))
            | None \<Rightarrow>
                if \<not> IsRecurring schedule
                then handle UnprocessableEntity (Err (''Schedule with id: '' @ env_String E u @ '' is not a recurring schedule''))
                else k u schedule))"

definition set_status :: "'db env \<Rightarrow> Schedule \<Rightarrow> status \<Rightarrow> string \<Rightarrow> ('db server, http_reply) io" where
  "set_status E schedule st msg =
     bnd (schedule_write (UpdateRecurringScheduleStatus E schedule st)) (\<lambda>(updated, err).
       case err of
         Some e \<Rightarrow> handle DataPersistenceFailure (Err (Error e))
       | None \<Rightarrow> ret (success 200 msg 1 (ScheduleData updated)))"

definition PauseSchedule :: "web \<Rightarrow> 'db env \<Rightarrow> string \<Rightarrow> ('db server, http_reply) io" where
  "PauseSchedule W E scheduleID =
     recurring_schedule W E scheduleID (\<lambda>u schedule.
       if Status schedule = Paused then ret (success 200 ''Schedule already paused'' 1 (ScheduleData schedule))
       else if Status schedule \<noteq> Scheduled
       then handle UnprocessableEntity (Err (''Schedule with id: '' @ env_String E u @ '' is not in Scheduled state''))
       else set_status E schedule Paused ''Schedule paused successfully'')"

definition ResumeSchedule :: "web \<Rightarrow> 'db env \<Rightarrow> string \<Rightarrow> ('db server, http_reply) io" where
  "ResumeSchedule W E scheduleID =
     recurring_schedule W E scheduleID (\<lambda>u schedule.
       if Status schedule \<noteq> Paused
       then handle Conflict (Err (''Schedule with id: '' @ env_String E u @ '' is not paused''))
       else set_status E schedule Scheduled ''Schedule resumed successfully'')"

section \<open>Updating a recurring schedule\<close>

definition validateImmutableFields :: "Schedule \<Rightarrow> Schedule \<Rightarrow> go_error option" where
  "validateImmutableFields inputSchedule existing =
     (let errs =
        (if AppId inputSchedule \<noteq> [] \<and> AppId inputSchedule \<noteq> AppId existing
         then [''Cannot modify appId for an existing schedule''] else []) @
        (if \<not> IsZeroUUID (ScheduleId inputSchedule) \<and> ScheduleId inputSchedule \<noteq> ScheduleId existing
         then [''Cannot modify scheduleId for an existing schedule''] else [])
      in if length errs > 0 then Some (Err (join '','' errs)) else None)"

definition validateScheduleID :: "web \<Rightarrow> string \<Rightarrow> go_error + uuid" where
  "validateScheduleID W scheduleID =
     (case ParseUUID W scheduleID of
        Inl err \<Rightarrow> Inl (Err (''cannot parse UUID from '' @ scheduleID @ '': '' @ Error err))
      | Inr u \<Rightarrow> Inr u)"

definition validateExistingScheduleAndExtractApp ::
    "'db env \<Rightarrow> string \<Rightarrow> uuid \<Rightarrow> ('db server, go_error + Schedule \<times> App) io" where
  "validateExistingScheduleAndExtractApp E a u =
     bnd (schedule_read (GetSchedule E u)) (\<lambda>(existing, err).
       case err of
         Some e \<Rightarrow>
           ret (Inl (if e = ErrNotFound
                     then NewError DataNotFound (Err (''schedule with id: '' @ env_String E u @ '' not found''))
                     else NewError DataPersistenceFailure
                            (Err (''error fetching existing schedule with id '' @ env_String E u @ '': '' @ Error e))))
       | None \<Rightarrow>
           if \<not> IsRecurring existing
           then ret (Inl (NewError UnprocessableEntity (Err (''schedule with id: '' @ env_String E u @ '' is not a recurring schedule''))))
           else if Status existing = Deleted
           then ret (Inl (NewError UnprocessableEntity (Err (''schedule with id: '' @ env_String E u @ '' is deleted''))))
           else
             bnd (Service_getApp E a (AppId existing)) (\<lambda>(app, err).
               case err of Some e \<Rightarrow> ret (Inl e) | None \<Rightarrow> ret (Inr (existing, app))))"

text \<open>A callback that was not sent is an empty message; the error leaves the schedule as it was changed so far.\<close>

definition updateScheduleFields :: "registry \<Rightarrow> Schedule \<Rightarrow> Schedule \<Rightarrow> Schedule result" where
  "updateScheduleFields reg existing input =
     (let s1 = (if CronExpression input \<noteq> [] then existing\<lparr>CronExpression := CronExpression input\<rparr> else existing);
          s2 = (if Payload input \<noteq> [] then s1\<lparr>Payload := Payload input\<rparr> else s1)
      in if CallbackRaw input \<noteq> [] then
           (case CreateCallbackFromRawMessage reg (CallbackRaw input) of
              Inl err \<Rightarrow> (s2\<lparr>CallbackRaw := CallbackRaw input\<rparr>, Some (Err (''error creating callback from raw message: '' @ Error err)))
            | Inr callback \<Rightarrow> (s2\<lparr>CallbackRaw := CallbackRaw input, Callback := Some callback\<rparr>, None))
         else (s2, None))"

definition validateUpdatedSchedule :: "'db env \<Rightarrow> Schedule \<Rightarrow> App \<Rightarrow> go_error option go" where
  "validateUpdatedSchedule E schedule app =
     bind_go (ValidateSchedule (env_Now E) app (AppLevelConfiguration (env_Conf E)) schedule) (\<lambda>errs.
       Ret (if length errs > 0 then Some (Err (''validation errors: '' @ join '','' errs)) else None))"

definition Service_UpdateRecurringSchedule ::
    "web \<Rightarrow> 'db env \<Rightarrow> string \<Rightarrow> string \<Rightarrow> go_error + string \<Rightarrow> ('db server, http_reply) io" where
  "Service_UpdateRecurringSchedule W E a scheduleID body =
     (case validateScheduleID W scheduleID of
        Inl err \<Rightarrow> handle InvalidDataCode err
      | Inr u \<Rightarrow>
          (case body of
             Inl err \<Rightarrow> handle UnmarshalErrorCode err
           | Inr b \<Rightarrow>
               (case Schedule_UnmarshalJSON (uuid_of_json W) (env_Registry E) b empty_schedule of
                  (_, Some err) \<Rightarrow> handle UnmarshalErrorCode err
                | (input, None) \<Rightarrow>
                    bnd (validateExistingScheduleAndExtractApp E a u) (\<lambda>r.
                      case r of
                        Inl err \<Rightarrow> lift_go (Handle err)
                      | Inr (existing, app) \<Rightarrow>
                          (case validateImmutableFields input existing of
                             Some err \<Rightarrow> handle InvalidDataCode err
                           | None \<Rightarrow>
                               (case updateScheduleFields (env_Registry E) existing input of
                                  (_, Some err) \<Rightarrow> handle InvalidDataCode err
                                | (updated, None) \<Rightarrow>
                                    bnd (lift_go (validateUpdatedSchedule E updated app)) (\<lambda>err.
                                      case err of
                                        Some e \<Rightarrow> handle UnprocessableEntity e
                                      | None \<Rightarrow>
                                          bnd (schedule_write (UpdateRecurringSchedule E updated)) (\<lambda>(saved, err).
                                            case err of
                                              Some e \<Rightarrow> handle DataPersistenceFailure e
                                            | None \<Rightarrow> ret (success 200 ''Recurring schedule updated successfully'' 1 (ScheduleData saved))))))))))"

section \<open>Runs and lists\<close>

text \<open>\<^verbatim>\<open>hex.DecodeString\<close> and \<^verbatim>\<open>hex.EncodeToString\<close>.\<close>

fun hex_decode :: "string \<Rightarrow> page_state option" where
  "hex_decode [] = Some []"
| "hex_decode [c] = None"
| "hex_decode (c # d # s) =
     (case (hex_val c, hex_val d, hex_decode s) of
        (Some h, Some l, Some bs) \<Rightarrow> Some (word_of_nat (16 * h + l) # bs)
      | _ \<Rightarrow> None)"

definition hex_encode :: "page_state \<Rightarrow> string" where
  "hex_encode bs = concat (map (\<lambda>b. [hex_digit (unat b div 16), hex_digit (unat b mod 16)]) bs)"

text \<open>
  \<^verbatim>\<open>parseQueryParams\<close> on the query parameters size, continuation_token and when. The error of the size is replaced by that of the
  token if there is a token.
\<close>

definition parseQueryParams :: "web \<Rightarrow> string \<Rightarrow> string \<Rightarrow> string \<Rightarrow> int64 \<times> string \<times> page_state \<times> go_error option" where
  "parseQueryParams W sizeParam continuationToken when =
     (case (if length sizeParam = 0 then (15, False) else ParseInt sizeParam) of (sz, bad) \<Rightarrow>
        if continuationToken \<noteq> [] then
          (case hex_decode continuationToken of
             None \<Rightarrow> (sz, when, [], Some (Err (''Invalid page token: '' @ continuationToken)))
           | Some pageState \<Rightarrow> (sz, when, pageState, None))
        else (sz, when, [], if bad then Some (Err (show_num_error W sizeParam)) else None))"

definition FetchCronRuns ::
    "web \<Rightarrow> 'db env \<Rightarrow> string \<Rightarrow> int64 \<Rightarrow> string \<Rightarrow> page_state \<Rightarrow> ('db server, (Schedule list \<times> page_state) result) io" where
  "FetchCronRuns W E u sz when pageState =
     (case ParseUUID W u of
        Inl err \<Rightarrow> ret (([], []), Some (NewError InvalidDataCode err))
      | Inr scheduleId \<Rightarrow>
          bnd (schedule_read (GetScheduleRuns E scheduleId sz when pageState)) (\<lambda>(schedules, ps, err).
            case err of
              Some e \<Rightarrow> ret (([], []), Some (NewError DataFetchFailure e))
            | None \<Rightarrow>
                if length schedules = 0 then ret (([], []), Some (NewError DataNotFound (Err ''No cron runs found'')))
                else ret ((schedules, ps), None)))"

definition GetRuns :: "web \<Rightarrow> 'db env \<Rightarrow> string \<Rightarrow> string \<Rightarrow> string \<Rightarrow> string \<Rightarrow> ('db server, http_reply) io" where
  "GetRuns W E scheduleId sizeParam token when =
     (case parseQueryParams W sizeParam token when of
        (_, _, _, Some err) \<Rightarrow> handle InvalidDataCode err
      | (sz, w, pageState, None) \<Rightarrow>
          bnd (FetchCronRuns W E scheduleId sz w pageState)
            (respond (\<lambda>(schedules, ps). success 200 Success_text (int (length schedules)) (RunsData schedules (hex_encode ps)))))"

definition FetchCronSchedules :: "'db env \<Rightarrow> string \<Rightarrow> status \<Rightarrow> ('db server, Schedule list result) io" where
  "FetchCronSchedules E appId status =
     bnd (schedule_read (GetCronSchedulesByApp E appId status)) (\<lambda>(schedules, errs).
       if length errs \<noteq> 0 then ret ([], Some (NewError DataFetchFailure (Err (join '','' errs))))
       else if length schedules = 0 then ret ([], Some (NewError DataNotFound (Err ''No cron schedules found'')))
       else ret (schedules, None))"

definition GetCronSchedules :: "'db env \<Rightarrow> string \<Rightarrow> status \<Rightarrow> ('db server, http_reply) io" where
  "GetCronSchedules E appId status =
     bnd (FetchCronSchedules E appId status) (respond (\<lambda>s. success 200 Success_text 0 (SchedulesData s)))"

definition FetchApps :: "'db env \<Rightarrow> string \<Rightarrow> string \<Rightarrow> ('db server, App list result) io" where
  "FetchApps E a appId =
     bnd (cluster_dao a (GetApps E appId)) (\<lambda>(apps, err).
       case err of
         Some e \<Rightarrow> ret ([], Some (NewError DataFetchFailure e))
       | None \<Rightarrow>
           if length apps = 0 then ret ([], Some (NewError DataNotFound (Err ''No app found'')))
           else ret (apps, None))"

definition Service_GetApps :: "'db env \<Rightarrow> string \<Rightarrow> string \<Rightarrow> ('db server, http_reply) io" where
  "Service_GetApps E a appId =
     bnd (FetchApps E a appId) (respond (\<lambda>apps. success 200 Success_text (int (length apps)) (AppsData apps)))"

definition getActiveOrInactiveApp :: "'db env \<Rightarrow> string \<Rightarrow> string \<Rightarrow> ('db server, App result) io" where
  "getActiveOrInactiveApp E a appId =
     bnd (cluster_dao a (GetApp E appId)) (\<lambda>(app, err).
       if err = Some ErrNotFound then ret (empty_app, Some (NewError InvalidAppId (Err (''app id '' @ appId @ '' is not registered''))))
       else
         (case err of
            Some e \<Rightarrow> ret (empty_app, Some (NewError DataFetchFailure e))
          | None \<Rightarrow> if length (app_AppId app) = 0 then ret (empty_app, Some (not_registered appId)) else ret (app, None)))"

definition FetchAppSchedules ::
    "'db env \<Rightarrow> string \<Rightarrow> string \<Rightarrow> time \<times> time \<Rightarrow> int64 \<Rightarrow> status \<Rightarrow> page_state \<Rightarrow> time
       \<Rightarrow> ('db server, (Schedule list \<times> page_state \<times> time) result) io" where
  "FetchAppSchedules E a appId timeRange sz status pageState continuationStartTime =
     bnd (getActiveOrInactiveApp E a appId) (\<lambda>(app, err).
       if err \<noteq> None then ret (([], [], env_Now E), err)
       else
         bnd (schedule_read (GetPaginatedSchedules E appId (uint (Partitions app)) timeRange sz status pageState continuationStartTime))
           (\<lambda>(schedules, ps, cont, err).
              case err of
                Some e \<Rightarrow> ret (([], [], env_Now E), Some (NewError DataFetchFailure e))
              | None \<Rightarrow> ret ((schedules, ps, cont), None)))"

definition defaultDays :: int where "defaultDays = 30"

definition day_ns :: int where "day_ns = 24 * hour_ns"

definition defaultDuration :: int where "defaultDuration = hour_ns"

definition dateTimeLayout :: string where "dateTimeLayout = ''2006-01-02 15:04:05''"

type_synonym parsed = "int64 \<times> status \<times> (time \<times> time) \<times> page_state \<times> time"

text \<open>The parameters of a query; one that is missing is empty.\<close>

record app_query =
  q_continuation_token :: string
  q_size :: string
  q_start_time :: string
  q_end_time :: string
  q_status :: status
  q_continuation_start_time :: string

definition parseDate :: "web \<Rightarrow> string \<Rightarrow> go_error + time" where
  "parseDate W date =
     (case ParseInLocation W date of
        Inl err \<Rightarrow> Inl err
      | Inr parsedDate \<Rightarrow> Inr (from_Unix ((Unix parsedDate sdiv 60) * 60)))"

definition incorrect_time :: "string \<Rightarrow> go_error \<Rightarrow> go_error" where
  "incorrect_time param err =
     Err (''Incorrect '' @ param @ '' query parameter format '' @ Error err @ '' (expected format '' @ dateTimeLayout @ '')'')"

definition parseDates :: "web \<Rightarrow> string \<Rightarrow> string \<Rightarrow> go_error + time \<times> time" where
  "parseDates W startTime endTime =
     (case parseDate W startTime of
        Inl err \<Rightarrow> Inl (incorrect_time ''start_time'' err)
      | Inr start \<Rightarrow>
          (case parseDate W endTime of
             Inl err \<Rightarrow> Inl (incorrect_time ''end_time'' err)
           | Inr end \<Rightarrow> Inr (start, end)))"

text \<open>The range of a query: an hour if one of the two times is missing, the last hour if both are.\<close>

definition parse_range :: "web \<Rightarrow> 'db env \<Rightarrow> string \<Rightarrow> string \<Rightarrow> go_error + time \<times> time" where
  "parse_range W E startTime endTime =
     (if length startTime = 0 \<and> length endTime = 0 then Inr (env_Now E - defaultDuration, env_Now E)
      else if length startTime > 0 \<and> length endTime = 0
      then (case parseDate W startTime of Inl err \<Rightarrow> Inl err | Inr t \<Rightarrow> Inr (t, t + defaultDuration))
      else if length startTime = 0 \<and> length endTime > 0
      then (case parseDate W endTime of Inl err \<Rightarrow> Inl err | Inr t \<Rightarrow> Inr (t - defaultDuration, t))
      else parseDates W startTime endTime)"

text \<open>What \<^verbatim>\<open>parse\<close> returns besides an error is not read by its callers.\<close>

definition parse :: "web \<Rightarrow> 'db env \<Rightarrow> app_query \<Rightarrow> go_error + parsed" where
  "parse W E query =
     (let continuationStartTime = fst (ParseInt (q_continuation_start_time query)) in
      case (if q_continuation_token query \<noteq> [] then hex_decode (q_continuation_token query) else Some []) of
        None \<Rightarrow> Inl (Err (''Invalid page token: '' @ q_continuation_token query))
      | Some pageState \<Rightarrow>
          (case (if length (q_size query) = 0 then (15, False) else ParseInt (q_size query)) of (sz, bad) \<Rightarrow>
             if bad then Inl (Err (show_num_error W (q_size query)))
             else
               (case parse_range W E (q_start_time query) (q_end_time query) of
                  Inl err \<Rightarrow> Inl err
                | Inr timeRange \<Rightarrow> Inr (sz, q_status query, timeRange, pageState, from_Unix continuationStartTime))))"

text \<open>
  The code compares the seconds of the range as floating point numbers, in which a nanosecond more than the limit is
  still visible.
\<close>

definition GetAppSchedules :: "web \<Rightarrow> 'db env \<Rightarrow> string \<Rightarrow> string \<Rightarrow> app_query \<Rightarrow> ('db server, http_reply) io" where
  "GetAppSchedules W E a appId q =
     (case parse W E q of
        Inl err \<Rightarrow> handle InvalidDataCode (Err (Error err))
      | Inr (sz, status, (startTime, endTime), pageState, continuationStartTime) \<Rightarrow>
          if sz < 0
          then handle InvalidDataCode (Err (''Size provided('' @ Itoa sz @ '') should not be less than 0''))
          else if endTime < startTime
          then handle InvalidDataCode (Err (''End time: '' @ show_time W endTime @ '' cannot be before start time: '' @ show_time W startTime))
          else if endTime - startTime > defaultDays * day_ns
          then handle InvalidDataCode (Err (''Time range of more than '' @ Itoa defaultDays @ '' days is not allowed''))
          else
            bnd (FetchAppSchedules E a appId (startTime, endTime) sz status pageState continuationStartTime)
              (respond (\<lambda>(schedules, ps, cont).
                 success 200 Success_text (int (length schedules)) (PaginatedData schedules (hex_encode ps) (Unix cont)))))"

section \<open>Registration of apps\<close>

definition validateAppId :: "string \<Rightarrow> go_error option" where
  "validateAppId appId = (if length appId = 0 then Some (NewError InvalidDataCode (Err ''AppId cannot be empty'')) else None)"

definition validateApp :: "App \<Rightarrow> go_error option" where
  "validateApp input = validateAppId (app_AppId input)"

text \<open>\<^verbatim>\<open>json.Unmarshal\<close> of an app; a number that is no \<^verbatim>\<open>uint32\<close> is an error.\<close>

definition read_uint32 :: "json \<Rightarrow> 32 word \<Rightarrow> 32 word \<times> bool" where
  "read_uint32 j old =
     (case j of
        JNum l \<Rightarrow>
          (case ParseInt l of (v, err) \<Rightarrow>
             if err \<or> v < 0 \<or> v \<ge> 2 ^ 32 \<or> take 1 l = ''-'' then (old, True) else (word_of_int v, False))
      | JNull \<Rightarrow> (old, False)
      | _ \<Rightarrow> (old, True))"

definition put_app :: "string \<Rightarrow> json \<Rightarrow> App \<Rightarrow> App \<times> bool" where
  "put_app f v app =
     (if f = ''appId'' then (case read_string v (app_AppId app) of (s, e) \<Rightarrow> (app\<lparr>app_AppId := s\<rparr>, e))
      else if f = ''partitions'' then (case read_uint32 v (Partitions app) of (p, e) \<Rightarrow> (app\<lparr>Partitions := p\<rparr>, e))
      else if f = ''active'' then (case read_bool v (Active app) of (b, e) \<Rightarrow> (app\<lparr>Active := b\<rparr>, e))
      else (case read_configuration v of (c, e) \<Rightarrow> (app\<lparr>app_Configuration := c\<rparr>, e)))"

definition unmarshal_app :: "string \<Rightarrow> App \<times> bool" where
  "unmarshal_app b =
     (case parse_json b of
        None \<Rightarrow> (empty_app, True)
      | Some j \<Rightarrow> read_struct [''appId'', ''partitions'', ''active'', ''configuration''] put_app j empty_app)"

fun create_entities :: "'db ringpop \<Rightarrow> 'db env \<Rightarrow> string \<Rightarrow> string \<Rightarrow> nat list \<Rightarrow> ('db server, go_error option) io" where
  "create_entities R E a app [] = ret None"
| "create_entities R E a app (p # ps) =
     (let entity = \<lparr>ei_Id = entity_id app p, ei_Node = Address (env_Conf E), ei_Status = 0, History = []\<rparr> in
      bnd (cluster_dao a (CreateEntity E entity)) (\<lambda>err.
        case err of
          Some e \<Rightarrow> ret (Some (NewError DataPersistenceFailure e))
        | None \<Rightarrow>
            bnd (on_net (BootEntity R E a entity True)) (\<lambda>err.
              case err of
                Some e \<Rightarrow> ret (Some (NewError EntityBootFailed e))
              | None \<Rightarrow> create_entities R E a app ps)))"

definition createEntities :: "'db ringpop \<Rightarrow> 'db env \<Rightarrow> string \<Rightarrow> App \<Rightarrow> ('db server, go_error option) io" where
  "createEntities R E a input = create_entities R E a (app_AppId input) [0..<unat (Partitions input)]"

definition RegisterApp :: "'db ringpop \<Rightarrow> 'db env \<Rightarrow> string \<Rightarrow> App \<Rightarrow> ('db server, App result) io" where
  "RegisterApp R E a input =
     (case validateApp input of
        Some err \<Rightarrow> ret (empty_app, Some err)
      | None \<Rightarrow>
          (let input = (if Partitions input = 0 then input\<lparr>Partitions := DefaultCount (env_Conf E)\<rparr> else input) in
           bnd (cluster_dao a (InsertApp E input)) (\<lambda>err.
             case err of
               Some e \<Rightarrow> ret (empty_app, Some (NewError DataPersistenceFailure e))
             | None \<Rightarrow>
                 bnd (createEntities R E a input) (\<lambda>err.
                   case err of Some e \<Rightarrow> ret (empty_app, Some e) | None \<Rightarrow> ret (input, None)))))"

definition Register :: "'db ringpop \<Rightarrow> 'db env \<Rightarrow> string \<Rightarrow> string \<Rightarrow> ('db server, http_reply) io" where
  "Register R E a b =
     (case unmarshal_app b of (input, e) \<Rightarrow>
        if e then handle UnmarshalErrorCode json_error
        else bnd (RegisterApp R E a input) (respond (\<lambda>app. success 201 Success_text 1 (AppData app))))"

text \<open>\<^verbatim>\<open>DeactivateApp\<close> and \<^verbatim>\<open>ActivateApp\<close>: the flag in the database, then the pollers on the nodes.\<close>

definition change_app ::
    "'db env \<Rightarrow> string \<Rightarrow> bool \<Rightarrow> go_error \<Rightarrow> (App \<Rightarrow> ('db net, unit) io) \<Rightarrow> string \<Rightarrow> ('db server, go_error option) io" where
  "change_app E a active already pollers appId =
     (case validateAppId appId of
        Some err \<Rightarrow> ret (Some err)
      | None \<Rightarrow>
          bnd (cluster_dao a (GetApp E appId)) (\<lambda>(app, err).
            if err \<noteq> None then ret (Some (NewError InvalidAppId (Err ''unregistered App'')))
            else if Active app = active then ret (Some already)
            else
              bnd (cluster_dao a (UpdateAppActiveStatus E appId active)) (\<lambda>err.
                case err of
                  Some e \<Rightarrow> ret (Some (NewError DataPersistenceFailure e))
                | None \<Rightarrow> bnd (on_net (pollers app)) (\<lambda>_. ret None))))"

definition Service_DeactivateApp :: "'db ringpop \<Rightarrow> 'db env \<Rightarrow> string \<Rightarrow> string \<Rightarrow> ('db server, go_error option) io" where
  "Service_DeactivateApp R E a =
     change_app E a False (NewError DeactivatedApp (Err ''app is already deactivated'')) (DeactivateApp R E a)"

definition Service_ActivateApp :: "'db ringpop \<Rightarrow> 'db env \<Rightarrow> string \<Rightarrow> string \<Rightarrow> ('db server, go_error option) io" where
  "Service_ActivateApp R E a =
     change_app E a True (NewError ActivatedApp (Err ''app is already activated'')) (ActivateApp R E a)"

definition Deactivate :: "'db ringpop \<Rightarrow> 'db env \<Rightarrow> string \<Rightarrow> string \<Rightarrow> ('db server, http_reply) io" where
  "Deactivate R E a appId =
     bnd (Service_DeactivateApp R E a appId) (\<lambda>err. respond (\<lambda>_. success 201 Success_text 0 (ActiveData appId False)) ((), err))"

definition Activate :: "'db ringpop \<Rightarrow> 'db env \<Rightarrow> string \<Rightarrow> string \<Rightarrow> ('db server, http_reply) io" where
  "Activate R E a appId =
     bnd (Service_ActivateApp R E a appId) (\<lambda>err. respond (\<lambda>_. success 201 Success_text 0 (ActiveData appId True)) ((), err))"

section \<open>Bulk actions\<close>

definition MaxBulkActionPeriodInDays :: int where "MaxBulkActionPeriodInDays = 7"

text \<open>The minutes from the start of a range to before its end.\<close>

function minutes_of_range :: "time \<times> time \<Rightarrow> time list" where
  "minutes_of_range (t, endTime) = (if t < endTime then t # minutes_of_range (t + minute_ns, endTime) else [])"
  by pat_completeness auto
termination by (relation "measure (\<lambda>(t, endTime). nat (endTime - t))") (auto simp: minute_ns_def second_def)

declare minutes_of_range.simps [simp del]

definition pushBulkActionQueries ::
    "App \<Rightarrow> time \<times> time \<Rightarrow> status \<Rightarrow> action_type \<Rightarrow> ('db server, go_error option) io" where
  "pushBulkActionQueries app timeRange status actionType st =
     (Ret None, st\<lparr>BulkActionQueue := BulkActionQueue st @
        concat (map (\<lambda>p. map (\<lambda>t. \<lparr>bt_App = app, bt_PartitionId = int p, ScheduleTimeGroup = t, bt_Status = status, ActionType = actionType\<rparr>)
          (minutes_of_range timeRange)) [0..<unat (Partitions app)])\<rparr>)"

definition validateTimeRange :: "web \<Rightarrow> time \<times> time \<Rightarrow> go_error option" where
  "validateTimeRange W r =
     (if snd r < fst r
      then Some (NewError InvalidDataCode (Err (''End time: '' @ show_time W (snd r) @ '' cannot be before start time: '' @ show_time W (fst r))))
      else if snd r - fst r > MaxBulkActionPeriodInDays * day_ns
      then Some (NewError InvalidDataCode (Err (''Time range of more than '' @ Itoa defaultDays @ '' days is not allowed'')))
      else None)"

definition ExecuteBulkAction ::
    "web \<Rightarrow> 'db env \<Rightarrow> string \<Rightarrow> string \<Rightarrow> action_type \<Rightarrow> status \<Rightarrow> time \<times> time \<Rightarrow> ('db server, go_error option) io" where
  "ExecuteBulkAction W E a appId action status timeRange =
     (if action \<noteq> Reconcile \<and> action \<noteq> Delete
      then ret (Some (NewError InvalidBulkActionType (Err (''action type '' @ action @ '' is invalid''))))
      else
        bnd (getActiveOrInactiveApp E a appId) (\<lambda>(app, err).
          if err \<noteq> None then ret err
          else
            (case validateTimeRange W timeRange of
               Some err \<Rightarrow> ret (Some err)
             | None \<Rightarrow>
                 bnd (pushBulkActionQueries app timeRange status action) (\<lambda>err.
                   case err of Some e \<Rightarrow> ret (Some (NewError BulkActionPushFailure e)) | None \<Rightarrow> ret None))))"

definition Service_BulkAction ::
    "web \<Rightarrow> 'db env \<Rightarrow> string \<Rightarrow> string \<Rightarrow> action_type \<Rightarrow> app_query \<Rightarrow> ('db server, http_reply) io" where
  "Service_BulkAction W E a appId action q =
     (case parse W E q of
        Inl err \<Rightarrow> handle InvalidDataCode err
      | Inr (_, status, timeRange, _, _) \<Rightarrow>
          bnd (ExecuteBulkAction W E a appId action status timeRange) (\<lambda>err.
            respond (\<lambda>_. success 200 Success_text 0
              (Remarks (action @ '' initiated successfully for app: '' @ appId @ '', timeRange: {StartTime:'' @ show_time W (fst timeRange) @
                 '' EndTime:'' @ show_time W (snd timeRange) @ ''}, status: '' @ status))) ((), err)))"

section \<open>Configurations of apps\<close>

text \<open>The app of a request; \<open>unregistered\<close> is the text for an app that is not found.\<close>

definition with_app :: "'db env \<Rightarrow> string \<Rightarrow> string \<Rightarrow> string \<Rightarrow> (App \<Rightarrow> ('db server, http_reply) io) \<Rightarrow> ('db server, http_reply) io" where
  "with_app E a appId unregistered k =
     bnd (cluster_dao a (GetApp E appId)) (\<lambda>(app, err).
       if err = Some ErrNotFound then handle InvalidAppId (Err unregistered)
       else (case err of Some e \<Rightarrow> handle DataFetchFailure e | None \<Rightarrow> k app))"

definition config_reply :: "App \<Rightarrow> int \<Rightarrow> Configuration result \<Rightarrow> ('db server, http_reply) io" where
  "config_reply app code r =
     (case r of
        (_, Some err) \<Rightarrow> handle code err
      | (config, None) \<Rightarrow> ret (success 201 Success_text 1 (ConfigurationData (app_AppId app) config)))"

text \<open>\<^verbatim>\<open>%+v\<close> of the app that was not found, which is the zero app.\<close>

definition zero_app_text :: string where
  "zero_app_text =
     ''{AppId: Partitions:0 Active:false Configuration:{FutureScheduleCreationPeriod:0 FiredScheduleRetentionPeriod:0 PayloadSize:0 HttpRetries:0 HttpTimeout:0}}''"

definition Service_CreateConfiguration :: "'db env \<Rightarrow> string \<Rightarrow> string \<Rightarrow> string \<Rightarrow> ('db server, http_reply) io" where
  "Service_CreateConfiguration E a appId b =
     (case unmarshal_configuration b of (input, e) \<Rightarrow>
        if e then handle UnmarshalErrorCode json_error
        else with_app E a appId (''app id '' @ appId @ '' is not registered'') (\<lambda>app.
          bnd (cluster_dao a (CreateConfigurations E (app_AppId app) input)) (config_reply app DataPersistenceFailure)))"

definition Service_UpdateConfiguration :: "merge \<Rightarrow> 'db env \<Rightarrow> string \<Rightarrow> string \<Rightarrow> string \<Rightarrow> ('db server, http_reply) io" where
  "Service_UpdateConfiguration Merge E a appId b =
     (case unmarshal_configuration b of (input, e) \<Rightarrow>
        if e then handle UnmarshalErrorCode json_error
        else with_app E a appId (''app '' @ zero_app_text @ '' is not registered'') (\<lambda>app.
          bnd (cluster_dao a (UpdateConfiguration Merge E (app_AppId app) input)) (config_reply app DataPersistenceFailure)))"

definition Service_DeleteConfiguration :: "'db env \<Rightarrow> string \<Rightarrow> string \<Rightarrow> ('db server, http_reply) io" where
  "Service_DeleteConfiguration E a appId =
     with_app E a appId (''app '' @ zero_app_text @ '' is not registered'') (\<lambda>app.
       bnd (cluster_dao a (DeleteConfiguration E (app_AppId app))) (config_reply app DataPersistenceFailure))"

definition Service_GetConfiguration :: "'db env \<Rightarrow> string \<Rightarrow> string \<Rightarrow> ('db server, http_reply) io" where
  "Service_GetConfiguration E a appId =
     with_app E a appId (''app id '' @ appId @ '' is not registered'') (\<lambda>app.
       bnd (cluster_dao a (\<lambda>c. (GetConfiguration E (app_AppId app) c, c))) (config_reply app DataNotFound))"

end
