(* ===== verification/Server.thy ===== *)
theory Server
  imports Service
begin

text \<open>
  The HTTP server (src/server/server.go): the table of routes, the middlewares, and how a request gets to its handler.
  The router is a library (gorilla/mux): it is a parameter, with its documented way to choose a route
  as the locale \<open>mux_router\<close>.
\<close>

section \<open>Requests and responses\<close>

text \<open>
  A request with its query parameters and what could be read of its body. A response has the values of the header
  Content-Type and a body: of a handler, of the health check, of the metrics page, or of the router itself.
\<close>

record http_request =
  hq_Method :: string
  hq_Path :: string
  hq_Query :: "(string \<times> string) list"
  hq_Body :: "string \<times> go_error option"

datatype body = Json http_reply | HealthCheckResponse string int | MetricsPage | RouterBody

record http_response =
  rp_Code :: int
  rp_ContentType :: "string list"
  rp_Body :: body

text \<open>\<^verbatim>\<open>url.Values.Get\<close> and \<^verbatim>\<open>mux.Vars\<close>: a name that is missing is empty.\<close>

definition get_value :: "(string \<times> string) list \<Rightarrow> string \<Rightarrow> string" where
  "get_value vs k = (case map_of vs k of Some v \<Rightarrow> v | None \<Rightarrow> [])"

definition read_body :: "http_request \<Rightarrow> go_error + string" where
  "read_body q = (case hq_Body q of (b, Some err) \<Rightarrow> Inl err | (b, None) \<Rightarrow> Inr b)"

definition app_query_of :: "http_request \<Rightarrow> app_query" where
  "app_query_of q =
     \<lparr>q_continuation_token = get_value (hq_Query q) ''continuation_token'', q_size = get_value (hq_Query q) ''size'',
      q_start_time = get_value (hq_Query q) ''start_time'', q_end_time = get_value (hq_Query q) ''end_time'',
      q_status = get_value (hq_Query q) ''status'', q_continuation_start_time = get_value (hq_Query q) ''continuation_start_time''\<rparr>"

section \<open>Routes\<close>

text \<open>The handlers of the table, by the names that the counters have for them.\<close>

datatype operation = HealthCheck | CreateSchedule_op | GetSchedule_op | GetScheduleRuns_op | UpdateRecurringSchedule_op
  | PauseSchedule_op | ResumeSchedule_op | GetAppSchedule_op | DeleteSchedule_op | RegisterApp_op | DeactivateApp_op
  | ActivateApp_op | BulkAction_op | GetApps_op | GetCronSchedule_op | Metrics

text \<open>The template of the path, the method if there is a restriction, and the handler, in the order of registration.\<close>

type_synonym route = "string \<times> string option \<times> operation"

definition registerHTTPHandlers :: "route list" where
  "registerHTTPHandlers =
     [(''/goscheduler/healthcheck'', None, HealthCheck),
      (''/goscheduler/schedules'', Some ''POST'', CreateSchedule_op),
      (''/goscheduler/schedules/{scheduleId}'', Some ''GET'', GetSchedule_op),
      (''/goscheduler/schedules/{scheduleId}/runs'', Some ''GET'', GetScheduleRuns_op),
      (''/goscheduler/schedules/{scheduleId}/updateRecurringSchedule'', Some ''PUT'', UpdateRecurringSchedule_op),
      (''/goscheduler/schedules/{scheduleId}/pause'', Some ''PUT'', PauseSchedule_op),
      (''/goscheduler/schedules/{scheduleId}/resume'', Some ''PUT'', ResumeSchedule_op),
      (''/goscheduler/apps/{appId}/schedules'', Some ''GET'', GetAppSchedule_op),
      (''/goscheduler/schedules/{scheduleId}'', Some ''DELETE'', DeleteSchedule_op),
      (''/goscheduler/apps'', Some ''POST'', RegisterApp_op),
      (''/goscheduler/apps/{appId}/deactivate'', Some ''POST'', DeactivateApp_op),
      (''/goscheduler/apps/{appId}/activate'', Some ''POST'', ActivateApp_op),
      (''/goscheduler/apps/{appId}/bulk-action/{action}'', Some ''POST'', BulkAction_op),
      (''/goscheduler/apps'', Some ''GET'', GetApps_op),
      (''/goscheduler/crons/schedules'', Some ''GET'', GetCronSchedule_op),
      (''/metrics'', None, Metrics)]"

section \<open>Handlers\<close>

definition json_handler :: "('db server, http_reply) io \<Rightarrow> ('db server, int \<times> body) io" where
  "json_handler m = bnd m (\<lambda>r. ret (hr_Code r, Json r))"

text \<open>The handler of an operation, on the variables of the path and the request.\<close>

definition route_handler ::
    "'db ringpop \<Rightarrow> web \<Rightarrow> 'db env \<Rightarrow> string \<Rightarrow> operation \<Rightarrow> (string \<times> string) list \<Rightarrow> http_request \<Rightarrow> ('db server, int \<times> body) io" where
  "route_handler R W E a op vars q =
     (let scheduleId = get_value vars ''scheduleId''; appId = get_value vars ''appId''; query = get_value (hq_Query q) in
      case op of
        HealthCheck \<Rightarrow> ret (200, HealthCheckResponse Success_text 200)
      | CreateSchedule_op \<Rightarrow> json_handler (Post W E a (read_body q))
      | GetSchedule_op \<Rightarrow> json_handler (Service_Get W E scheduleId)
      | GetScheduleRuns_op \<Rightarrow> json_handler (GetRuns W E scheduleId (query ''size'') (query ''continuation_token'') (query ''when''))
      | UpdateRecurringSchedule_op \<Rightarrow> json_handler (Service_UpdateRecurringSchedule W E a scheduleId (read_body q))
      | PauseSchedule_op \<Rightarrow> json_handler (PauseSchedule W E scheduleId)
      | ResumeSchedule_op \<Rightarrow> json_handler (ResumeSchedule W E scheduleId)
      | GetAppSchedule_op \<Rightarrow> json_handler (GetAppSchedules W E a appId (app_query_of q))
      | DeleteSchedule_op \<Rightarrow> json_handler (CancelSchedule W E scheduleId)
      | RegisterApp_op \<Rightarrow> json_handler (Register R E a (fst (hq_Body q)))
      | DeactivateApp_op \<Rightarrow> json_handler (Deactivate R E a appId)
      | ActivateApp_op \<Rightarrow> json_handler (Activate R E a appId)
      | BulkAction_op \<Rightarrow> json_handler (Service_BulkAction W E a appId (get_value vars ''action'') (app_query_of q))
      | GetApps_op \<Rightarrow> json_handler (Service_GetApps E a (query ''app_id''))
      | GetCronSchedule_op \<Rightarrow> json_handler (GetCronSchedules E (query ''app_id'') (query ''status''))
      | Metrics \<Rightarrow> ret (200, MetricsPage))"

text \<open>
  \<^verbatim>\<open>responseMiddleware\<close> adds the header before the handler runs. The health check sets it again, and the page of metrics
  replaces it by a value of its own, which is left out here. \<^verbatim>\<open>monitoringMiddleware\<close> calls the handler; what it then reports to the monitor is
  in the theory Metrics.
\<close>

definition responseMiddleware :: "('db server, int \<times> body) io \<Rightarrow> ('db server, http_response) io" where
  "responseMiddleware next' =
     bnd next' (\<lambda>(code, b). ret \<lparr>rp_Code = code, rp_ContentType = (if b = MetricsPage then [] else [''application/json'']), rp_Body = b\<rparr>)"

definition monitoringMiddleware :: "('db server, 'a) io \<Rightarrow> ('db server, 'a) io" where
  "monitoringMiddleware next' = next'"

text \<open>
  What the router does with a request: a route of the table with the variables of the path, an answer that the path or
  the method is unknown, or a redirection to a path in another form.
\<close>

datatype routed = Routed nat "(string \<times> string) list" | MethodNotAllowed | PathNotFound | Redirected string

type_synonym router = "(string \<times> string option) list \<Rightarrow> string \<Rightarrow> string \<Rightarrow> routed"

definition route_table :: "(string \<times> string option) list" where
  "route_table = map (\<lambda>(t, m, op). (t, m)) registerHTTPHandlers"

text \<open>A panic of a handler is recovered by \<^verbatim>\<open>net/http\<close>, which closes the connection: there is no response.\<close>

definition ServeHTTP ::
    "router \<Rightarrow> 'db ringpop \<Rightarrow> web \<Rightarrow> 'db env \<Rightarrow> string \<Rightarrow> http_request \<Rightarrow> ('db server, http_response option) io" where
  "ServeHTTP route R W E a q =
     (case route route_table (hq_Method q) (hq_Path q) of
        Routed i vars \<Rightarrow>
          recovering None
            (bnd (responseMiddleware (monitoringMiddleware (route_handler R W E a (snd (snd (registerHTTPHandlers ! i))) vars q)))
              (\<lambda>r. ret (Some r)))
      | MethodNotAllowed \<Rightarrow> ret (Some \<lparr>rp_Code = 405, rp_ContentType = [], rp_Body = RouterBody\<rparr>)
      | PathNotFound \<Rightarrow> ret (Some \<lparr>rp_Code = 404, rp_ContentType = [], rp_Body = RouterBody\<rparr>)
      | Redirected p \<Rightarrow> ret (Some \<lparr>rp_Code = 301, rp_ContentType = [], rp_Body = RouterBody\<rparr>))"

section \<open>The choice of a route\<close>

text \<open>
  A template against a path, by their parts between slashes: a part in braces takes any text that is not
  empty, every other part only itself.
\<close>

definition variable :: "string \<Rightarrow> string option" where
  "variable s = (if length s \<ge> 2 \<and> hd s = CHR ''{'' \<and> last s = CHR ''}'' then Some (butlast (tl s)) else None)"

fun fits_parts :: "string list \<Rightarrow> string list \<Rightarrow> (string \<times> string) list option" where
  "fits_parts [] [] = Some []"
| "fits_parts (t # ts) (p # ps) =
     (case fits_parts ts ps of
        None \<Rightarrow> None
      | Some vs \<Rightarrow>
          (case variable t of
             None \<Rightarrow> if t = p then Some vs else None
           | Some x \<Rightarrow> if p = [] then None else Some ((x, p) # vs)))"
| "fits_parts _ _ = None"

definition fits :: "string \<Rightarrow> string \<Rightarrow> (string \<times> string) list option" where
  "fits t p = fits_parts (split_on CHR ''/'' t) (split_on CHR ''/'' p)"

definition allows :: "string option \<Rightarrow> string \<Rightarrow> bool" where
  "allows m method \<longleftrightarrow> m = None \<or> m = Some method"

text \<open>A path that the router does not redirect: it starts with a slash, and no part is empty or made of one or two dots.\<close>

definition clean :: "string \<Rightarrow> bool" where
  "clean p \<longleftrightarrow> (case split_on CHR ''/'' p of [] # q # qs \<Rightarrow> list_all (\<lambda>s. s \<notin> {[], ''.'', ''..''}) (q # qs) | _ \<Rightarrow> False)"

text \<open>Routes are tried in the order of registration and the first that fits wins; a method that no fitting route allows is refused.\<close>

locale mux_router =
  fixes route :: router
  assumes first_fit: "clean p \<Longrightarrow> i < length rs \<Longrightarrow> fits (fst (rs ! i)) p = Some vs \<Longrightarrow> allows (snd (rs ! i)) m \<Longrightarrow>
      (\<And>j. j < i \<Longrightarrow> fits (fst (rs ! j)) p = None \<or> \<not> allows (snd (rs ! j)) m) \<Longrightarrow> route rs m p = Routed i vs"
    and no_method: "clean p \<Longrightarrow> r \<in> set rs \<Longrightarrow> fits (fst r) p \<noteq> None \<Longrightarrow>
      (\<And>r'. r' \<in> set rs \<Longrightarrow> fits (fst r') p = None \<or> \<not> allows (snd r') m) \<Longrightarrow> route rs m p = MethodNotAllowed"
    and no_path: "clean p \<Longrightarrow> (\<And>r. r \<in> set rs \<Longrightarrow> fits (fst r) p = None) \<Longrightarrow> route rs m p = PathNotFound"

text \<open>A router that goes through the table.\<close>

fun search_routes :: "nat \<Rightarrow> bool \<Rightarrow> router" where
  "search_routes i seen [] m p = (if seen then MethodNotAllowed else PathNotFound)"
| "search_routes i seen ((t, r) # rs) m p =
     (case fits t p of
        None \<Rightarrow> search_routes (Suc i) seen rs m p
      | Some vs \<Rightarrow> if allows r m then Routed i vs else search_routes (Suc i) True rs m p)"

lemma search_routes_fit:
  "i < length rs \<Longrightarrow> fits (fst (rs ! i)) p = Some vs \<Longrightarrow> allows (snd (rs ! i)) m \<Longrightarrow>
     (\<And>j. j < i \<Longrightarrow> fits (fst (rs ! j)) p = None \<or> \<not> allows (snd (rs ! j)) m) \<Longrightarrow> search_routes k seen rs m p = Routed (k + i) vs"
proof (induction k seen rs m p arbitrary: i rule: search_routes.induct)
  case (2 k seen t r rs m p)
  show ?case
  proof (cases i)
    case 0
    then show ?thesis using "2.prems" by simp
  next
    case (Suc i')
    have "fits t p = None \<or> \<not> allows r m" using "2.prems"(4) [of 0] Suc by simp
    moreover have "\<And>j. j < i' \<Longrightarrow> fits (fst (rs ! j)) p = None \<or> \<not> allows (snd (rs ! j)) m"
      using "2.prems"(4) [of "Suc _"] Suc by simp
    ultimately show ?thesis using "2.IH" "2.prems"(1-3) Suc by (cases "fits t p") auto
  qed
qed simp

lemma search_routes_none:
  "(\<And>r. r \<in> set rs \<Longrightarrow> fits (fst r) p = None \<or> \<not> allows (snd r) m) \<Longrightarrow>
     search_routes k seen rs m p = (if seen \<or> (\<exists>r \<in> set rs. fits (fst r) p \<noteq> None) then MethodNotAllowed else PathNotFound)"
proof (induction k seen rs m p rule: search_routes.induct)
  case (2 k seen t r rs m p)
  have "fits t p = None \<or> \<not> allows r m" using "2.prems" [of "(t, r)"] by simp
  then show ?case using "2.IH" "2.prems" by (cases "fits t p") auto
qed simp

interpretation table_router: mux_router "search_routes 0 False"
proof unfold_locales
  show "search_routes 0 False rs m p = Routed i vs"
    if "i < length rs" "fits (fst (rs ! i)) p = Some vs" "allows (snd (rs ! i)) m"
      "\<And>j. j < i \<Longrightarrow> fits (fst (rs ! j)) p = None \<or> \<not> allows (snd (rs ! j)) m" for p i rs vs m
    using search_routes_fit [OF that, of 0 False] by simp
qed (auto simp: search_routes_none)

text \<open>The laws leave no choice for a path that is not redirected.\<close>

context mux_router
begin

lemma is_search:
  assumes "clean p"
  shows "route rs m p = search_routes 0 False rs m p"
proof (cases "\<exists>i < length rs. fits (fst (rs ! i)) p \<noteq> None \<and> allows (snd (rs ! i)) m")
  case True
  define i where "i = (LEAST i. i < length rs \<and> fits (fst (rs ! i)) p \<noteq> None \<and> allows (snd (rs ! i)) m)"
  have i: "i < length rs \<and> fits (fst (rs ! i)) p \<noteq> None \<and> allows (snd (rs ! i)) m"
    unfolding i_def by (rule LeastI_ex) (use True in blast)
  have before: "fits (fst (rs ! j)) p = None \<or> \<not> allows (snd (rs ! j)) m" if "j < i" for j
    using not_less_Least [of j "\<lambda>i. i < length rs \<and> fits (fst (rs ! i)) p \<noteq> None \<and> allows (snd (rs ! i)) m"] that i
    unfolding i_def by auto
  obtain vs where vs: "fits (fst (rs ! i)) p = Some vs" using i by blast
  from first_fit [OF assms _ vs _ before] search_routes_fit [OF _ vs _ before, of 0 False] i show ?thesis by simp
next
  case False
  then have none: "\<And>r. r \<in> set rs \<Longrightarrow> fits (fst r) p = None \<or> \<not> allows (snd r) m" by (metis in_set_conv_nth)
  show ?thesis
    using search_routes_none [OF none, of rs 0 False] no_method [OF assms _ _ none] no_path [OF assms, of rs m] by (auto split: if_splits)
qed

end

end
