(* ===== verification/ClusterDaoProperties.thy ===== *)
theory ClusterDaoProperties
  imports ClusterDao
begin

text \<open>
  What the cluster data access object promises: names of entities are read back, configurations
  survive their JSON form and obey the limits, an app that was inserted is read back, the cache is
  coherent once it is invalidated, the history of an entity stays within its size, and the apps that
  a node needs exist once it has started.
\<close>

section \<open>Names of entities\<close>

text \<open>
  The name of a poller, app id, dot and partition number, is taken apart again into the app id and
  the partition number, whatever the app id contains, dots included.
\<close>

theorem entity_id_round_trip:
  fixes p :: "32 word"
  shows "GetAppName \<lparr>ei_Id = entity_id app (unat p), ei_Node = n, ei_Status = s, History = h\<rparr> = Ret app \<and>
    GetPartitionId \<lparr>ei_Id = entity_id app (unat p), ei_Node = n, ei_Status = s, History = h\<rparr> = int (unat p)"
proof -
  have small: "0 \<le> x \<Longrightarrow> x < 2 ^ LENGTH(32) \<Longrightarrow> in64 x" for x :: int by (simp add: in64_def)
  have p: "in64 (uint p)" by (rule small) (simp, rule unsigned_less)
  have eid: "entity_id app (unat p) = app @ CHR ''.'' # Itoa (int (unat p))"
    by (simp add: entity_id_def)
  have "last_index CHR ''.'' (entity_id app (unat p)) = int (length app)"
    unfolding eid by (simp add: last_index_append_sep)
  then show ?thesis
    by (simp add: GetAppName_def GetPartitionId_def eid ParseInt_Itoa [OF p] nat_add_distrib)
qed

section \<open>Configurations\<close>

definition wf_configuration :: "Configuration \<Rightarrow> bool" where
  "wf_configuration c \<longleftrightarrow>
     in64 (FutureScheduleCreationPeriod c) \<and> in64 (FiredScheduleRetentionPeriod c) \<and> in64 (PayloadSize c) \<and>
     in64 (HttpRetries c) \<and> in64 (HttpTimeout c)"

lemma read_int_Itoa [simp]: "in64 i \<Longrightarrow> read_int (JNum (Itoa i)) old = (i, False)"
  by (simp add: read_int_def ParseInt_Itoa)

text \<open>A configuration is read back from its JSON text, fields that are zero and left out included.\<close>

lemma unmarshal_config_text:
  assumes "wf_configuration c"
  shows "unmarshal_configuration (config_text c) = (c, False)"
proof -
  have "wf_json (show_configuration c)"
    by (auto simp: show_configuration_def omit_int_def)
  then have "unmarshal_configuration (config_text c) = read_configuration (show_configuration c)"
    by (simp add: unmarshal_configuration_def config_text_def parse_print_json)
  also have "\<dots> = (c, False)"
    using assms
    by (cases c)
       (simp add: read_configuration_def show_configuration_def read_struct_def wf_configuration_def
          empty_configuration_def omit_int_def resolve_def put_configuration_def)
  finally show ?thesis .
qed

text \<open>
  A configuration that is not empty is accepted exactly when each of its five values is at
  most the value in the configuration of the app \<open>maxConfig\<close>; the empty configuration always is.
\<close>

theorem ValidateConfigurations_limits:
  assumes "GetApp E MaxConfigApp c = ((app, None), c')"
  shows "fst (ValidateConfigurations E config c) = None \<longleftrightarrow>
    config = empty_configuration \<or>
    PayloadSize config \<le> PayloadSize (app_Configuration app) \<and>
    HttpRetries config \<le> HttpRetries (app_Configuration app) \<and>
    HttpTimeout config \<le> HttpTimeout (app_Configuration app) \<and>
    FiredScheduleRetentionPeriod config \<le> FiredScheduleRetentionPeriod (app_Configuration app) \<and>
    FutureScheduleCreationPeriod config \<le> FutureScheduleCreationPeriod (app_Configuration app)"
  by (auto simp: ValidateConfigurations_def assms Let_def)

definition sample_limits :: App where
  "sample_limits = \<lparr>app_AppId = MaxConfigApp, Partitions = 0, Active = False,
     app_Configuration = AppLevelConfiguration defaultConfig\<rparr>"

definition sample_cluster :: "mem cluster" where
  "sample_cluster = \<lparr>cl_DB = empty_mem, AppMap = [(MaxConfigApp, sample_limits)]\<rparr>"

theorem ValidateConfigurations_limits_witness:
  "fst (ValidateConfigurations sample_env (empty_configuration\<lparr>PayloadSize := 2048\<rparr>) sample_cluster) \<noteq> None"
proof -
  have "GetApp sample_env MaxConfigApp sample_cluster = ((sample_limits, None), sample_cluster)"
    by (simp add: GetApp_def check_def sample_cluster_def)
  from ValidateConfigurations_limits [OF this, of "empty_configuration\<lparr>PayloadSize := 2048\<rparr>"] show ?thesis
    by (simp add: empty_configuration_def sample_limits_def defaultConfig_def)
qed

section \<open>Rows of the cluster tables\<close>

text \<open>The column \<open>id\<close> of a row of the cluster tables is its primary key.\<close>

definition keyed :: "table \<Rightarrow> bool" where
  "keyed T \<longleftrightarrow> (\<forall>k r. T k = Some r \<longrightarrow> (\<exists>v. k = [v] \<and> r ''id'' = Some v))"

lemma keyedD: "keyed T \<Longrightarrow> T k = Some r \<Longrightarrow> r ''id'' = Some v \<Longrightarrow> k = [v]"
  unfolding keyed_def by (metis option.inject)

lemma keyed_id: "keyed T \<Longrightarrow> T [v] = Some r \<Longrightarrow> r ''id'' = Some v"
  by (auto simp: keyed_def)

definition id_table :: "string \<Rightarrow> bool" where
  "id_table t \<longleftrightarrow> t \<in> {''apps'', ''entity''}"

lemma id_table_key [simp]: "id_table t \<Longrightarrow> primary_key t = [''id'']"
  by (auto simp: id_table_def primary_key_def)

lemma id_table_base [simp]: "id_table t \<Longrightarrow> base_table t = t"
  by (auto simp: id_table_def base_table_def)

lemma upsert_id_row:
  assumes "id_table t" and "map_of cols ''id'' = Some v"
  shows "upsert t cols T t [v] = Some ((case T t [v] of Some r \<Rightarrow> r | None \<Rightarrow> (\<lambda>_. None)) ++ map_of cols)"
  using upsert_same [of t cols T] assms by (simp add: key_of_def)

lemma upsert_id_columns:
  assumes "id_table t" and "map_of cols ''id'' = Some v" and "distinct (map fst cols)"
  obtains r where "upsert t cols T t [v] = Some r" "\<forall>(c, v) \<in> set cols. r c = Some v"
  using upsert_has_columns [OF assms(3), of t T] assms(1,2) by (auto simp: key_of_def)

lemma upsert_id_other:
  assumes "id_table t" and "map_of cols ''id'' = Some v" and "k \<noteq> [v]"
  shows "upsert t cols T t k = T t k"
  using assms by (intro upsert_other) (simp add: key_of_def)

lemma keyed_upsert:
  assumes "id_table t" and "map_of cols ''id'' = Some v" and "keyed (T t)"
  shows "keyed (upsert t cols T t)"
  unfolding keyed_def
proof (intro allI impI)
  fix k r assume r: "upsert t cols T t k = Some r"
  show "\<exists>v. k = [v] \<and> r ''id'' = Some v"
  proof (cases "k = [v]")
    case True
    then show ?thesis using r assms(2) by (auto simp: upsert_id_row [OF assms(1,2)] map_add_def)
  next
    case False
    with r assms(3) show ?thesis by (simp add: upsert_id_other [OF assms(1,2)] keyed_def)
  qed
qed

context cassandra
begin

lemma scan_by_id:
  assumes "id_table t" and "keyed (tables db t)" and "tables db t [v] = Some r"
  shows "MapScan sess (Select t cols [Eq ''id'' v]) db = Inr (project t cols r) \<or>
    (\<exists>e. MapScan sess (Select t cols [Eq ''id'' v]) db = Inl e \<and> e \<noteq> ErrNotFound)"
  using assms by (intro scan_unique [of db t "[v]"]) (auto dest: keyedD keyed_id)

lemma scan_by_id_row:
  assumes "id_table t" and "keyed (tables db t)" and "MapScan sess (Select t cols [Eq ''id'' v]) db = Inr m"
  obtains r where "tables db t [v] = Some r" "r ''id'' = Some v" "m = project t cols r"
proof -
  from scan_row [OF assms(3)] obtain rows where "answers (Select t cols [Eq ''id'' v]) (tables db) rows" "m \<in> set rows"
    by blast
  then obtain k r where "m = project t cols r" "tables db (base_table t) k = Some r"
      "list_all (\<lambda>c. cond_holds c r) [Eq ''id'' v]"
    by (rule answers_row)
  with assms(1,2) show thesis by (intro that [of r]) (auto dest: keyedD)
qed

end

section \<open>Apps\<close>

lemma app_row_columns:
  "map_of (project ''apps'' app_select r) ''id'' = Some (case r ''id'' of Some v \<Rightarrow> v | None \<Rightarrow> null_value ''apps'' ''id'')"
  "map_of (project ''apps'' app_select r) ''partitions'' =
     Some (case r ''partitions'' of Some v \<Rightarrow> v | None \<Rightarrow> null_value ''apps'' ''partitions'')"
  "map_of (project ''apps'' app_select r) ''active'' =
     Some (case r ''active'' of Some v \<Rightarrow> v | None \<Rightarrow> null_value ''apps'' ''active'')"
  "map_of (project ''apps'' app_select r) ''configuration'' =
     Some (case r ''configuration'' of Some v \<Rightarrow> v | None \<Rightarrow> null_value ''apps'' ''configuration'')"
  by (simp_all add: project_lookup app_select_def)

lemma id_table_names [simp]: "id_table ''apps''" "id_table ''entity''"
  by (simp_all add: id_table_def)

lemma InsertApp_writes:
  assumes "InsertApp E app c = (None, c')"
  obtains c1 where "validated E (app_AppId app) (app_Configuration app) c = (None, c1)"
    "Exec (env_Session E) (Insert ''apps''
       [(''id'', VText (app_AppId app)), (''partitions'', VInt (uint (Partitions app))),
        (''active'', VBool (Active app)), (''configuration'', VText (config_text (app_Configuration app)))] None) (cl_DB c1)
     = (None, cl_DB c')" "c' = c1\<lparr>cl_DB := cl_DB c'\<rparr>"
  using assms by (auto simp: InsertApp_def split: prod.splits if_splits)

lemma GetApp_keeps_DB [simp]: "GetApp E a c = (r, c') \<Longrightarrow> cl_DB c' = cl_DB c"
  by (auto simp: GetApp_def getApp_def cache_def Let_def split: option.splits sum.splits prod.splits)

lemma validated_keeps_DB: "validated E a cf c = (e, c') \<Longrightarrow> cl_DB c' = cl_DB c"
  by (auto simp: validated_def ValidateConfigurations_def Let_def split: if_splits prod.splits)

context cassandra
begin

lemma getApp_stored:
  assumes "env_Session E = sess" and "plain a" and "keyed (tables (cl_DB c) ''apps'')"
    and "tables (cl_DB c) ''apps'' [VText a] = Some r"
    and "r ''partitions'' = Some (VInt (uint (Partitions app)))" and "r ''active'' = Some (VBool (Active app))"
    and "r ''configuration'' = Some (VText (config_text (app_Configuration app)))"
    and "wf_configuration (app_Configuration app)" and "app_AppId app = a"
  shows "getApp E a c = ((app, None), cache app c) \<or>
    (\<exists>e. getApp E a c = ((empty_app, Some e), c) \<and> e \<noteq> ErrNotFound)"
proof -
  let ?q = "Select ''apps'' app_select [Eq ''id'' (VText a)]"
  have scan: "scan_spliced E [a] cql ?q (cl_DB c) = MapScan sess ?q (cl_DB c)" for cql
    using assms(1,2) by (simp add: scan_spliced_def)
  have rid: "r ''id'' = Some (VText a)" by (rule keyed_id [OF assms(3,4)])
  have row: "app_of_row (project ''apps'' app_select r) (app_Configuration app) = app"
    using assms(5,6,9) rid by (cases app) (simp add: app_of_row_def text_of_def int_of_def bool_of_def app_row_columns)
  have conf: "unmarshal_configuration (text_of (project ''apps'' app_select r) ''configuration'') = (app_Configuration app, False)"
    using assms(7) unmarshal_config_text [OF assms(8)] by (simp add: text_of_def app_row_columns)
  show ?thesis
    using scan_by_id [OF _ assms(3,4), of app_select]
    by (auto simp: getApp_def scan conf row Let_def)
qed

end

text \<open>
  C21. An app that was inserted is read from the database as it was given: its partitions, whether it is
  active and its configuration, which went through JSON text. The only other outcome is a reported error
  that is not \<open>ErrNotFound\<close>. The app read is kept in the cache.
\<close>

theorem InsertApp_getApp:
  assumes "cassandra sess tables rest pages_left" and "env_Session E = sess"
    and "keyed (tables (cl_DB c) ''apps'')" and "plain (app_AppId app)" and "wf_configuration (app_Configuration app)"
    and "InsertApp E app c = (None, c')"
  shows "getApp E (app_AppId app) c' = ((app, None), cache app c') \<and> check (app_AppId app) (cache app c') = Some app \<or>
    (\<exists>e. getApp E (app_AppId app) c' = ((empty_app, Some e), c') \<and> e \<noteq> ErrNotFound)"
proof -
  let ?cols = "[(''id'', VText (app_AppId app)), (''partitions'', VInt (uint (Partitions app))),
    (''active'', VBool (Active app)), (''configuration'', VText (config_text (app_Configuration app)))]"
  from assms(6) obtain c1 where c1: "validated E (app_AppId app) (app_Configuration app) c = (None, c1)"
      "Exec sess (Insert ''apps'' ?cols None) (cl_DB c1) = (None, cl_DB c')"
    using assms(2) by (metis InsertApp_writes)
  have tabs: "tables (cl_DB c') = upsert ''apps'' ?cols (tables (cl_DB c))"
    using cassandra.exec_ok [OF assms(1) c1(2)] validated_keeps_DB [OF c1(1)] by simp
  have row: "tables (cl_DB c') ''apps'' [VText (app_AppId app)] =
      Some ((case tables (cl_DB c) ''apps'' [VText (app_AppId app)] of Some r \<Rightarrow> r | None \<Rightarrow> (\<lambda>_. None)) ++ map_of ?cols)"
    unfolding tabs by (rule upsert_id_row) simp_all
  have "keyed (tables (cl_DB c') ''apps'')"
    unfolding tabs by (rule keyed_upsert [where v = "VText (app_AppId app)"]) (simp_all add: assms(3))
  from cassandra.getApp_stored [OF assms(1,2,4) this row, where app = app] assms(5) show ?thesis
    by (auto simp: check_def cache_def)
qed

theorem InsertApp_getApp_witness:
  "getApp sample_env ''app'' (snd (InsertApp sample_env sample_app sample_cluster)) =
     ((sample_app, None), cache sample_app (snd (InsertApp sample_env sample_app sample_cluster))) \<and>
   check ''app'' (cache sample_app (snd (InsertApp sample_env sample_app sample_cluster))) = Some sample_app \<or>
   (\<exists>e. getApp sample_env ''app'' (snd (InsertApp sample_env sample_app sample_cluster)) =
      ((empty_app, Some e), snd (InsertApp sample_env sample_app sample_cluster)) \<and> e \<noteq> ErrNotFound)"
proof -
  have "InsertApp sample_env sample_app sample_cluster = (None, snd (InsertApp sample_env sample_app sample_cluster))"
    by (simp add: InsertApp_def validated_def ValidateConfigurations_def sample_app_def sample_env_def mem_session_def)
  from InsertApp_getApp [OF mem.cassandra_axioms _ _ _ _ this] show ?thesis
    by (simp add: sample_env_def sample_cluster_def empty_mem_def keyed_def mem_tables_def sample_app_def plain_def
        wf_configuration_def empty_configuration_def in64_def)
qed

lemma check_invalidated: "check a (InvalidateSingleAppCache a c) = None"
  by (auto simp: check_def InvalidateSingleAppCache_def map_of_eq_None_iff)

lemma InvalidateSingleAppCache_DB [simp]: "cl_DB (InvalidateSingleAppCache a c) = cl_DB c"
  by (simp add: InvalidateSingleAppCache_def)

lemma exec_cluster_plain:
  assumes "list_all plain names" and "exec_cluster E names t st c = (None, c')"
  shows "Exec (env_Session E) st (cl_DB c) = (None, cl_DB c')" "AppMap c' = AppMap c"
  using assms by (auto simp: exec_cluster_def exec_spliced_def split: prod.splits)

context cassandra
begin

lemma getApp_row:
  assumes "env_Session E = sess" and "plain a" and "keyed (tables (cl_DB c) ''apps'')"
    and "getApp E a c = ((app, None), c')"
  obtains r where "tables (cl_DB c) ''apps'' [VText a] = Some r" "app_AppId app = a"
    "Active app = bool_of (project ''apps'' app_select r) ''active''" "c' = cache app c"
proof -
  let ?q = "Select ''apps'' app_select [Eq ''id'' (VText a)]"
  from assms obtain m where m: "MapScan sess ?q (cl_DB c) = Inr m" "c' = cache app c"
      "app_AppId app = text_of m ''id''" "Active app = bool_of m ''active''"
    by (auto simp: getApp_def scan_spliced_def Let_def app_of_row_def split: sum.splits prod.splits)
  from scan_by_id_row [OF _ assms(3) m(1)] obtain r where
      "tables (cl_DB c) ''apps'' [VText a] = Some r" "r ''id'' = Some (VText a)" "m = project ''apps'' app_select r"
    by auto
  with m(2-4) show thesis by (intro that [of r]) (simp_all add: text_of_def app_row_columns)
qed

end

text \<open>
  C22. Activation and deactivation take effect through the cache only once the app is invalidated there:
  after \<open>UpdateAppActiveStatus\<close> and \<open>InvalidateSingleAppCache\<close> every app that \<open>GetApp\<close> delivers
  has the new flag. Without the invalidation \<open>GetApp\<close> goes on to deliver the cached app unchanged.
\<close>

theorem UpdateAppActiveStatus_visible:
  assumes "cassandra sess tables rest pages_left" and "env_Session E = sess"
    and "keyed (tables (cl_DB c) ''apps'')" and "plain a"
    and "UpdateAppActiveStatus E a b c = (None, c1)"
  shows "(\<forall>app c2. GetApp E a (InvalidateSingleAppCache a c1) = ((app, None), c2) \<longrightarrow>
           app_AppId app = a \<and> Active app = b \<and> check a c2 = Some app) \<and>
    (\<forall>old. check a c = Some old \<longrightarrow> GetApp E a c1 = ((old, None), c1))"
proof (intro conjI allI impI)
  have exec: "Exec sess (Update ''apps'' [(''active'', VBool b)] [(''id'', VText a)]) (cl_DB c) = (None, cl_DB c1)"
      and same: "AppMap c1 = AppMap c"
    using exec_cluster_plain [OF _ assms(5) [unfolded UpdateAppActiveStatus_def]] assms(2,4) by simp_all
  have tabs: "tables (cl_DB c1) = upsert ''apps'' [(''id'', VText a), (''active'', VBool b)] (tables (cl_DB c))"
    using cassandra.exec_ok [OF assms(1) exec] by simp
  have keyed: "keyed (tables (cl_DB c1) ''apps'')"
    unfolding tabs by (rule keyed_upsert [where v = "VText a"]) (simp_all add: assms(3))
  show "GetApp E a c1 = ((old, None), c1)" if "check a c = Some old" for old
    using that same by (simp add: GetApp_def check_def)
  fix app c2 assume "GetApp E a (InvalidateSingleAppCache a c1) = ((app, None), c2)"
  then have "getApp E a (InvalidateSingleAppCache a c1) = ((app, None), c2)"
    by (simp add: GetApp_def check_invalidated)
  then obtain r where r: "tables (cl_DB c1) ''apps'' [VText a] = Some r" "app_AppId app = a"
      "Active app = bool_of (project ''apps'' app_select r) ''active''" "c2 = cache app (InvalidateSingleAppCache a c1)"
    using cassandra.getApp_row [OF assms(1,2,4), of "InvalidateSingleAppCache a c1" app c2] keyed by auto
  have "r ''active'' = Some (VBool b)"
    using r(1) upsert_id_row [of "''apps''" "[(''id'', VText a), (''active'', VBool b)]" "VText a" "tables (cl_DB c)"]
    by (auto simp: tabs)
  with r show "app_AppId app = a" "Active app = b" "check a c2 = Some app"
    by (simp_all add: bool_of_def app_row_columns check_def cache_def)
qed

theorem UpdateAppActiveStatus_visible_witness:
  "\<exists>app c2. GetApp sample_env ''app''
       (InvalidateSingleAppCache ''app'' (snd (UpdateAppActiveStatus sample_env ''app'' False sample_cluster))) = ((app, None), c2) \<and>
     app_AppId app = ''app'' \<and> Active app = False \<and> check ''app'' c2 = Some app"
proof -
  let ?c1 = "snd (UpdateAppActiveStatus sample_env ''app'' False sample_cluster)"
  have upd: "UpdateAppActiveStatus sample_env ''app'' False sample_cluster = (None, ?c1)"
    by (simp add: UpdateAppActiveStatus_def exec_cluster_def exec_spliced_def plain_def sample_env_def mem_session_def)
  have db: "cl_DB ?c1 = mem_upsert ''apps'' [(''id'', VText ''app''), (''active'', VBool False)] empty_mem"
    by (simp add: UpdateAppActiveStatus_def exec_cluster_def exec_spliced_def plain_def sample_env_def mem_session_def
        sample_cluster_def)
  have "\<exists>app c2. getApp sample_env ''app'' c = ((app, None), c2)"
    if "cl_DB c = mem_upsert ''apps'' [(''id'', VText ''app''), (''active'', VBool False)] empty_mem" for c
    by (simp add: getApp_def scan_spliced_def plain_def sample_env_def mem_session_def that mem_upsert_def key_of_def
        primary_key_def empty_mem_def base_table_def mem_lookup_def Let_def split: prod.splits)
  from this [of "InvalidateSingleAppCache ''app'' ?c1"] db obtain app c2 where "GetApp sample_env ''app'' (InvalidateSingleAppCache ''app'' ?c1) = ((app, None), c2)"
    by (auto simp: GetApp_def check_invalidated)
  moreover from this have "app_AppId app = ''app'' \<and> Active app = False \<and> check ''app'' c2 = Some app"
    using UpdateAppActiveStatus_visible [OF mem.cassandra_axioms _ _ _ upd]
    by (simp add: sample_env_def sample_cluster_def empty_mem_def keyed_def mem_tables_def plain_def)
  ultimately show ?thesis by blast
qed

section \<open>Entities\<close>

lemma GetEntityInfo_plain:
  "plain eid \<Longrightarrow> GetEntityInfo E eid c =
     (case MapScan (env_Session E) (Select ''entity'' entity_select [Eq ''id'' (VText eid)]) (cl_DB c) of
        Inl err \<Rightarrow> empty_entity | Inr m \<Rightarrow> entity_of_row m)"
  unfolding GetEntityInfo_def scan_spliced_def by simp

lemma entity_row_columns:
  "map_of (project ''entity'' entity_select r) ''id'' = Some (case r ''id'' of Some v \<Rightarrow> v | None \<Rightarrow> null_value ''entity'' ''id'')"
  "map_of (project ''entity'' entity_select r) ''nodename'' =
     Some (case r ''nodename'' of Some v \<Rightarrow> v | None \<Rightarrow> null_value ''entity'' ''nodename'')"
  "map_of (project ''entity'' entity_select r) ''status'' =
     Some (case r ''status'' of Some v \<Rightarrow> v | None \<Rightarrow> null_value ''entity'' ''status'')"
  "map_of (project ''entity'' entity_select r) ''history'' =
     Some (case r ''history'' of Some v \<Rightarrow> v | None \<Rightarrow> null_value ''entity'' ''history'')"
  by (simp_all add: project_lookup entity_select_def)

definition last_bytes :: "nat \<Rightarrow> string \<Rightarrow> string" where
  "last_bytes n h = drop (length h - n) h"

lemma length_last_bytes [simp]: "length (last_bytes n h) = min n (length h)"
  by (simp add: last_bytes_def)

lemma cut_history_last: "0 \<le> n \<Longrightarrow> cut_history n h = Ret (last_bytes (nat n) h)"
  by (auto simp: cut_history_def last_bytes_def)



section \<open>The default apps\<close>

lemma must_Ret: "must m s = (Ret (), s') \<longleftrightarrow> m s = (None, s')"
  by (auto simp: must_def Fatal_def split: prod.splits option.splits)

lemma upsert_keeps_rows: "T t k \<noteq> None \<Longrightarrow> upsert t' cols T t k \<noteq> None"
  by (auto simp: upsert_def Let_def)

lemma upsert_adds_row:
  "id_table t \<Longrightarrow> map_of cols ''id'' = Some v \<Longrightarrow> upsert t cols T t [v] \<noteq> None"
  by (simp add: upsert_id_row)

definition app_columns :: "App \<Rightarrow> (string \<times> cql) list" where
  "app_columns app =
     [(''id'', VText (app_AppId app)), (''partitions'', VInt (uint (Partitions app))),
      (''active'', VBool (Active app)), (''configuration'', VText (config_text (app_Configuration app)))]"

definition entity_columns :: "'db env \<Rightarrow> string \<Rightarrow> (string \<times> cql) list" where
  "entity_columns E eid = [(''id'', VText eid), (''nodename'', VText (Address (env_Conf E))), (''status'', VInt 0)]"

context cassandra
begin

lemma InsertApp_tables:
  assumes "env_Session E = sess" and "InsertApp E app c = (None, c')"
  shows "tables (cl_DB c') = upsert ''apps'' (app_columns app) (tables (cl_DB c))"
proof -
  from assms obtain c1 where c1: "validated E (app_AppId app) (app_Configuration app) c = (None, c1)"
      "Exec sess (Insert ''apps'' (app_columns app) None) (cl_DB c1) = (None, cl_DB c')"
    unfolding app_columns_def by (metis InsertApp_writes)
  then show ?thesis using exec_ok [OF c1(2)] validated_keeps_DB [OF c1(1)] by simp
qed

lemma CreateEntity_tables:
  assumes "env_Session E = sess" and "CreateEntity E e c = (None, c')"
  shows "tables (cl_DB c') = upsert ''entity'' (entity_columns E (ei_Id e)) (tables (cl_DB c))"
proof -
  have "Exec sess (Insert ''entity'' (entity_columns E (ei_Id e)) None) (cl_DB c) = (None, cl_DB c')"
    using assms by (auto simp: CreateEntity_def entity_columns_def split: prod.splits)
  from exec_ok [OF this] show ?thesis by simp
qed

lemma create_partitions_tables:
  assumes "env_Session E = sess" and "create_partitions E app ps c = (Ret (), c')"
  shows "tables (cl_DB c') ''apps'' = tables (cl_DB c) ''apps'' \<and>
    (\<forall>k. tables (cl_DB c) ''entity'' k \<noteq> None \<longrightarrow> tables (cl_DB c') ''entity'' k \<noteq> None) \<and>
    (\<forall>p \<in> set ps. tables (cl_DB c') ''entity'' [VText (entity_id app p)] \<noteq> None)"
  using assms(2)
proof (induction ps arbitrary: c)
  case (Cons p ps)
  then obtain c1 where "create_partitions E app ps c1 = (Ret (), c')" and
      c1: "CreateEntity E \<lparr>ei_Id = entity_id app p, ei_Node = Address (env_Conf E), ei_Status = 0, History = []\<rparr> c = (None, c1)"
    by (auto simp: bnd_eq_Ret must_Ret)
  note IH = Cons.IH [OF this(1)]
  have tabs: "tables (cl_DB c1) = upsert ''entity'' (entity_columns E (entity_id app p)) (tables (cl_DB c))"
    using CreateEntity_tables [OF assms(1) c1] by simp
  have "tables (cl_DB c1) ''apps'' = tables (cl_DB c) ''apps''"
    unfolding tabs by (rule upsert_frame) simp
  moreover have "tables (cl_DB c1) ''entity'' [VText (entity_id app p)] \<noteq> None"
    unfolding tabs by (rule upsert_adds_row) (simp_all add: entity_columns_def)
  moreover have "\<forall>k. tables (cl_DB c) ''entity'' k \<noteq> None \<longrightarrow> tables (cl_DB c1) ''entity'' k \<noteq> None"
    unfolding tabs by (metis upsert_keeps_rows)
  ultimately show ?case using IH by (metis set_ConsD)
qed (simp add: ret_def)

lemma getDefaultApps_iff:
  assumes "env_Session E = sess" and "keyed (tables (cl_DB c) ''apps'')" and "getDefaultApps E c = (apps, None)"
  shows "a \<in> {MaxConfigApp, CronApp (env_Conf E)} \<Longrightarrow> a \<in> set apps \<longleftrightarrow> tables (cl_DB c) ''apps'' [VText a] \<noteq> None"
proof -
  assume a: "a \<in> {MaxConfigApp, CronApp (env_Conf E)}"
  let ?cond = "In ''id'' [VText MaxConfigApp, VText (CronApp (env_Conf E))]"
  from assms obtain rows where rows: "Iter sess (Select ''apps'' app_select [?cond]) (cl_DB c) = (rows, None)"
      "apps = map (\<lambda>m. text_of m ''id'') rows"
    by (auto simp: getDefaultApps_def apps_by_ids_def split: prod.splits)
  have key: "k = [VText b] \<and> text_of (project ''apps'' app_select r) ''id'' = b"
    if "tables (cl_DB c) ''apps'' k = Some r" and "r ''id'' = Some (VText b)" for k r b
    using that keyedD [OF assms(2)] by (simp add: text_of_def app_row_columns)
  have hit: "\<exists>b. r ''id'' = Some (VText b)" if "cond_holds ?cond r" for r
    using that by (auto split: option.splits)
  have ans: "m \<in> set rows \<longleftrightarrow> (\<exists>k r. tables (cl_DB c) ''apps'' k = Some r \<and> cond_holds ?cond r \<and>
      m = project ''apps'' app_select r)" for m
    using answers_set [OF iter_ok [OF rows(1)]] by (simp del: cond_holds.simps)
  have "a \<in> set apps \<longleftrightarrow> (\<exists>k r. tables (cl_DB c) ''apps'' k = Some r \<and> cond_holds ?cond r \<and>
      text_of (project ''apps'' app_select r) ''id'' = a)"
    unfolding rows(2) set_map image_iff Bex_def ans by blast
  also have "\<dots> \<longleftrightarrow> tables (cl_DB c) ''apps'' [VText a] \<noteq> None"
  proof
    assume "\<exists>k r. tables (cl_DB c) ''apps'' k = Some r \<and> cond_holds ?cond r \<and>
      text_of (project ''apps'' app_select r) ''id'' = a"
    then obtain k r b where "tables (cl_DB c) ''apps'' k = Some r" "r ''id'' = Some (VText b)"
        "text_of (project ''apps'' app_select r) ''id'' = a"
      using hit by blast
    with key show "tables (cl_DB c) ''apps'' [VText a] \<noteq> None" by auto
  next
    assume "tables (cl_DB c) ''apps'' [VText a] \<noteq> None"
    then obtain r where r: "tables (cl_DB c) ''apps'' [VText a] = Some r" by blast
    with keyed_id [OF assms(2)] have rid: "r ''id'' = Some (VText a)" by blast
    with a have "cond_holds ?cond r" by auto
    with r rid key show "\<exists>k r. tables (cl_DB c) ''apps'' k = Some r \<and> cond_holds ?cond r \<and>
      text_of (project ''apps'' app_select r) ''id'' = a" by blast
  qed
  finally show ?thesis .
qed

end

context cassandra
begin

lemma create_max_config_app_tables:
  assumes "env_Session E = sess" and "create_max_config_app E apps c = (Ret (), c')" and "keyed (tables (cl_DB c) ''apps'')"
    and "MaxConfigApp \<in> set apps \<longleftrightarrow> tables (cl_DB c) ''apps'' [VText MaxConfigApp] \<noteq> None"
  shows "keyed (tables (cl_DB c') ''apps'')" "tables (cl_DB c') ''apps'' [VText MaxConfigApp] \<noteq> None"
    "a \<noteq> MaxConfigApp \<Longrightarrow> tables (cl_DB c') ''apps'' [VText a] = tables (cl_DB c) ''apps'' [VText a]"
proof -
  let ?app = "\<lparr>app_AppId = MaxConfigApp, Partitions = 0, Active = False,
    app_Configuration = AppLevelConfiguration (env_Conf E)\<rparr>"
  let ?T = "upsert ''apps'' (app_columns ?app) (tables (cl_DB c))"
  have new: "tables (cl_DB c') = ?T" if "MaxConfigApp \<notin> set apps"
    using that assms(2) InsertApp_tables [OF assms(1), of ?app c c'] by (simp add: create_max_config_app_def must_Ret)
  have old: "MaxConfigApp \<in> set apps \<Longrightarrow> c' = c" using assms(2) by (simp add: create_max_config_app_def ret_def)
  have keyed: "keyed (?T ''apps'')"
    by (rule keyed_upsert [where v = "VText MaxConfigApp"]) (simp_all add: app_columns_def assms(3))
  have row: "?T ''apps'' [VText MaxConfigApp] \<noteq> None"
    by (rule upsert_adds_row) (simp_all add: app_columns_def)
  have other: "?T ''apps'' [VText a] = tables (cl_DB c) ''apps'' [VText a]" if "a \<noteq> MaxConfigApp"
    by (rule upsert_id_other [where v = "VText MaxConfigApp"]) (simp_all add: app_columns_def that)
  show "keyed (tables (cl_DB c') ''apps'')" using new old keyed assms(3) by metis
  show "tables (cl_DB c') ''apps'' [VText MaxConfigApp] \<noteq> None" using new old row assms(4) by metis
  show "a \<noteq> MaxConfigApp \<Longrightarrow> tables (cl_DB c') ''apps'' [VText a] = tables (cl_DB c) ''apps'' [VText a]"
    using new old other by metis
qed

lemma create_cron_app_tables:
  assumes "env_Session E = sess" and "create_cron_app E apps c = (Ret (), c')" and "keyed (tables (cl_DB c) ''apps'')"
  shows "keyed (tables (cl_DB c') ''apps'')"
    "\<forall>k. tables (cl_DB c) ''apps'' k \<noteq> None \<longrightarrow> tables (cl_DB c') ''apps'' k \<noteq> None"
    "CronApp (env_Conf E) \<notin> set apps \<Longrightarrow> tables (cl_DB c') ''apps'' [VText (CronApp (env_Conf E))] \<noteq> None \<and>
       (\<forall>p < unat (DefaultCount (env_Conf E)).
          tables (cl_DB c') ''entity'' [VText (entity_id (CronApp (env_Conf E)) p)] \<noteq> None)"
proof -
  let ?app = "\<lparr>app_AppId = CronApp (env_Conf E), Partitions = DefaultCount (env_Conf E), Active = True,
    app_Configuration = empty_configuration\<rparr>"
  have new: "tables (cl_DB c') ''apps'' = upsert ''apps'' (app_columns ?app) (tables (cl_DB c)) ''apps'' \<and>
      (\<forall>p < unat (DefaultCount (env_Conf E)).
          tables (cl_DB c') ''entity'' [VText (entity_id (CronApp (env_Conf E)) p)] \<noteq> None)"
    if "CronApp (env_Conf E) \<notin> set apps"
  proof -
    from that assms(2) obtain c1 where c1: "InsertApp E ?app c = (None, c1)"
        "create_partitions E (CronApp (env_Conf E)) [0..<unat (DefaultCount (env_Conf E))] c1 = (Ret (), c')"
      by (auto simp: create_cron_app_def bnd_eq_Ret must_Ret)
    show ?thesis
      using create_partitions_tables [OF assms(1) c1(2)] InsertApp_tables [OF assms(1) c1(1)] by simp
  qed
  have old: "CronApp (env_Conf E) \<in> set apps \<Longrightarrow> c' = c" using assms(2) by (simp add: create_cron_app_def ret_def)
  have "keyed (upsert ''apps'' (app_columns ?app) (tables (cl_DB c)) ''apps'')"
    by (rule keyed_upsert [where v = "VText (CronApp (env_Conf E))"]) (simp_all add: app_columns_def assms(3))
  with new old assms(3) show "keyed (tables (cl_DB c') ''apps'')" by metis
  show "\<forall>k. tables (cl_DB c) ''apps'' k \<noteq> None \<longrightarrow> tables (cl_DB c') ''apps'' k \<noteq> None"
    using new old upsert_keeps_rows by metis
  have "upsert ''apps'' (app_columns ?app) (tables (cl_DB c)) ''apps'' [VText (CronApp (env_Conf E))] \<noteq> None"
    by (rule upsert_adds_row) (simp_all add: app_columns_def)
  then show "CronApp (env_Conf E) \<notin> set apps \<Longrightarrow> tables (cl_DB c') ''apps'' [VText (CronApp (env_Conf E))] \<noteq> None \<and>
       (\<forall>p < unat (DefaultCount (env_Conf E)).
          tables (cl_DB c') ''entity'' [VText (entity_id (CronApp (env_Conf E)) p)] \<noteq> None)"
    using new by metis
qed

end

text \<open>
  When the creation of the default apps returns, the app \<open>maxConfig\<close> and the cron app exist; if the
  cron app did not exist before, every poller entity of it exists too. Running it again, as the
  next node that starts does, changes nothing: it returns at once, or ends the process on a read error.
\<close>

theorem default_apps_exist:
  assumes "cassandra sess tables rest pages_left" and "env_Session E = sess"
    and "keyed (tables (cl_DB c) ''apps'')" and "CronApp (env_Conf E) \<noteq> MaxConfigApp"
    and "createDefaultAppsIfRequired E c = (Ret (), c')"
  shows "tables (cl_DB c') ''apps'' [VText MaxConfigApp] \<noteq> None \<and>
    tables (cl_DB c') ''apps'' [VText (CronApp (env_Conf E))] \<noteq> None \<and>
    (tables (cl_DB c) ''apps'' [VText (CronApp (env_Conf E))] = None \<longrightarrow>
       (\<forall>p < unat (DefaultCount (env_Conf E)).
          tables (cl_DB c') ''entity'' [VText (entity_id (CronApp (env_Conf E)) p)] \<noteq> None)) \<and>
    createDefaultAppsIfRequired E c' \<in> {(Ret (), c'), (Fatal, c')}"
proof -
  from assms(5) obtain apps c1 where apps: "getDefaultApps E c = (apps, None)" and
      c1: "create_max_config_app E apps c = (Ret (), c1)" "create_cron_app E apps c1 = (Ret (), c')"
    by (auto simp: createDefaultAppsIfRequired_def Fatal_def bnd_eq_Ret split: prod.splits option.splits)
  note iff = cassandra.getDefaultApps_iff [OF assms(1,2)]
  note m = cassandra.create_max_config_app_tables [OF assms(1,2) c1(1) assms(3) iff [OF assms(3) apps insertI1]]
  note k = cassandra.create_cron_app_tables [OF assms(1,2) c1(2) m(1)]
  have max: "tables (cl_DB c') ''apps'' [VText MaxConfigApp] \<noteq> None" using m(2) k(2) by blast
  have cron: "tables (cl_DB c') ''apps'' [VText (CronApp (env_Conf E))] \<noteq> None"
    using k(2,3) m(3) [OF assms(4)] iff [OF assms(3) apps, of "CronApp (env_Conf E)"] by auto
  have new: "tables (cl_DB c) ''apps'' [VText (CronApp (env_Conf E))] = None \<longrightarrow>
       (\<forall>p < unat (DefaultCount (env_Conf E)).
          tables (cl_DB c') ''entity'' [VText (entity_id (CronApp (env_Conf E)) p)] \<noteq> None)"
    using k(3) iff [OF assms(3) apps, of "CronApp (env_Conf E)"] by blast
  have "createDefaultAppsIfRequired E c' \<in> {(Ret (), c'), (Fatal, c')}"
  proof (cases "getDefaultApps E c'")
    case (Pair apps' err)
    then show ?thesis
      using iff [OF k(1), of apps'] max cron
      by (cases err) (simp_all add: createDefaultAppsIfRequired_def create_max_config_app_def create_cron_app_def ret_def)
  qed
  with max cron new show ?thesis by blast
qed

theorem default_apps_exist_witness:
  "\<exists>c'. createDefaultAppsIfRequired sample_env \<lparr>cl_DB = empty_mem, AppMap = []\<rparr> = (Ret (), c') \<and>
    mem_tables (cl_DB c') ''apps'' [VText MaxConfigApp] \<noteq> None \<and>
    mem_tables (cl_DB c') ''apps'' [VText ''Athena''] \<noteq> None \<and>
    (\<forall>p < 5. mem_tables (cl_DB c') ''entity'' [VText (entity_id ''Athena'' p)] \<noteq> None)"
proof -
  let ?c = "\<lparr>cl_DB = empty_mem, AppMap = []\<rparr>"
  have "fst (createDefaultAppsIfRequired sample_env ?c) = Ret ()"
    by (simp add: createDefaultAppsIfRequired_def getDefaultApps_def apps_by_ids_def create_max_config_app_def
        create_cron_app_def InsertApp_def validated_def ValidateConfigurations_def must_def bnd_def ret_def
        CreateEntity_def sample_env_def defaultConfig_def mem_session_def empty_mem_def base_table_def
        MaxConfigApp_def upt_conv_Cons split: prod.splits)
  then obtain c' where c': "createDefaultAppsIfRequired sample_env ?c = (Ret (), c')"
    by (cases "createDefaultAppsIfRequired sample_env ?c") simp
  have conf: "env_Session sample_env = mem_session" "CronApp (env_Conf sample_env) = ''Athena''"
      "unat (DefaultCount (env_Conf sample_env)) = 5" "CronApp (env_Conf sample_env) \<noteq> MaxConfigApp"
    by (simp_all add: sample_env_def defaultConfig_def MaxConfigApp_def)
  have empty: "keyed (mem_tables (cl_DB ?c) ''apps'')" "mem_tables (cl_DB ?c) ''apps'' k = None" for k
    by (simp_all add: empty_mem_def keyed_def mem_tables_def)
  from default_apps_exist [OF mem.cassandra_axioms conf(1) empty(1) conf(4) c', unfolded conf(2,3)] c'
  show ?thesis unfolding empty(2) by (intro exI [of _ c'] conjI) simp_all
qed

text \<open>
  The cache does not serve apps with a data centre prefix: the app found under prefix,
  underscore and name is cached under that name, while the lookup asks for the prefix and the name
  without underscore. So the next lookup goes to the database again, however often it is repeated.
\<close>

theorem GetDCAwareApp_never_cached:
  assumes "check (DCPrefix (env_Conf E) @ appName) c = None" and "check appName c = None"
    and "GetDCAwareApp E appName c = ((app, None), c1)"
    and "app_AppId app = DCPrefix (env_Conf E) @ ''_'' @ appName"
    and "cl_DB c2 = cl_DB c1" and "AppMap c2 = AppMap c1"
  shows "check (app_AppId app) c1 = Some app \<and> GetDCAwareApp E appName c2 = getDCAwareApp E appName c2"
proof -
  have len: "length (app_AppId app) = Suc (length (DCPrefix (env_Conf E) @ appName))" using assms(4) by simp
  have app: "app \<noteq> empty_app" using assms(4) by (auto simp: empty_app_def)
  have "c1 = cache app c"
    using assms(1-3) app by (auto simp: GetDCAwareApp_def getDCAwareApp_def Let_def split: prod.splits option.splits)
  moreover have "app_AppId app \<noteq> DCPrefix (env_Conf E) @ appName" using len by auto
  moreover have "app_AppId app \<noteq> appName" using len by auto
  ultimately show ?thesis
    using assms(1,2,6) by (auto simp: GetDCAwareApp_def check_def cache_def)
qed

definition sample_dc :: "mem cluster" where
  "sample_dc = \<lparr>cl_DB = mem_upsert ''apps'' [(''id'', VText ''_app'')] empty_mem, AppMap = []\<rparr>"

theorem GetDCAwareApp_never_cached_witness:
  "GetDCAwareApp sample_env ''app'' (snd (GetDCAwareApp sample_env ''app'' sample_dc)) =
     getDCAwareApp sample_env ''app'' (snd (GetDCAwareApp sample_env ''app'' sample_dc))"
proof -
  let ?app = "empty_app\<lparr>app_AppId := ''_app''\<rparr>"
  have "unmarshal_configuration [] = (empty_configuration, True)" by code_simp
  then have "GetDCAwareApp sample_env ''app'' sample_dc = ((?app, None), snd (GetDCAwareApp sample_env ''app'' sample_dc))"
    by (simp add: GetDCAwareApp_def getDCAwareApp_def check_def sample_dc_def sample_env_def defaultConfig_def mem_session_def
        apps_by_ids_def mem_upsert_def key_of_def primary_key_def empty_mem_def base_table_def mem_lookup_def Let_def
        app_select_def project_def null_value_def app_of_full_row_def app_of_row_def text_of_def int_of_def bool_of_def
        empty_app_def)
  from GetDCAwareApp_never_cached [OF _ _ this _ refl refl] show ?thesis
    by (simp add: check_def sample_dc_def sample_env_def defaultConfig_def)
qed

end
