(* ===== verification/RetrieverProperties.thy ===== *)
theory RetrieverProperties
  imports Retrievers ClusterDaoProperties ScheduleDaoProperties
begin

text \<open>
  What retrieval promises: a poll always returns, and fires every schedule of its minute exactly once;
  a schedule that was created is fired by the poll of its minute; reconciliation comes to an end.
\<close>

section \<open>Outcomes that a recover turns into a return\<close>

definition tame :: "'a go \<Rightarrow> bool" where
  "tame g \<longleftrightarrow> g \<noteq> Panic exit_text \<and> g \<noteq> Diverge"

definition tame_io :: "('s, 'a) io \<Rightarrow> bool" where
  "tame_io m \<longleftrightarrow> (\<forall>st. tame (fst (m st)))"

lemma tame_Ret [simp]: "tame (Ret x)"
  by (simp add: tame_def)

lemma tame_bind: "tame g \<Longrightarrow> (\<And>x. tame (f x)) \<Longrightarrow> tame (bind_go g f)"
  by (cases g) (auto simp: tame_def)

lemma tame_io_ret [simp]: "tame_io (ret x)"
  by (simp add: tame_io_def ret_def)

lemma tame_io_lift: "tame g \<Longrightarrow> tame_io (lift_go g)"
  by (simp add: tame_io_def lift_go_def)

lemma tame_io_bnd:
  assumes "tame_io m" and "\<And>x. tame_io (f x)"
  shows "tame_io (bnd m f)"
  unfolding tame_io_def
proof
  fix st
  obtain g st' where g: "m st = (g, st')" by fastforce
  have "tame g" using assms(1) g unfolding tame_io_def by (metis fst_conv)
  then show "tame (fst (bnd m f st))"
    using assms(2) g by (cases g) (auto simp: bnd_def tame_io_def tame_def)
qed

lemma recovering_returns: "tame_io m \<Longrightarrow> \<exists>x st'. recovering y m st = (Ret x, st')"
proof -
  assume m: "tame_io m"
  obtain g st' where g: "m st = (g, st')" by fastforce
  have "tame g" using m g unfolding tame_io_def by (metis fst_conv)
  then show ?thesis by (cases g) (auto simp: recovering_def g tame_def)
qed

lemma tame_as [simp]: "tame (as_string v)" "tame (as_int v)" "tame (as_time v)" "tame (as_uuid v)"
  by (simp_all add: as_defs tame_def exit_text_def split: option.splits cql.splits)

lemma tame_CreateSchedule: "tame (CreateScheduleFromCassandraMap reg m s)"
proof -
  have "tame (createCallbackFromMap reg m)"
    by (simp add: createCallbackFromMap_def tame_bind split: option.splits sum.splits)
  moreover have "tame (set_times m x)" "tame (set_ids m x)" for x
    by (auto simp: set_times_def set_ids_def split: option.splits intro!: tame_bind)
  ultimately show ?thesis
    by (auto simp: CreateScheduleFromCassandraMap_def Let_def split: sum.splits option.splits intro!: tame_bind)
qed

section \<open>A poll\<close>

lemma tame_invoke: "tame_io (invoke app s)"
  by (auto simp: tame_io_def invoke_def tame_def exit_text_def split: option.splits)

lemma tame_invoke_rows: "tame_io (invoke_rows E app rows)"
proof (induction rows)
  case (Cons m rows)
  then show ?case
    by (auto intro!: tame_io_bnd tame_io_lift tame_CreateSchedule tame_invoke)
qed simp

lemma tame_poll_pages: "tame (fst (poll_pages E app n p t ps q st))"
proof (induction E app n p t ps q st rule: poll_pages.induct)
  case (1 E app n p t ps q st)
  obtain rows nxt cerr where page: "GetSchedulesForEntity E n p t ps (nd_DB st) = (rows, nxt, cerr)" by (metis prod_cases3)
  obtain g st' where g: "invoke_rows E app rows st = (g, st')" by fastforce
  have "tame g" using tame_invoke_rows [of E app rows] g unfolding tame_io_def by (metis fst_conv)
  moreover note "1.IH" [OF page [symmetric] refl]
  ultimately show ?case
    by (subst poll_pages.simps) (cases g, auto simp: page bnd_def g ret_def tame_def)
qed


text \<open>The schedule a row stands for, whether it can be fired, and what firing puts on the queues.\<close>

definition schedule_of :: "'db env \<Rightarrow> row \<Rightarrow> Schedule" where
  "schedule_of E m =
     (case CreateScheduleFromCassandraMap (env_Registry E) m empty_schedule of Ret (s, _) \<Rightarrow> s | _ \<Rightarrow> empty_schedule)"

definition fireable :: "'db env \<Rightarrow> row \<Rightarrow> bool" where
  "fireable E m \<longleftrightarrow>
     (\<exists>s c. CreateScheduleFromCassandraMap (env_Registry E) m empty_schedule = Ret (s, None) \<and> Callback s = Some c)"

definition fired :: "'db env \<Rightarrow> App \<Rightarrow> row \<Rightarrow> queue \<times> ScheduleWrapper" where
  "fired E app m =
     (case Callback (schedule_of E m) of
        Some (HTTPCallback _) \<Rightarrow> OldHttpTaskQueue | Some (AirbusCallback _) \<Rightarrow> AirbusTaskQueue | _ \<Rightarrow> HttpTaskQueue,
      \<lparr>sw_Schedule = schedule_of E m, sw_App = app, IsReconciliation = False\<rparr>)"

lemma Invoke_appends:
  "Invoke c w sent = sent @ [(case c of HTTPCallback _ \<Rightarrow> OldHttpTaskQueue | AirbusCallback _ \<Rightarrow> AirbusTaskQueue | HttpCallback _ \<Rightarrow> HttpTaskQueue, w)]"
  by (cases c) (simp_all add: Invoke_def HttpCallback_Invoke_def HTTPCallback_Invoke_def AirbusCallback_Invoke_def)

lemma invoke_rows_fires:
  "list_all (fireable E) rows \<Longrightarrow>
     invoke_rows E app rows st = (Ret None, st\<lparr>nd_Queues := nd_Queues st @ map (fired E app) rows\<rparr>)"
proof (induction rows arbitrary: st)
  case (Cons m rows)
  then obtain s c where s: "CreateScheduleFromCassandraMap (env_Registry E) m empty_schedule = Ret (s, None)" "Callback s = Some c"
    by (auto simp: fireable_def)
  then have "fired E app m = (case c of HTTPCallback _ \<Rightarrow> OldHttpTaskQueue | AirbusCallback _ \<Rightarrow> AirbusTaskQueue | HttpCallback _ \<Rightarrow> HttpTaskQueue,
      \<lparr>sw_Schedule = s, sw_App = app, IsReconciliation = False\<rparr>)"
    by (simp add: fired_def schedule_of_def split: Callback.splits)
  with s Cons show ?case by (simp add: bnd_def lift_go_def invoke_def Invoke_appends)
qed (simp add: ret_def)

context cassandra
begin

lemma poll_pages_fires:
  assumes "env_Session E = sess"
    and "\<And>ps. snd (snd (IterPage sess (entity_query n p t) ps (ScheduleDBPageSize (env_Conf E)) (nd_DB st))) = None"
    and "list_all (fireable E) (rest (entity_query n p t) (nd_DB st) ps)"
    and "int (pages_left (entity_query n p t) (nd_DB st) ps) + q \<le> MaxQueryLimit (env_Conf E)"
  shows "poll_pages E app n p t ps q st =
    (Ret None, st\<lparr>nd_Queues := nd_Queues st @ map (fired E app) (rest (entity_query n p t) (nd_DB st) ps)\<rparr>)"
  using assms(2-4)
proof (induction "nat (MaxQueryLimit (env_Conf E) - q)" arbitrary: ps q st rule: less_induct)
  case less
  let ?q = "entity_query n p t"
  obtain rows nxt where page: "IterPage sess ?q ps (ScheduleDBPageSize (env_Conf E)) (nd_DB st) = (rows, nxt, None)"
    using less.prems(1) [of ps] by (metis prod.collapse)
  note rest = page_ok [OF page]
  have rows: "list_all (fireable E) rows" using less.prems(2) rest by simp
  let ?st = "st\<lparr>nd_Queues := nd_Queues st @ map (fired E app) rows\<rparr>"
  have db: "nd_DB ?st = nd_DB st" by (simp add: nd_DB_def)
  have step: "poll_pages E app n p t ps q st =
      (if nxt = [] \<or> q + 1 > MaxQueryLimit (env_Conf E) then (Ret None, ?st) else poll_pages E app n p t nxt (q + 1) ?st)"
    by (subst poll_pages.simps) (simp add: GetSchedulesForEntity_def assms(1) page bnd_def invoke_rows_fires [OF rows] ret_def)
  show ?case
  proof (cases "nxt = []")
    case True
    then show ?thesis using step rest by simp
  next
    case False
    have left: "pages_left ?q (nd_DB st) nxt < pages_left ?q (nd_DB st) ps" by (rule page_progress [OF page False])
    have ih: "poll_pages E app n p t nxt (q + 1) ?st =
        (Ret None, ?st\<lparr>nd_Queues := nd_Queues ?st @ map (fired E app) (rest ?q (nd_DB ?st) nxt)\<rparr>)"
      using left less.prems rest False by (intro less.hyps) (simp_all only: db, auto)
    have "\<not> q + 1 > MaxQueryLimit (env_Conf E)" using left less.prems(3) by linarith
    then show ?thesis using step ih rest False db by simp
  qed
qed

end

context cassandra
begin

lemma poll_fires:
  assumes "env_Session E = sess"
    and "GetApp E appName (nd_Cluster st) = ((app, None), c)"
    and "\<And>ps. snd (snd (IterPage sess (entity_query appName p t) ps (ScheduleDBPageSize (env_Conf E)) (nd_DB st))) = None"
    and "list_all (fireable E) (rest (entity_query appName p t) (nd_DB st) [])"
    and "int (pages_left (entity_query appName p t) (nd_DB st) []) \<le> MaxQueryLimit (env_Conf E)"
  shows "\<exists>rows. answers (entity_query appName p t) (tables (nd_DB st)) rows \<and> list_all (fireable E) rows \<and>
    ScheduleRetriever_GetSchedules E appName p t st =
      (Ret None, st\<lparr>nd_Cluster := c, nd_Queues := nd_Queues st @ map (fired E app) rows\<rparr>)"
proof -
  let ?q = "entity_query appName p t"
  let ?st = "st\<lparr>nd_Cluster := c\<rparr>"
  have db: "nd_DB ?st = nd_DB st" using GetApp_keeps_DB [OF assms(2)] by (simp add: nd_DB_def)
  have "poll_pages E app appName p t [] 0 ?st =
      (Ret None, ?st\<lparr>nd_Queues := nd_Queues ?st @ map (fired E app) (rest ?q (nd_DB ?st) [])\<rparr>)"
    by (rule poll_pages_fires [OF assms(1)]) (simp_all add: db assms(3-5))
  then have "ScheduleRetriever_GetSchedules E appName p t st =
      (Ret None, st\<lparr>nd_Cluster := c, nd_Queues := nd_Queues st @ map (fired E app) (rest ?q (nd_DB st) [])\<rparr>)"
    unfolding ScheduleRetriever_GetSchedules_def
    by (intro recovering_Ret) (simp add: bnd_def on_cluster_def assms(2) db)
  then show ?thesis using rest_start assms(4) by blast
qed

end

text \<open>
  C30. A poll fires exactly what is due: if no page reports an error, the rows can be decoded and there are
  no more pages than the limit allows, the rows of the table with the app, partition and minute
  are handed to the queues of their callbacks, each exactly once, and nothing else is.
\<close>

theorem poll_fires_due_schedules:
  assumes "cassandra sess tables rest pages_left" and "env_Session E = sess"
    and "GetApp E appName (nd_Cluster st) = ((app, None), c)"
    and "\<And>ps. snd (snd (IterPage sess (entity_query appName p t) ps (ScheduleDBPageSize (env_Conf E)) (nd_DB st))) = None"
    and "list_all (fireable E) (rest (entity_query appName p t) (nd_DB st) [])"
    and "int (pages_left (entity_query appName p t) (nd_DB st) []) \<le> MaxQueryLimit (env_Conf E)"
  shows "\<exists>rows. answers (entity_query appName p t) (tables (nd_DB st)) rows \<and>
    ScheduleRetriever_GetSchedules E appName p t st =
      (Ret None, st\<lparr>nd_Cluster := c, nd_Queues := nd_Queues st @ map (fired E app) rows\<rparr>)"
  using cassandra.poll_fires [OF assms(1-3) assms(4-6)] by blast

section \<open>From creation to firing\<close>

definition entity_select_columns :: "string list" where
  "entity_select_columns =
     [''app_id'', ''partition_id'', ''schedule_time_group'', ''schedule_id'', ''callback_type'', ''callback_details'',
      ''payload'', ''schedule_time'', ''parent_schedule_id'']"

lemma entity_query_eq:
  "entity_query a p t = Select ''schedules'' entity_select_columns
     [Eq ''app_id'' (VText a), Eq ''partition_id'' (VInt p), Eq ''schedule_time_group'' (VTime (t div 10 ^ 6))]"
  by (simp add: entity_query_def entity_select_columns_def)

lemma IsZeroUUID_zero [simp]: "IsZeroUUID zero_uuid"
  by (simp add: IsZeroUUID_def zero_uuid_def list_all_length)

context stored_callback
begin

lemma due_from_row:
  assumes "wf h" and "map_of reg (GetType (wrap h)) = Some (wrap z)"
    and "Callback s = Some (wrap h)"
    and "in64 (ScheduleGroup s * 1000)" and "in64 (ScheduleTime s * 1000)"
    and "\<forall>(c, v) \<in> set (schedule_columns s (GetType (wrap h)) (fst (GetDetails (wrap h)))). r c = Some v"
    and "r ''parent_schedule_id'' = None"
  shows "CreateScheduleFromCassandraMap reg (project ''schedules'' entity_select_columns r) empty_schedule = Ret (as_stored s, None)"
proof -
  define m where "m = project ''schedules'' entity_select_columns r"
  have m: "m \<noteq> []" "map_of m ''app_id'' = Some (VText (AppId s))" "map_of m ''partition_id'' = Some (VInt (PartitionId s))"
      "map_of m ''schedule_time_group'' = Some (millis (ScheduleGroup s))"
      "map_of m ''schedule_time'' = Some (millis (ScheduleTime s))"
      "map_of m ''schedule_id'' = Some (VUuid (ScheduleId s))" "map_of m ''payload'' = Some (VText (Payload s))"
      "map_of m ''cron_expression'' = None" "map_of m ''status'' = None" "map_of m ''parent_schedule_id'' = Some (VUuid zero_uuid)"
    using assms(6,7) by (simp_all add: m_def project_def entity_select_columns_def schedule_columns_def null_value_def)
  have cb: "createCallbackFromMap reg m = Ret (Inr (wrap h))"
    using assms(6) by (intro callback_from_row [OF assms(1,2)])
      (simp_all add: m_def project_def entity_select_columns_def schedule_columns_def)
  have ms: "Unix (wrap64 (g * 1000) * 10 ^ 6) = g" if "in64 (g * 1000)" for g
    using that by (simp add: Unix_def second_def)
  show ?thesis
    using assms(3) ms [OF assms(4)] ms [OF assms(5)] m cb unfolding m_def [symmetric]
    by (simp add: CreateScheduleFromCassandraMap_def millis_def as_defs Let_def not_deprecated
        convertCallbackToRaw_def set_times_def set_ids_def as_stored_def)
qed

end

context cassandra
begin

lemma created_row_is_due:
  assumes "env_Session E = sess" and "storable (env_Registry E) s"
    and "in64 (ScheduleGroup s * 1000)" and "in64 (ScheduleTime s * 1000)"
    and "tables db ''schedules'' (key_of ''schedules'' (map_of (schedule_columns s ct cd))) = None"
    and "createOneTimeSchedule E s app db = Ret ((s', None), db')"
    and "answers (entity_query (AppId s) (PartitionId s) (from_Unix (ScheduleGroup s))) (tables db') rows"
    and "GetCallBackType s = Ret ct" and "GetCallbackDetails s = Ret cd"
  shows "\<exists>m \<in> set rows. CreateScheduleFromCassandraMap (env_Registry E) m empty_schedule = Ret (as_stored s, None)"
proof -
  obtain h z where h: "Callback s = Some (HttpCallback h)" "wf_headers (Headers (Details h))"
      "map_of (env_Registry E) (GetType (HttpCallback h)) = Some (HttpCallback z)"
    using assms(2) by (rule storableE)
  have ct: "ct = GetType (HttpCallback h)" "cd = fst (GetDetails (HttpCallback h))"
    using assms(8,9) h(1) by (auto simp: GetCallBackType_def GetCallbackDetails_def)
  let ?cols = "schedule_columns s ct cd"
  let ?k = "key_of ''schedules'' (map_of ?cols)"
  from assms(6) h(1) assms(1) have T: "tables db' = upsert ''schedules'' ?cols (tables db)"
    using exec_ok by (auto simp: createOneTimeSchedule_def GetCallBackType_def GetCallbackDetails_def ct split: prod.splits)
  define r where "r = map_of ?cols"
  have row: "tables db' ''schedules'' ?k = Some r"
    unfolding T r_def by (simp add: upsert_same assms(5))
  have cols: "\<forall>(c, v) \<in> set ?cols. r c = Some v" and noparent: "r ''parent_schedule_id'' = None"
    by (auto simp: r_def schedule_columns_def)
  have conds: "list_all (\<lambda>c. cond_holds c r) [Eq ''app_id'' (VText (AppId s)), Eq ''partition_id'' (VInt (PartitionId s)),
      Eq ''schedule_time_group'' (VTime (from_Unix (ScheduleGroup s) div 10 ^ 6))]"
    using assms(3) by (simp add: r_def schedule_columns_def millis_def from_Unix_def second_def)
  have "project ''schedules'' entity_select_columns r \<in> set rows"
    using answers_complete [OF assms(7) [unfolded entity_query_eq], of ?k r] row conds by (simp add: base_table_def)
  then show ?thesis
    using http_cb.due_from_row [OF h(2,3,1) assms(3,4), of r] cols noparent ct by blast
qed

end

text \<open>The identifier of a schedule is the last part of the primary key of its row.\<close>

definition schedules_keyed :: "table \<Rightarrow> bool" where
  "schedules_keyed T \<longleftrightarrow> (\<forall>k r. T k = Some r \<longrightarrow> length k = 4 \<and> r ''schedule_id'' = Some (k ! 3))"

text \<open>
  C31. A one time schedule that was created is fired by the poll of its partition at its minute: if
  creation reported no error and the poll can read its pages, the schedule goes to the queue of the HTTP
  workers as it was stored.
\<close>

theorem created_schedule_is_fired:
  assumes "cassandra sess tables rest pages_left" and "env_Session E = sess" and "storable (env_Registry E) s"
    and "in64 (ScheduleGroup s * 1000)" and "in64 (ScheduleTime s * 1000)" and "CronExpression s = []"
    and "absent (tables db ''schedules'') (ScheduleId s)"
    and "schedules_keyed (tables db ''schedules'')"
    and "CreateSchedule E s app0 db = Ret ((s', None), nd_DB st)"
    and "GetApp E (AppId s) (nd_Cluster st) = ((app, None), c)"
    and "\<And>ps. snd (snd (IterPage sess (entity_query (AppId s) (PartitionId s) (from_Unix (ScheduleGroup s))) ps
           (ScheduleDBPageSize (env_Conf E)) (nd_DB st))) = None"
    and "list_all (fireable E) (rest (entity_query (AppId s) (PartitionId s) (from_Unix (ScheduleGroup s))) (nd_DB st) [])"
    and "int (pages_left (entity_query (AppId s) (PartitionId s) (from_Unix (ScheduleGroup s))) (nd_DB st) []) \<le> MaxQueryLimit (env_Conf E)"
  shows "\<exists>st'. ScheduleRetriever_GetSchedules E (AppId s) (PartitionId s) (from_Unix (ScheduleGroup s)) st = (Ret None, st') \<and>
    (HttpTaskQueue, \<lparr>sw_Schedule = as_stored s, sw_App = app, IsReconciliation = False\<rparr>) \<in> set (nd_Queues st')"
proof -
  let ?q = "entity_query (AppId s) (PartitionId s) (from_Unix (ScheduleGroup s))"
  obtain h z where h: "Callback s = Some (HttpCallback h)" using assms(3) by (rule storableE)
  let ?ct = "GetType (HttpCallback h)" and ?cd = "fst (GetDetails (HttpCallback h))"
  have none: "tables db ''schedules'' (key_of ''schedules'' (map_of (schedule_columns s ?ct ?cd))) = None"
  proof (rule ccontr)
    assume "tables db ''schedules'' (key_of ''schedules'' (map_of (schedule_columns s ?ct ?cd))) \<noteq> None"
    then obtain r where r: "tables db ''schedules'' (key_of ''schedules'' (map_of (schedule_columns s ?ct ?cd))) = Some r" by blast
    then have "r ''schedule_id'' = Some (key_of ''schedules'' (map_of (schedule_columns s ?ct ?cd)) ! 3)"
      using assms(8) by (simp add: schedules_keyed_def)
    moreover have "key_of ''schedules'' (map_of (schedule_columns s ?ct ?cd)) ! 3 = VUuid (ScheduleId s)"
      by (simp add: key_of_def primary_key_def schedule_columns_def)
    ultimately show False using r assms(7) by (simp add: absent_def)
  qed
  have created: "createOneTimeSchedule E s app0 db = Ret ((s', None), nd_DB st)"
    using assms(6,9) by (simp add: CreateSchedule_def IsRecurring_def)
  obtain rows where rows: "answers ?q (tables (nd_DB st)) rows" and
      poll: "ScheduleRetriever_GetSchedules E (AppId s) (PartitionId s) (from_Unix (ScheduleGroup s)) st =
        (Ret None, st\<lparr>nd_Cluster := c, nd_Queues := nd_Queues st @ map (fired E app) rows\<rparr>)"
    using cassandra.poll_fires [OF assms(1,2,10-13)] by blast
  obtain m where m: "m \<in> set rows" "CreateScheduleFromCassandraMap (env_Registry E) m empty_schedule = Ret (as_stored s, None)"
    using cassandra.created_row_is_due [OF assms(1-5) none created rows] h
    by (auto simp: GetCallBackType_def GetCallbackDetails_def)
  have "fired E app m = (HttpTaskQueue, \<lparr>sw_Schedule = as_stored s, sw_App = app, IsReconciliation = False\<rparr>)"
    using m(2) h by (simp add: fired_def schedule_of_def as_stored_def)
  with m(1) poll show ?thesis by force
qed

section \<open>A node with one due schedule\<close>

definition sample_due :: Schedule where
  "sample_due = sample_schedule\<lparr>ScheduleGroup := 960\<rparr>"

definition sample_due_columns :: "(string \<times> cql) list" where
  "sample_due_columns = schedule_columns sample_due (GetType (HttpCallback sample_http)) (fst (GetDetails (HttpCallback sample_http)))"

definition sample_node :: "mem node" where
  "sample_node =
     \<lparr>nd_Cluster = \<lparr>cl_DB = mem_upsert ''schedules'' sample_due_columns empty_mem, AppMap = [(''app'', sample_app)]\<rparr>,
      nd_Queues = [], CronTaskQueue = []\<rparr>"

abbreviation sample_query :: query where
  "sample_query \<equiv> entity_query (AppId sample_due) (PartitionId sample_due) (from_Unix (ScheduleGroup sample_due))"

lemma sample_due_fields [simp]:
  "AppId sample_due = ''app''" "PartitionId sample_due = 0" "ScheduleGroup sample_due = 960" "ScheduleTime sample_due = 1000"
  "Callback sample_due = Some (HttpCallback sample_http)" "CronExpression sample_due = []" "ScheduleId sample_due = sample_uuid"
  by (simp_all add: sample_due_def sample_schedule_def empty_schedule_def)

lemma sample_storable: "storable (env_Registry sample_env) sample_due"
  by (simp add: storable_def sample_env_def sample_http_def wf_headers_def)

lemma sample_in64: "in64 (ScheduleGroup sample_due * 1000)" "in64 (ScheduleTime sample_due * 1000)"
  by (simp_all add: in64_def)

lemma sample_due_row:
  "CreateScheduleFromCassandraMap (env_Registry sample_env)
     (project ''schedules'' entity_select_columns (map_of sample_due_columns)) empty_schedule = Ret (as_stored sample_due, None)"
proof (rule http_cb.due_from_row [OF _ _ _ sample_in64])
  show "wf_headers (Headers (Details sample_http))" by (simp add: sample_http_def wf_headers_def)
  show "map_of (env_Registry sample_env) (GetType (HttpCallback sample_http)) = Some (HttpCallback zero_http)"
    by (simp add: sample_env_def GetType_def HttpCallback_GetType_def sample_http_def)
qed (simp_all add: sample_due_columns_def schedule_columns_def)

lemma sample_select:
  "mem_rest sample_query (nd_DB sample_node) [] = [project ''schedules'' entity_select_columns (map_of sample_due_columns)]"
  by (simp add: mem_rest_def entity_query_eq nd_DB_def sample_node_def mem_upsert_def empty_mem_def base_table_def mem_lookup_def
      sample_due_columns_def schedule_columns_def millis_def from_Unix_def second_def Let_def wrap64_def)

lemma sample_fireable: "list_all (fireable sample_env) (mem_rest sample_query (nd_DB sample_node) [])"
  unfolding sample_select using sample_due_row by (simp add: fireable_def as_stored_def)

lemma sample_pages:
  "snd (snd (IterPage mem_session q ps n db)) = None"
  "int (length (mem_rest sample_query (nd_DB sample_node) [])) \<le> MaxQueryLimit (env_Conf sample_env)"
  unfolding sample_select by (simp_all add: mem_session_def mem_page_def Let_def sample_env_def defaultConfig_def)

lemma sample_GetApp:
  "GetApp sample_env (AppId sample_due) (nd_Cluster sample_node) = ((sample_app, None), nd_Cluster sample_node)"
  by (simp add: GetApp_def check_def sample_node_def)

theorem poll_fires_due_schedules_witness:
  "\<exists>rows. answers sample_query (mem_tables (nd_DB sample_node)) rows \<and>
    ScheduleRetriever_GetSchedules sample_env (AppId sample_due) (PartitionId sample_due) (from_Unix (ScheduleGroup sample_due)) sample_node =
      (Ret None, sample_node\<lparr>nd_Cluster := nd_Cluster sample_node, nd_Queues := nd_Queues sample_node @ map (fired sample_env sample_app) rows\<rparr>)"
  by (rule poll_fires_due_schedules [OF mem.cassandra_axioms sample_env_session sample_GetApp sample_pages(1) sample_fireable sample_pages(2)])

theorem created_schedule_is_fired_witness:
  "\<exists>st'. ScheduleRetriever_GetSchedules sample_env (AppId sample_due) (PartitionId sample_due) (from_Unix (ScheduleGroup sample_due)) sample_node =
      (Ret None, st') \<and>
    (HttpTaskQueue, \<lparr>sw_Schedule = as_stored sample_due, sw_App = sample_app, IsReconciliation = False\<rparr>) \<in> set (nd_Queues st')"
proof (rule created_schedule_is_fired [OF mem.cassandra_axioms sample_env_session sample_storable sample_in64 _ _ _ _
        sample_GetApp sample_pages(1) sample_fireable sample_pages(2)])
  show "CreateSchedule sample_env sample_due sample_app empty_mem = Ret ((sample_due, None), nd_DB sample_node)"
    by (simp add: CreateSchedule_def IsRecurring_def createOneTimeSchedule_def GetCallBackType_def GetCallbackDetails_def
        sample_env_def mem_session_def nd_DB_def sample_node_def sample_due_columns_def)
  show "absent (mem_tables empty_mem ''schedules'') (ScheduleId sample_due)" "schedules_keyed (mem_tables empty_mem ''schedules'')"
    by (simp_all add: absent_def schedules_keyed_def mem_tables_def empty_mem_def)
qed simp

section \<open>Pollers\<close>

text \<open>
  The factory makes from the name of an entity a poller of the right app and partition, with the
  retriever for recurring schedules for the cron app and the ordinary one else (unless the cron app
  is named by the default key), exactly when the app id has no dot. For an
  app id with a dot, which every other part of the program accepts, it takes a wrong app or panics.
\<close>

theorem CreateEntity_of_entity_id:
  fixes p :: "32 word"
  shows "(\<exists>pl. PollerFactory_CreateEntity c (entity_id app (unat p)) = Ret pl \<and> AppName pl = app \<and> pl_PartitionId pl = uint p \<and>
      scheduleRetrievalImpl pl = Some (if app = CronApp c \<or> CronApp c = default_key then CronRetriever else ScheduleRetriever))
    \<longleftrightarrow> CHR ''.'' \<notin> set app"
proof
  assume "CHR ''.'' \<notin> set app"
  moreover have "CHR ''.'' \<notin> set (Itoa (uint p))" by simp
  ultimately have "split_on CHR ''.'' (entity_id app (unat p)) = [app, Itoa (uint p)]"
    by (simp add: entity_id_def split_on_append_sep split_on_no_sep)
  moreover have "in64 (uint p)"
  proof -
    have small: "0 \<le> x \<Longrightarrow> x < 2 ^ LENGTH(32) \<Longrightarrow> in64 x" for x :: int by (simp add: in64_def)
    show ?thesis by (rule small) (simp, rule unsigned_less)
  qed
  moreover have "GetEntityRetriever c app = Some (if app = CronApp c \<or> CronApp c = default_key then CronRetriever else ScheduleRetriever)"
    by (auto simp: GetEntityRetriever_def Get_def InitRetrievers_def)
  ultimately show "\<exists>pl. PollerFactory_CreateEntity c (entity_id app (unat p)) = Ret pl \<and> AppName pl = app \<and> pl_PartitionId pl = uint p \<and>
      scheduleRetrievalImpl pl = Some (if app = CronApp c \<or> CronApp c = default_key then CronRetriever else ScheduleRetriever)"
    by (simp add: PollerFactory_CreateEntity_def ParseInt_Itoa)
next
  assume "\<exists>pl. PollerFactory_CreateEntity c (entity_id app (unat p)) = Ret pl \<and> AppName pl = app \<and> pl_PartitionId pl = uint p \<and>
      scheduleRetrievalImpl pl = Some (if app = CronApp c \<or> CronApp c = default_key then CronRetriever else ScheduleRetriever)"
  then obtain pl where "PollerFactory_CreateEntity c (entity_id app (unat p)) = Ret pl" "AppName pl = app" by blast
  then have "app \<in> set (split_on CHR ''.'' (entity_id app (unat p)))"
    by (auto simp: PollerFactory_CreateEntity_def split: list.splits prod.splits if_splits)
  then show "CHR ''.'' \<notin> set app" by (rule split_on_sep_free)
qed

end
