(* ===== verification/SupervisorProperties.thy ===== *)
theory SupervisorProperties
  imports Supervisor RetrieverProperties
begin

text \<open>
  Where entities run: activating an app starts its pollers on the nodes that own them, deactivating it stops
  them. The nodes agree on the owner of a key and requests are delivered to the handlers of the other nodes; this is
  the locale \<open>ring\<close>, which a network of nodes satisfies that run the handlers of the model.
\<close>

section \<open>Responses\<close>

definition show_response :: "Response \<Rightarrow> json" where
  "show_response r =
     JObj [(''ServerAddress'', JStr (ServerAddress r)), (''Error'', JStr (rs_Error r)), (''Status'', JNum (Itoa (rs_Status r)))]"

lemma unmarshal_show_response:
  "in64 (rs_Status r) \<Longrightarrow> unmarshal_response (print_json (show_response r)) = (r, False)"
proof -
  assume s: "in64 (rs_Status r)"
  have "wf_json (show_response r)" by (auto simp: show_response_def)
  then have "parse_json (print_json (show_response r)) = Some (show_response r)" by (rule parse_print_json)
  with s show ?thesis
    by (cases r) (simp add: unmarshal_response_def show_response_def read_struct_def resolve_def put_response_def
        read_string_def Let_def del: print_json.simps)
qed

text \<open>
  What comes back from a node: the response as JSON, or the error of the handler; a handler that does not return is a
  request that times out.
\<close>

fun reply :: "(Response \<times> go_error option) go \<times> 'db net \<Rightarrow> (string option \<times> go_error option) \<times> 'db net" where
  "reply (Ret (res, None), n) = ((Some (print_json (show_response res)), None), n)"
| "reply (Ret (res, Some err), n) = ((None, Some err), n)"
| "reply (Panic e, n) = ((None, Some (Err ''timeout'')), n)"
| "reply (Diverge, n) = ((None, Some (Err ''timeout'')), n)"

section \<open>Nodes that agree on the ring\<close>

locale ring =
  fixes R :: "'db ringpop" and E :: "'db env" and owner :: "string \<Rightarrow> string"
  assumes lookup: "Lookup R a eid = Inr (owner eid)"
    and deliver_start: "Forward R (owner eid) [eid] (request_body ''Ids'' [eid]) StartEntities_name n =
      reply (StartEntities R E (owner eid) [eid] n)"
    and deliver_stop: "Forward R (owner eid) [eid] (request_body ''Ids'' [eid]) StopEntities_name n =
      reply (StopEntities R E (owner eid) [eid] n)"
    and deliver_update: "Forward R b [name] (request_body ''Names'' [name]) AppDetailsUpdate n =
      reply (AppDetailsUpdateEventHandler b [name] n)"

text \<open>A request for an entity of the node itself is not forwarded again.\<close>

lemma own_start:
  assumes "Lookup R a eid = Inr a"
  shows "start_entities R E a [eid] = bnd (StartEntity E a eid) (\<lambda>(_, err). if err \<noteq> None then ret err else ret None)"
  using assms by (auto simp: lookup_or_panic_def intro!: arg_cong [where f = "bnd _"] split: if_splits)

lemma own_stop:
  assumes "Lookup R a eid = Inr a"
  shows "stop_entities R E a [eid] =
    bnd (StopEntity E a eid) (\<lambda>(_, err). case err of Some e \<Rightarrow> lift_go (Panic (Error e)) | None \<Rightarrow> ret None)"
  using assms by (simp add: lookup_or_panic_def cong: option.case_cong)

text \<open>A network of nodes that run the handlers; a request is forwarded at most a given number of times.\<close>

primrec network :: "'db env \<Rightarrow> (string \<Rightarrow> string) \<Rightarrow> string list \<Rightarrow> nat \<Rightarrow> 'db ringpop" where
  "network E owner nodes 0 =
     \<lparr>Lookup = (\<lambda>a eid. Inr (owner eid)), GetReachableMembers = (\<lambda>a. Inr nodes),
      Forward = (\<lambda>dest ids body method n. ((None, Some (Err ''timeout'')), n))\<rparr>"
| "network E owner nodes (Suc hops) =
     \<lparr>Lookup = (\<lambda>a eid. Inr (owner eid)), GetReachableMembers = (\<lambda>a. Inr nodes),
      Forward = (\<lambda>dest ids body method n.
        case map_of (RegisterHandler (network E owner nodes hops) E dest) method of
          Some handler \<Rightarrow> reply (handler ids n)
        | None \<Rightarrow> ((None, Some (Err ''no handler'')), n))\<rparr>"

lemma network_Lookup [simp]: "Lookup (network E owner nodes hops) a eid = Inr (owner eid)"
  "GetReachableMembers (network E owner nodes hops) a = Inr nodes"
  by (cases hops; simp)+

interpretation network: ring "network E owner nodes (Suc hops)" E owner for E :: "'db env" and owner nodes hops
proof unfold_locales
  fix eid and n :: "'db net"
  show "Forward (network E owner nodes (Suc hops)) (owner eid) [eid] (request_body ''Ids'' [eid]) StartEntities_name n =
      reply (StartEntities (network E owner nodes (Suc hops)) E (owner eid) [eid] n)"
    by (simp add: RegisterHandler_def StartEntities_def own_start del: start_entities.simps)
  show "Forward (network E owner nodes (Suc hops)) (owner eid) [eid] (request_body ''Ids'' [eid]) StopEntities_name n =
      reply (StopEntities (network E owner nodes (Suc hops)) E (owner eid) [eid] n)"
    by (simp add: RegisterHandler_def StopEntities_def own_stop StartEntities_name_def StopEntities_name_def
        del: stop_entities.simps)
  fix b name
  show "Forward (network E owner nodes (Suc hops)) b [name] (request_body ''Names'' [name]) AppDetailsUpdate n =
      reply (AppDetailsUpdateEventHandler b [name] n)"
    by (simp add: RegisterHandler_def StartEntities_name_def StopEntities_name_def AppDetailsUpdate_def)
qed simp

section \<open>Placement\<close>

text \<open>Entities are only in the map of the node that owns them, and there they tick.\<close>

definition well_placed :: "(string \<Rightarrow> string) \<Rightarrow> 'db net \<Rightarrow> bool" where
  "well_placed owner n \<longleftrightarrow>
     (\<forall>a eid r. map_of (entities_at n a) eid = Some r \<longrightarrow> a = owner eid \<and> ticker (Obj r) = Some True)"

definition present :: "'db net \<Rightarrow> string \<Rightarrow> string \<Rightarrow> bool" where
  "present n a eid \<longleftrightarrow> map_of (entities_at n a) eid \<noteq> None"

text \<open>Every entity in a map ticks.\<close>

definition live :: "'db net \<Rightarrow> bool" where
  "live n \<longleftrightarrow> (\<forall>a eid r. map_of (entities_at n a) eid = Some r \<longrightarrow> ticker (Obj r) = Some True)"

lemma well_placed_iff: "well_placed owner n \<longleftrightarrow> live n \<and> (\<forall>b e. present n b e \<longrightarrow> b = owner e)"
  by (auto simp: well_placed_def live_def present_def)

text \<open>Updates of the status of an entity report no error.\<close>

definition updates_ok :: "'db env \<Rightarrow> bool" where
  "updates_ok E \<longleftrightarrow> (\<forall>eid a status c. fst (UpdateEntityStatus E eid a status c) = Ret None)"

lemma entities_at_node [simp]: "entities_at (snd (at_node a f n)) b = entities_at n b"
  by (simp add: at_node_def put_node_def entities_at_def split: prod.splits)

lemma entities_set [simp]: "entities_at (set_entities a es n) b = (if b = a then es else entities_at n b)"
  by (simp add: set_entities_def entities_at_def)

lemma entities_cong:
  "entities_at n' = entities_at n \<Longrightarrow> well_placed owner n' = well_placed owner n \<and> present n' = present n \<and> live n' = live n"
  by (simp add: well_placed_def present_def live_def fun_eq_iff)

lemma update_status:
  assumes "updates_ok E"
  obtains n' where "at_node a (dao (UpdateEntityStatus E eid b status)) n = (Ret None, n')" "entities_at n' = entities_at n"
proof -
  let ?x = "at_node a (dao (UpdateEntityStatus E eid b status)) n"
  have "fst ?x = Ret None"
    using assms by (auto simp: updates_ok_def at_node_def dao_def split: prod.splits) (metis fst_conv)
  moreover have "entities_at (snd ?x) = entities_at n" by (simp add: fun_eq_iff)
  ultimately show thesis using that by (metis prod.collapse)
qed

text \<open>Starting and stopping an entity on a node.\<close>

lemma StartEntity_live:
  assumes "updates_ok E" and "PollerFactory_CreateEntity (env_Conf E) eid = Ret p" and "live n"
  shows "\<exists>n'. StartEntity E a eid n = (Ret (True, None), n') \<and> live n' \<and> present n' = (\<lambda>b e. present n b e \<or> b = a \<and> e = eid)"
proof -
  obtain r where r: "(case map_of (entities_at n a) eid of None \<Rightarrow>
      (case PollerFactory_CreateEntity (env_Conf E) eid of
                 Ret p \<Rightarrow> (Ret (), set_entities a (put_assoc eid (RecoverableEntity_Start \<lparr>Obj = p, Recovered = 0\<rparr>) (entities_at n a)) n)
               | Panic e \<Rightarrow> (Panic e, n)
               | Diverge \<Rightarrow> (Diverge, n))
      | Some r \<Rightarrow> (Ret (), set_entities a (put_assoc eid (RecoverableEntity_Start r) (entities_at n a)) n)) =
      (Ret (), set_entities a (put_assoc eid (RecoverableEntity_Start r) (entities_at n a)) n)"
    using assms(2) by (cases "map_of (entities_at n a) eid") auto
  let ?n = "set_entities a (put_assoc eid (RecoverableEntity_Start r) (entities_at n a)) n"
  obtain n' where n': "at_node a (dao (UpdateEntityStatus E eid a RUNNING)) ?n = (Ret None, n')" "entities_at n' = entities_at ?n"
    by (rule update_status [OF assms(1)])
  have "StartEntity E a eid n = (Ret (True, None), n')"
    unfolding StartEntity_def bnd_def r using n'(1) by (simp add: ret_def)
  moreover have "live ?n" "present ?n = (\<lambda>b e. present n b e \<or> b = a \<and> e = eid)"
    using assms(3) by (auto simp: live_def present_def RecoverableEntity_Start_def Poller_Init_def fun_eq_iff)
  ultimately show ?thesis using entities_cong [OF n'(2)] by auto
qed

lemma StopEntity_live:
  assumes "updates_ok E" and "live n"
  shows "\<exists>n'. StopEntity E a eid n = (Ret (present n a eid, None), n') \<and> live n' \<and>
    present n' = (\<lambda>b e. present n b e \<and> \<not> (b = a \<and> e = eid))"
proof (cases "map_of (entities_at n a) eid")
  case None
  then have "present n = (\<lambda>b e. present n b e \<and> \<not> (b = a \<and> e = eid))" by (auto simp: fun_eq_iff present_def)
  moreover have "StopEntity E a eid n = (Ret (present n a eid, None), n)" using None by (simp add: StopEntity_def present_def)
  ultimately show ?thesis using assms(2) by blast
next
  case (Some r)
  let ?n = "set_entities a (filter (\<lambda>(k, _). k \<noteq> eid) (entities_at n a)) n"
  obtain n' where n': "at_node a (dao (UpdateEntityStatus E eid a STOPPED)) ?n = (Ret None, n')" "entities_at n' = entities_at ?n"
    by (rule update_status [OF assms(1)])
  have tick: "ticker (Obj r) = Some True" using assms(2) Some by (simp add: live_def)
  then have "StopEntity E a eid n = (Ret (present n a eid, None), n')"
    using n'(1) by (simp add: StopEntity_def Some present_def RecoverableEntity_Stop_def Poller_Stop_def bnd_def lift_go_def ret_def)
  moreover have "live ?n" using assms(2) by (auto simp: live_def map_of_filter_key split: if_splits)
  moreover have "present ?n = (\<lambda>b e. present n b e \<and> \<not> (b = a \<and> e = eid))"
    by (auto simp: present_def map_of_filter_key fun_eq_iff)
  ultimately show ?thesis using entities_cong [OF n'(2)] by auto
qed

text \<open>On the owner.\<close>

lemma StartEntity_places:
  assumes "updates_ok E" and "PollerFactory_CreateEntity (env_Conf E) eid = Ret p" and "well_placed owner n" and "owner eid = a"
  shows "\<exists>n'. StartEntity E a eid n = (Ret (True, None), n') \<and> well_placed owner n' \<and>
    present n' = (\<lambda>b e. present n b e \<or> b = a \<and> e = eid)"
  using StartEntity_live [OF assms(1,2), of n a] assms(3,4) unfolding well_placed_iff by metis

lemma StopEntity_places:
  assumes "updates_ok E" and "well_placed owner n" and "owner eid = a"
  shows "\<exists>n' ex. StopEntity E a eid n = (Ret (ex, None), n') \<and> well_placed owner n' \<and>
    present n' = (\<lambda>b e. present n b e \<and> e \<noteq> eid)"
proof -
  obtain n' where n': "StopEntity E a eid n = (Ret (present n a eid, None), n')" "live n'"
      "present n' = (\<lambda>b e. present n b e \<and> \<not> (b = a \<and> e = eid))"
    using StopEntity_live [OF assms(1)] assms(2) unfolding well_placed_iff by blast
  moreover have "present n' = (\<lambda>b e. present n b e \<and> e \<noteq> eid)"
    using n'(3) assms(2,3) by (auto simp: well_placed_iff fun_eq_iff)
  ultimately show ?thesis using assms(2) unfolding well_placed_iff by metis
qed

section \<open>Requests to the owner\<close>

lemma forwarded:
  assumes "Forward R (destNode r) ids (request_body f ids) (rq_method r) n = reply (Ret (res, None), n')"
    and "rq_entity r = EntityIDs ids \<and> f = ''Ids'' \<or> rq_entity r = AppNames ids \<and> f = ''Names''" and "in64 (rs_Status res)"
  shows "forwardOrPanicIfRequired R a r n = (Ret (), n')"
  using assms unmarshal_show_response [OF assms(3)]
  by (auto simp: forwardOrPanicIfRequired_def forwardEntity_def bnd_def ret_def simp del: print_json.simps)

lemma success_in64 [simp]: "in64 SUCCESS" "in64 FAILED"
  by (simp_all add: SUCCESS_def FAILED_def in64_def)

context ring
begin

text \<open>Both ways to start an entity, on the node itself and by a request to the owner, start it there.\<close>

lemma start_on_owner:
  assumes "updates_ok E" and "PollerFactory_CreateEntity (env_Conf E) eid = Ret p" and "well_placed owner n"
  shows "\<exists>n'. (owner eid = a \<longrightarrow> StartEntity E a eid n = (Ret (True, None), n')) \<and>
    (owner eid \<noteq> a \<longrightarrow> forwardOrPanic R a (empty_entity\<lparr>ei_Id := eid, ei_Node := owner eid\<rparr>) StartEntities_name n = (Ret (), n')) \<and>
    well_placed owner n' \<and> present n' = (\<lambda>b e. present n b e \<or> b = owner e \<and> e = eid)"
proof -
  obtain n' where n': "StartEntity E (owner eid) eid n = (Ret (True, None), n')" "well_placed owner n'"
      "present n' = (\<lambda>b e. present n b e \<or> b = owner eid \<and> e = eid)"
    using StartEntity_places [OF assms refl] by blast
  have "StartEntities R E (owner eid) [eid] n = (Ret (\<lparr>ServerAddress = owner eid, rs_Error = [], rs_Status = SUCCESS\<rparr>, None), n')"
    using n'(1) by (simp add: StartEntities_def responding_def own_start lookup bnd_def ret_def del: start_entities.simps)
  then have "Forward R (owner eid) [eid] (request_body ''Ids'' [eid]) StartEntities_name n =
      reply (Ret (\<lparr>ServerAddress = owner eid, rs_Error = [], rs_Status = SUCCESS\<rparr>, None), n')"
    by (simp only: deliver_start)
  then have "forwardOrPanic R a (empty_entity\<lparr>ei_Id := eid, ei_Node := owner eid\<rparr>) StartEntities_name n = (Ret (), n')"
    unfolding forwardOrPanic_def entity_request_def
    by (intro forwarded [where ids = "[eid]" and f = "''Ids''"
            and res = "\<lparr>ServerAddress = owner eid, rs_Error = [], rs_Status = SUCCESS\<rparr>"]) simp_all
  with n' show ?thesis by (auto simp: fun_eq_iff)
qed

lemma stop_on_owner:
  assumes "updates_ok E" and "well_placed owner n"
  shows "\<exists>n' ex. (owner eid = a \<longrightarrow> StopEntity E a eid n = (Ret (ex, None), n')) \<and>
    (owner eid \<noteq> a \<longrightarrow> forwardOrPanic R a (empty_entity\<lparr>ei_Id := eid, ei_Node := owner eid\<rparr>) StopEntities_name n = (Ret (), n')) \<and>
    well_placed owner n' \<and> present n' = (\<lambda>b e. present n b e \<and> e \<noteq> eid)"
proof -
  obtain n' ex where n': "StopEntity E (owner eid) eid n = (Ret (ex, None), n')" "well_placed owner n'"
      "present n' = (\<lambda>b e. present n b e \<and> e \<noteq> eid)"
    using StopEntity_places [OF assms refl] by blast
  have "StopEntities R E (owner eid) [eid] n = (Ret (\<lparr>ServerAddress = owner eid, rs_Error = [], rs_Status = SUCCESS\<rparr>, None), n')"
    using n'(1) by (simp add: StopEntities_def responding_def own_stop lookup bnd_def ret_def del: stop_entities.simps)
  then have "Forward R (owner eid) [eid] (request_body ''Ids'' [eid]) StopEntities_name n =
      reply (Ret (\<lparr>ServerAddress = owner eid, rs_Error = [], rs_Status = SUCCESS\<rparr>, None), n')"
    by (simp only: deliver_stop)
  then have "forwardOrPanic R a (empty_entity\<lparr>ei_Id := eid, ei_Node := owner eid\<rparr>) StopEntities_name n = (Ret (), n')"
    unfolding forwardOrPanic_def entity_request_def
    by (intro forwarded [where ids = "[eid]" and f = "''Ids''"
            and res = "\<lparr>ServerAddress = owner eid, rs_Error = [], rs_Status = SUCCESS\<rparr>"]) simp_all
  with n' show ?thesis by blast
qed

lemma activate_partitions_places:
  assumes "updates_ok E" and "\<forall>p \<in> set ps. \<exists>pl. PollerFactory_CreateEntity (env_Conf E) (entity_id app p) = Ret pl"
    and "well_placed owner n"
  shows "\<exists>n'. activate_partitions R E a app ps n = (Ret (), n') \<and> well_placed owner n' \<and>
    present n' = (\<lambda>b e. present n b e \<or> b = owner e \<and> (\<exists>p \<in> set ps. e = entity_id app p))"
  using assms(2,3)
proof (induction ps arbitrary: n)
  case Nil
  then show ?case by (simp add: ret_def)
next
  case (Cons p ps)
  let ?eid = "entity_id app p"
  obtain pl where pl: "PollerFactory_CreateEntity (env_Conf E) ?eid = Ret pl" using Cons.prems(1) by auto
  obtain n1 where n1: "owner ?eid = a \<longrightarrow> StartEntity E a ?eid n = (Ret (True, None), n1)"
      "owner ?eid \<noteq> a \<longrightarrow> forwardOrPanic R a (empty_entity\<lparr>ei_Id := ?eid, ei_Node := owner ?eid\<rparr>) StartEntities_name n = (Ret (), n1)"
      "well_placed owner n1" "present n1 = (\<lambda>b e. present n b e \<or> b = owner e \<and> e = ?eid)"
    using start_on_owner [OF assms(1) pl Cons.prems(2)] by blast
  obtain n' where n': "activate_partitions R E a app ps n1 = (Ret (), n')" "well_placed owner n'"
      "present n' = (\<lambda>b e. present n1 b e \<or> b = owner e \<and> (\<exists>p \<in> set ps. e = entity_id app p))"
    using Cons.IH [OF _ n1(3)] Cons.prems(1) by auto
  have "activate_partitions R E a app (p # ps) n = (Ret (), n')"
    using n1(1,2) n'(1) by (cases "owner ?eid = a") (simp_all add: lookup_or_panic_def lookup bnd_def Let_def)
  with n'(2,3) n1(4) show ?case by (auto simp: fun_eq_iff)
qed

lemma deactivate_partitions_places:
  assumes "updates_ok E" and "well_placed owner n"
  shows "\<exists>n'. deactivate_partitions R E a app ps n = (Ret (), n') \<and> well_placed owner n' \<and>
    present n' = (\<lambda>b e. present n b e \<and> (\<forall>p \<in> set ps. e \<noteq> entity_id app p))"
  using assms(2)
proof (induction ps arbitrary: n)
  case Nil
  then show ?case by (simp add: ret_def)
next
  case (Cons p ps)
  let ?eid = "entity_id app p"
  obtain n1 ex where n1: "owner ?eid = a \<longrightarrow> StopEntity E a ?eid n = (Ret (ex, None), n1)"
      "owner ?eid \<noteq> a \<longrightarrow> forwardOrPanic R a (empty_entity\<lparr>ei_Id := ?eid, ei_Node := owner ?eid\<rparr>) StopEntities_name n = (Ret (), n1)"
      "well_placed owner n1" "present n1 = (\<lambda>b e. present n b e \<and> e \<noteq> ?eid)"
    using stop_on_owner [OF assms(1) Cons.prems] by blast
  obtain n' where n': "deactivate_partitions R E a app ps n1 = (Ret (), n')" "well_placed owner n'"
      "present n' = (\<lambda>b e. present n1 b e \<and> (\<forall>p \<in> set ps. e \<noteq> entity_id app p))"
    using Cons.IH [OF n1(3)] by auto
  have "deactivate_partitions R E a app (p # ps) n = (Ret (), n')"
    using n1(1,2) n'(1) by (cases "owner ?eid = a") (simp_all add: lookup_or_panic_def lookup bnd_def Let_def)
  with n'(2,3) n1(4) show ?case by (auto simp: fun_eq_iff)
qed

end

section \<open>Changes of an app\<close>

definition cached :: "'db net \<Rightarrow> string \<Rightarrow> string \<Rightarrow> App option" where
  "cached n a = map_of (mb_AppMap (members n a))"

lemma AppDetailsUpdateHandler_effect:
  "\<exists>n'. AppDetailsUpdateHandler b name n = (Ret (), n') \<and> entities_at n' = entities_at n \<and>
    cached n' = (\<lambda>c x. if c = b \<and> x = name then None else cached n c x)"
proof -
  let ?n = "snd (AppDetailsUpdateHandler b name n)"
  have "AppDetailsUpdateHandler b name n = (Ret (), ?n)"
    by (simp add: AppDetailsUpdateHandler_def at_node_def on_cluster_def split: prod.splits)
  moreover have "entities_at ?n = entities_at n" by (simp add: AppDetailsUpdateHandler_def fun_eq_iff)
  moreover have "cached ?n = (\<lambda>c x. if c = b \<and> x = name then None else cached n c x)"
    by (auto simp: cached_def AppDetailsUpdateHandler_def at_node_def on_cluster_def put_node_def node_at_def Let_def
        InvalidateSingleAppCache_def map_of_filter_key fun_eq_iff)
  ultimately show ?thesis by blast
qed

context ring
begin

lemma broadcast_effect:
  "\<exists>n'. broadcast R a name nodes n = (Ret (), n') \<and> entities_at n' = entities_at n \<and>
    cached n' = (\<lambda>c x. if c \<in> set nodes \<and> x = name then None else cached n c x)"
proof (induction nodes arbitrary: n)
  case Nil
  then show ?case by (simp add: ret_def)
next
  case (Cons b nodes)
  obtain n1 where n1: "AppDetailsUpdateHandler b name n = (Ret (), n1)" "entities_at n1 = entities_at n"
      "cached n1 = (\<lambda>c x. if c = b \<and> x = name then None else cached n c x)"
    using AppDetailsUpdateHandler_effect by blast
  let ?r = "\<lparr>rq_entity = AppNames [name], rq_method = AppDetailsUpdate, destNode = b\<rparr>"
  let ?res = "\<lparr>ServerAddress = b, rs_Error = [], rs_Status = SUCCESS\<rparr>"
  have "AppDetailsUpdateEventHandler b [name] n = (Ret (?res, None), n1)"
    using n1(1) by (simp add: AppDetailsUpdateEventHandler_def responding_def bnd_def ret_def)
  then have "Forward R b [name] (request_body ''Names'' [name]) AppDetailsUpdate n = reply (Ret (?res, None), n1)"
    by (simp only: deliver_update)
  then have "forwardOrPanicIfRequired R a ?r n = (Ret (), n1)"
    by (intro forwarded [where ids = "[name]" and f = "''Names''" and res = ?res]) simp_all
  moreover obtain n' where n': "broadcast R a name nodes n1 = (Ret (), n')" "entities_at n' = entities_at n1"
      "cached n' = (\<lambda>c x. if c \<in> set nodes \<and> x = name then None else cached n1 c x)"
    using Cons.IH by blast
  ultimately have "broadcast R a name (b # nodes) n = (Ret (), n')"
    using n1(1) by (cases "b = a") (simp_all add: bnd_def)
  with n' n1(2,3) show ?case by (auto simp: fun_eq_iff)
qed

lemma appDetailsUpdateBroadcast_effect:
  assumes "GetReachableMembers R a = Inr nodes"
  shows "\<exists>n'. appDetailsUpdateBroadcast R a name n = (Ret (), n') \<and> entities_at n' = entities_at n \<and>
    (\<forall>b \<in> set nodes. cached n' b name = None)"
  using broadcast_effect [of a name nodes n] assms by (auto simp: appDetailsUpdateBroadcast_def)

end

text \<open>The pollers that the factory makes for the partitions of an app without dots in its name.\<close>

lemma CreateEntity_returns:
  assumes "CHR ''.'' \<notin> set app" and "p < 2 ^ 32"
  shows "\<exists>pl. PollerFactory_CreateEntity c (entity_id app p) = Ret pl"
proof -
  have "CHR ''.'' \<notin> set (Itoa (int p))" by simp
  with assms(1) have "split_on CHR ''.'' (entity_id app p) = [app, Itoa (int p)]"
    by (simp add: entity_id_def split_on_append_sep split_on_no_sep)
  moreover have "in64 (int p)" using assms(2) by (simp add: in64_def)
  ultimately show ?thesis by (simp add: PollerFactory_CreateEntity_def ParseInt_Itoa)
qed

text \<open>
  C34. Activating an app on any node starts the poller of each of its partitions on the node that owns it, whether
  that is the node itself or one the request is forwarded to, and nothing else; every entity stays on its owner with
  a live ticker, and every node that can be reached forgets the app it has cached. This is for an app without a dot in its
  name, on nodes that agree on the ring, and as long as the status of entities can be written.
\<close>

theorem ActivateApp_places:
  assumes "ring R E owner" and "updates_ok E" and "CHR ''.'' \<notin> set (app_AppId app)"
    and "GetReachableMembers R a = Inr nodes" and "well_placed owner n"
  shows "\<exists>n'. ActivateApp R E a app n = (Ret (), n') \<and> well_placed owner n' \<and>
    (\<forall>b e. present n' b e \<longleftrightarrow>
       present n b e \<or> b = owner e \<and> (\<exists>p < unat (Partitions app). e = entity_id (app_AppId app) p)) \<and>
    (\<forall>b \<in> set nodes. cached n' b (app_AppId app) = None)"
proof -
  let ?ps = "[0..<unat (Partitions app)]"
  have "\<forall>p \<in> set ?ps. \<exists>pl. PollerFactory_CreateEntity (env_Conf E) (entity_id (app_AppId app) p) = Ret pl"
  proof
    fix p assume "p \<in> set ?ps"
    then have "p < 2 ^ LENGTH(32)" using unsigned_less [of "Partitions app"] by (simp only: set_upt atLeastLessThan_iff) (erule conjE, erule less_trans)
    then show "\<exists>pl. PollerFactory_CreateEntity (env_Conf E) (entity_id (app_AppId app) p) = Ret pl"
      using assms(3) by (intro CreateEntity_returns) simp_all
  qed
  then obtain n1 where n1: "activate_partitions R E a (app_AppId app) ?ps n = (Ret (), n1)" "well_placed owner n1"
      "present n1 = (\<lambda>b e. present n b e \<or> b = owner e \<and> (\<exists>p \<in> set ?ps. e = entity_id (app_AppId app) p))"
    using ring.activate_partitions_places [OF assms(1), OF assms(2) _ assms(5)] by blast
  obtain n' where n': "appDetailsUpdateBroadcast R a (app_AppId app) n1 = (Ret (), n')" "entities_at n' = entities_at n1"
      "\<forall>b \<in> set nodes. cached n' b (app_AppId app) = None"
    using ring.appDetailsUpdateBroadcast_effect [OF assms(1), OF assms(4)] by blast
  have "ActivateApp R E a app n = (Ret (), n')" using n1(1) n'(1) by (simp add: ActivateApp_def bnd_def)
  moreover have "well_placed owner n'" "present n' = present n1" using entities_cong [OF n'(2)] n1(2) by simp_all
  ultimately show ?thesis using n1(3) n'(3) by (auto simp: Bex_def)
qed


text \<open>Two nodes without entities; the partitions with an even number belong to the first.\<close>

definition sample_owner :: "string \<Rightarrow> string" where
  "sample_owner eid = (if eid \<noteq> [] \<and> last eid \<in> set ''02468'' then ''n1'' else ''n2'')"

definition quiet_env :: "mem env" where
  "quiet_env = sample_env\<lparr>env_Session := mem_session\<lparr>ExecText := (\<lambda>t db. (None, db))\<rparr>\<rparr>"

definition sample_ring :: "mem ringpop" where
  "sample_ring = network quiet_env sample_owner [''n1'', ''n2''] 1"

definition sample_net :: "mem net" where
  "sample_net = \<lparr>net_DB = empty_mem, members = (\<lambda>a. \<lparr>entities = [], mb_AppMap = [(''app'', sample_app)], mb_Queues = [], mb_CronTasks = []\<rparr>)\<rparr>"

lemma sample_ring_laws: "ring sample_ring quiet_env sample_owner"
  using network.ring_axioms [of quiet_env sample_owner _ 0] by (simp add: sample_ring_def)

lemma quiet_updates: "updates_ok quiet_env"
  unfolding updates_ok_def
proof (intro allI)
  fix eid a status c
  have size: "EntityHistorySize (env_Conf quiet_env) = 5" by (simp add: quiet_env_def sample_env_def defaultConfig_def)
  obtain h where "cut_history (EntityHistorySize (env_Conf quiet_env)) (next_history (GetEntityInfo quiet_env eid c)) = Ret h"
    unfolding size by (cases "length (next_history (GetEntityInfo quiet_env eid c)) > 5") (auto simp: cut_history_def)
  then show "fst (UpdateEntityStatus quiet_env eid a status c) = Ret None"
    by (simp add: UpdateEntityStatus_def exec_cluster_def exec_spliced_def quiet_env_def mem_session_def)
qed

lemma sample_members: "GetReachableMembers sample_ring ''n1'' = Inr [''n1'', ''n2'']"
  by (simp add: sample_ring_def)

lemma sample_placed: "well_placed sample_owner sample_net" "\<not> present sample_net b e"
  by (simp_all add: well_placed_def present_def entities_at_def sample_net_def)

theorem ActivateApp_places_witness:
  "\<exists>n'. ActivateApp sample_ring quiet_env ''n1'' sample_app sample_net = (Ret (), n') \<and>
    well_placed sample_owner n' \<and> present n' ''n1'' ''app.2'' \<and> present n' ''n2'' ''app.3'' \<and> \<not> present n' ''n1'' ''app.3''"
proof -
  have "CHR ''.'' \<notin> set (app_AppId sample_app)" by (simp add: sample_app_def)
  from ActivateApp_places [OF sample_ring_laws quiet_updates this sample_members sample_placed(1)] obtain n' where
    n': "ActivateApp sample_ring quiet_env ''n1'' sample_app sample_net = (Ret (), n')" "well_placed sample_owner n'"
      "\<And>b e. present n' b e \<longleftrightarrow> b = sample_owner e \<and> (\<exists>p < 5. e = entity_id ''app'' p)"
    using sample_placed(2) by (auto simp: sample_app_def)
  have eid: "''app.2'' = entity_id ''app'' 2" "''app.3'' = entity_id ''app'' 3" by code_simp+
  have own: "sample_owner ''app.2'' = ''n1''" "sample_owner ''app.3'' = ''n2''" by (simp_all add: sample_owner_def)
  have "\<exists>p < 5. ''app.2'' = entity_id ''app'' p" "\<exists>p < 5. ''app.3'' = entity_id ''app'' p"
    by (rule exI [of _ 2], simp only: eid, simp) (rule exI [of _ 3], simp only: eid, simp)
  then have "present n' ''n1'' ''app.2''" "present n' ''n2'' ''app.3''" "\<not> present n' ''n1'' ''app.3''"
    unfolding n'(3) own by simp_all
  with n'(1,2) show ?thesis by blast
qed


section \<open>Failed requests\<close>

text \<open>
  C36. A node whose handler panicked answers with the status \<open>FAILED\<close> and the text of the panic, but the node that
  forwarded the request takes every answer that it can decode for a success: it goes on as if the entity had been started or
  stopped.
\<close>

theorem failed_response_is_success:
  assumes "stop_entities R E b [eid] n = (Panic msg, n')" and "msg \<noteq> exit_text"
    and "Forward R b [eid] (request_body ''Ids'' [eid]) StopEntities_name n = reply (StopEntities R E b [eid] n)"
  shows "StopEntities R E b [eid] n = (Ret (\<lparr>ServerAddress = b, rs_Error = msg, rs_Status = FAILED\<rparr>, None), n') \<and>
    forwardOrPanic R a (empty_entity\<lparr>ei_Id := eid, ei_Node := b\<rparr>) StopEntities_name n = (Ret (), n')"
proof
  show s: "StopEntities R E b [eid] n = (Ret (\<lparr>ServerAddress = b, rs_Error = msg, rs_Status = FAILED\<rparr>, None), n')"
    using assms(1,2) by (simp add: StopEntities_def responding_def del: stop_entities.simps)
  show "forwardOrPanic R a (empty_entity\<lparr>ei_Id := eid, ei_Node := b\<rparr>) StopEntities_name n = (Ret (), n')"
    unfolding forwardOrPanic_def entity_request_def
    by (intro forwarded [where ids = "[eid]" and f = "''Ids''"
            and res = "\<lparr>ServerAddress = b, rs_Error = msg, rs_Status = FAILED\<rparr>"]) (simp_all add: assms(3) s)
qed

text \<open>A poller that was entered into the map but whose ticker does not exist yet cannot be stopped.\<close>

definition sample_unstarted :: "mem net" where
  "sample_unstarted = set_entities ''n2''
     [(''app.1'', \<lparr>Obj = \<lparr>AppName = ''app'', pl_PartitionId = 1, scheduleRetrievalImpl = Some ScheduleRetriever, ticker = None\<rparr>, Recovered = 0\<rparr>)]
     sample_net"

theorem failed_response_is_success_witness:
  "\<exists>n'. StopEntities sample_ring quiet_env ''n2'' [''app.1''] sample_unstarted =
      (Ret (\<lparr>ServerAddress = ''n2'', rs_Error = ''nil pointer dereference'', rs_Status = FAILED\<rparr>, None), n') \<and>
    forwardOrPanic sample_ring ''n1'' (empty_entity\<lparr>ei_Id := ''app.1'', ei_Node := ''n2''\<rparr>) StopEntities_name sample_unstarted = (Ret (), n')"
proof -
  have stop: "stop_entities sample_ring quiet_env ''n2'' [''app.1''] sample_unstarted = (Panic ''nil pointer dereference'', sample_unstarted)"
    by (simp add: sample_unstarted_def StopEntity_def RecoverableEntity_Stop_def Poller_Stop_def bnd_def lift_go_def)
  have "sample_owner ''app.1'' = ''n2''" by (simp add: sample_owner_def)
  with ring.deliver_stop [OF sample_ring_laws, of "''app.1''" sample_unstarted]
  have "Forward sample_ring ''n2'' [''app.1''] (request_body ''Ids'' [''app.1'']) StopEntities_name sample_unstarted =
      reply (StopEntities sample_ring quiet_env ''n2'' [''app.1''] sample_unstarted)"
    by simp
  with failed_response_is_success [OF stop, of "''n1''"] show ?thesis by (auto simp: exit_text_def)
qed

end
