(* ===== verification/CronConnector.thy ===== *)
theory CronConnector
  imports ScheduleDaoProperties ClusterDaoProperties
begin

text \<open>
  The worker that plans the runs of recurring schedules (src/connectors/cron.go), and the worker for
  bulk actions (src/connectors/bulkAction.go). For every minute of a window that the cron expression
  matches and that has no run yet, a one time schedule is created. The properties say that the minutes
  get their runs, and one each, however often overlapping windows are processed.
\<close>

section \<open>The worker\<close>

text \<open>The cluster DAO with the database, and the number of UUIDs generated so far.\<close>

record 'db creator =
  cr_Cluster :: "'db cluster"
  cr_Fresh :: nat

definition cr_DB :: "'db creator \<Rightarrow> 'db" where
  "cr_DB st = cl_DB (cr_Cluster st)"

text \<open>The body of the inner loop: the clone gets an identifier twice.\<close>

definition create_run :: "'db env \<Rightarrow> App \<Rightarrow> Schedule \<Rightarrow> time \<Rightarrow> ('db creator, unit) io" where
  "create_run E app parent at st =
     (let n = cr_Fresh st in
      bnd (lift_go (SetFields (env_String E) (env_Fresh E (n + 1)) app (CloneAsOneTime (env_Fresh E n) at parent))) (\<lambda>clone.
      bnd (lift_go (ValidateSchedule (env_Now E) app (AppLevelConfiguration (env_Conf E)) clone)) (\<lambda>errs st.
        if length errs \<noteq> 0 then (Ret (), st)
        else
          (case CreateRun E clone app (cr_DB st) of
             Ret (_, db') \<Rightarrow> (Ret (), st\<lparr>cr_Cluster := (cr_Cluster st)\<lparr>cl_DB := db'\<rparr>\<rparr>)
           | Panic e \<Rightarrow> (Panic e, st)
           | Diverge \<Rightarrow> (Diverge, st)))) (st\<lparr>cr_Fresh := n + 2\<rparr>))"

text \<open>The loop over the window, from its end backwards by minutes.\<close>

function create_window ::
    "'db env \<Rightarrow> App \<Rightarrow> Schedule \<Rightarrow> Expression \<Rightarrow> time list \<Rightarrow> time \<Rightarrow> time \<Rightarrow> ('db creator, unit) io" where
  "create_window E app parent cron existing start at =
     (if at > start then
        bnd (if at \<notin> set existing \<and> Match cron (env_Civil E at) then create_run E app parent at else ret ()) (\<lambda>_.
          create_window E app parent cron existing start (at - minute_ns))
      else ret ())"
  by pat_completeness auto
termination
  by (relation "measure (\<lambda>(E, app, parent, cron, existing, start, at). nat (at - start))")
     (auto simp: minute_ns_def second_def)

declare create_window.simps [simp del]

definition createSchedule :: "'db env \<Rightarrow> CreateScheduleTask \<Rightarrow> ('db creator, unit) io" where
  "createSchedule E task =
     (let parent = task_Cron task in
      if \<not> IsRecurring parent then ret ()
      else
        bnd (lift_go (Parse (CronExpression parent))) (\<lambda>(cron, errs).
          if length errs \<noteq> 0 then ret ()
          else
            bnd (\<lambda>st. case GetApp E (AppId parent) (cr_Cluster st) of (r, c) \<Rightarrow> (Ret r, st\<lparr>cr_Cluster := c\<rparr>)) (\<lambda>(app, err).
              if err \<noteq> None \<or> \<not> Active app then ret ()
              else
                bnd (\<lambda>st. (GetScheduleRuns E (ScheduleId parent) (task_Duration task sdiv minute_ns) ''future'' [] (cr_DB st), st))
                  (\<lambda>(runs, _, err).
                     if err = None \<or> err = Some ErrNotFound
                     then create_window E app parent cron (map (\<lambda>run. from_Unix (ScheduleGroup run)) runs)
                            (task_From task) (task_From task + task_Duration task)
                     else ret ()))))"

fun createSchedules :: "'db env \<Rightarrow> CreateScheduleTask list \<Rightarrow> ('db creator, unit) io" where
  "createSchedules E [] = ret ()"
| "createSchedules E (task # tasks) = bnd (createSchedule E task) (\<lambda>_. createSchedules E tasks)"

text \<open>\<^verbatim>\<open>bulkAction\<close>: the tasks one after the other; errors are dropped.\<close>

fun bulkAction :: "'db env \<Rightarrow> BulkActionTask list \<Rightarrow> ('db bulk_state, unit) io" where
  "bulkAction E [] = ret ()"
| "bulkAction E (q # buf) =
     bnd (BulkAction E (bt_App q) (bt_PartitionId q) (ScheduleTimeGroup q) [bt_Status q] (ActionType q)) (\<lambda>_. bulkAction E buf)"

section \<open>Runs in the tables\<close>

text \<open>Rows are stored under their own primary key.\<close>

definition rows_keyed :: "string \<Rightarrow> table \<Rightarrow> bool" where
  "rows_keyed t T \<longleftrightarrow> (\<forall>k r. T k = Some r \<longrightarrow> map r (primary_key t) = map Some k)"

definition new_for :: "uuid \<Rightarrow> tables \<Rightarrow> bool" where
  "new_for v T \<longleftrightarrow> rows_keyed ''schedules'' (T ''schedules'') \<and> absent (T ''schedules'') v"

text \<open>A schedule that the pollers fire for the recurring schedule \<open>u\<close> at minute \<open>g\<close>, and the minutes with a listed run.\<close>

definition fires :: "tables \<Rightarrow> uuid \<Rightarrow> int64 \<Rightarrow> cql list \<Rightarrow> bool" where
  "fires T u g k \<longleftrightarrow>
     (\<exists>r. T ''schedules'' k = Some r \<and> r ''parent_schedule_id'' = Some (VUuid u) \<and> r ''schedule_time_group'' = Some (millis g))"

definition listed :: "tables \<Rightarrow> uuid \<Rightarrow> int64 \<Rightarrow> bool" where
  "listed T u g \<longleftrightarrow> T runs_table [VUuid u, millis g] \<noteq> None"

text \<open>A listed minute is fired once, a minute that is not listed is not fired.\<close>

definition one_run_each :: "tables \<Rightarrow> uuid \<Rightarrow> int64 \<Rightarrow> bool" where
  "one_run_each T u g \<longleftrightarrow> (if listed T u g then \<exists>!k. fires T u g k else \<nexists>k. fires T u g k)"

definition run_columns :: "Schedule \<Rightarrow> string \<Rightarrow> string \<Rightarrow> (string \<times> cql) list" where
  "run_columns s ct cd = schedule_columns s ct cd @ [(''parent_schedule_id'', VUuid (ParentScheduleId s))]"

definition with_run :: "Schedule \<Rightarrow> string \<Rightarrow> string \<Rightarrow> tables \<Rightarrow> tables" where
  "with_run s ct cd T = upsert runs_table (run_columns s ct cd) (upsert ''schedules'' (run_columns s ct cd) T)"

lemma run_keys:
  "key_of ''schedules'' (map_of (run_columns s ct cd)) =
     [VText (AppId s), VInt (PartitionId s), millis (ScheduleGroup s), VUuid (ScheduleId s)]"
  "key_of runs_table (map_of (run_columns s ct cd)) = [VUuid (ParentScheduleId s), millis (ScheduleGroup s)]"
  by (simp_all add: key_of_def primary_key_def runs_table_def run_columns_def schedule_columns_def)

lemma with_run_schedules:
  assumes "new_for (ScheduleId s) T"
  shows "with_run s ct cd T ''schedules'' = (T ''schedules'')
    ([VText (AppId s), VInt (PartitionId s), millis (ScheduleGroup s), VUuid (ScheduleId s)] \<mapsto> map_of (run_columns s ct cd))"
proof -
  let ?k = "[VText (AppId s), VInt (PartitionId s), millis (ScheduleGroup s), VUuid (ScheduleId s)]"
  have "T ''schedules'' ?k = None"
  proof (rule ccontr)
    assume "T ''schedules'' ?k \<noteq> None"
    then obtain r where "T ''schedules'' ?k = Some r" by blast
    with assms show False by (auto simp: new_for_def rows_keyed_def absent_def primary_key_def)
  qed
  then show ?thesis by (simp add: with_run_def upsert_def Let_def run_keys runs_table_def)
qed

lemma with_run_runs:
  "with_run s ct cd T runs_table = (T runs_table)([VUuid (ParentScheduleId s), millis (ScheduleGroup s)] \<mapsto>
     (case T runs_table [VUuid (ParentScheduleId s), millis (ScheduleGroup s)] of Some r \<Rightarrow> r | None \<Rightarrow> (\<lambda>_. None))
       ++ map_of (run_columns s ct cd))"
  by (simp add: with_run_def upsert_def Let_def run_keys) (simp add: runs_table_def)

lemma primary_key_runs: "primary_key runs_table = [''parent_schedule_id'', ''schedule_time_group'']"
  by (simp add: primary_key_def runs_table_def)

lemma with_run_keyed:
  assumes "new_for (ScheduleId s) T"
  shows "rows_keyed ''schedules'' (with_run s ct cd T ''schedules'')"
  using assms
  by (auto simp: new_for_def rows_keyed_def with_run_schedules [OF assms] primary_key_def run_columns_def schedule_columns_def)

lemma with_run_runs_keyed:
  "rows_keyed runs_table (T runs_table) \<Longrightarrow> rows_keyed runs_table (with_run s ct cd T runs_table)"
  unfolding rows_keyed_def with_run_runs primary_key_runs
  by (auto simp: run_columns_def schedule_columns_def)

lemma with_run_new_for:
  assumes "new_for (ScheduleId s) T"
    and "new_for v T" and "v \<noteq> ScheduleId s"
  shows "new_for v (with_run s ct cd T)"
  using assms(2,3) with_run_keyed [OF assms(1)]
  by (auto simp: new_for_def absent_def with_run_schedules [OF assms(1)] run_columns_def schedule_columns_def)

lemma with_run_listed:
  "listed (with_run s ct cd T) u g \<longleftrightarrow> listed T u g \<or> u = ParentScheduleId s \<and> millis g = millis (ScheduleGroup s)"
  by (auto simp: listed_def with_run_runs)

lemma with_run_fires:
  assumes "new_for (ScheduleId s) T"
  shows "fires (with_run s ct cd T) u g k \<longleftrightarrow>
    (if k = [VText (AppId s), VInt (PartitionId s), millis (ScheduleGroup s), VUuid (ScheduleId s)]
     then u = ParentScheduleId s \<and> millis g = millis (ScheduleGroup s) else fires T u g k)"
  by (auto simp: fires_def with_run_schedules [OF assms] run_columns_def schedule_columns_def)

text \<open>A run for a minute that has none keeps the invariant.\<close>

lemma with_run_one_run_each:
  assumes "new_for (ScheduleId s) T"
    and "one_run_each T u g" and "\<not> listed T (ParentScheduleId s) (ScheduleGroup s)"
  shows "one_run_each (with_run s ct cd T) u g"
proof -
  let ?k = "[VText (AppId s), VInt (PartitionId s), millis (ScheduleGroup s), VUuid (ScheduleId s)]"
  have k: "\<not> fires T u g ?k"
    using assms(1,2) by (auto simp: fires_def new_for_def rows_keyed_def absent_def primary_key_def)
  show ?thesis
  proof (cases "u = ParentScheduleId s \<and> millis g = millis (ScheduleGroup s)")
    case True
    then have "\<not> listed T u g" using assms(3) by (simp add: listed_def)
    with assms(2) have "\<nexists>k. fires T u g k" by (simp add: one_run_each_def)
    with True show ?thesis
      unfolding one_run_each_def with_run_listed with_run_fires [OF assms(1)] by simp
  next
    case False
    then have "fires (with_run s ct cd T) u g k' = fires T u g k'" for k'
      using k by (auto simp: with_run_fires [OF assms(1)])
    moreover have "listed (with_run s ct cd T) u g = listed T u g"
      using False by (auto simp: with_run_listed)
    ultimately show ?thesis using assms(2) by (simp only: one_run_each_def)
  qed
qed

section \<open>One minute of the window\<close>

text \<open>A session on which no batch fails, and generated UUIDs whose text is long enough to choose a partition.\<close>

definition works :: "'db env \<Rightarrow> bool" where
  "works E \<longleftrightarrow> (\<forall>sts db. fst (ExecuteBatch (env_Session E) sts db) = None) \<and> (\<forall>n. 8 \<le> length (env_String E (env_Fresh E n)))"

text \<open>The recurring schedule as a one time schedule: what validation looks at.\<close>

definition one_time_at :: "Schedule \<Rightarrow> time \<Rightarrow> Schedule" where
  "one_time_at parent at = parent\<lparr>CronExpression := [], ScheduleTime := Unix at\<rparr>"

definition acceptable :: "'db env \<Rightarrow> App \<Rightarrow> Schedule \<Rightarrow> time \<Rightarrow> bool" where
  "acceptable E app parent at \<longleftrightarrow>
     ValidateSchedule (env_Now E) app (AppLevelConfiguration (env_Conf E)) (one_time_at parent at) = Ret []"

lemma clone_fields:
  "ScheduleTime (CloneAsOneTime v at parent) = Unix at" "ParentScheduleId (CloneAsOneTime v at parent) = ScheduleId parent"
  "Callback (CloneAsOneTime v at parent) = Callback parent" "AppId (CloneAsOneTime v at parent) = AppId parent"
  "Payload (CloneAsOneTime v at parent) = Payload parent" "CronExpression (CloneAsOneTime v at parent) = []"
  by (simp_all add: CloneAsOneTime_def empty_schedule_def set_deprecated_def split: option.splits Callback.splits)

lemma sdiv_exact: "0 < b \<Longrightarrow> (b * a) sdiv b = (a::int)"
  by (simp add: signed_divide_int_def sgn_mult abs_mult sgn_mult_abs)

lemma SetFields_returns:
  assumes "8 \<le> length (str v)" and "Partitions app \<noteq> 0"
  shows "\<exists>p. SetFields str v app s = Ret (s\<lparr>ScheduleId := v, PartitionId := p,
    ScheduleGroup := wrap64 (60 * (ScheduleTime s sdiv 60))\<rparr>)"
  using assms by (auto simp: SetFields_def uuidToPartition_def BigEndian_Uint64_def)

lemma ValidateSchedule_one_time_at:
  assumes "Callback parent = Some cb" and "CronExpression s = []" and "AppId s = AppId parent" and "Payload s = Payload parent"
    and "Callback s = Some cb" and "ScheduleTime s = Unix at"
  shows "ValidateSchedule now app conf s = ValidateSchedule now app conf (one_time_at parent at)"
    and "\<exists>errs. ValidateSchedule now app conf s = Ret errs"
  using assms by (simp_all add: ValidateSchedule_def one_time_at_def validateCallback_def Let_def)

context cassandra
begin

lemma create_run_effect:
  assumes E: "env_Session E = sess" "works E" and "Partitions app \<noteq> 0" and cb: "Callback parent = Some cb"
    and at: "at = from_Unix (60 * m)" "in64 (60 * m)"
  shows "\<exists>s ct cd st'. create_run E app parent at st = (Ret (), st') \<and> cr_Fresh st' = cr_Fresh st + 2 \<and>
    ScheduleId s = env_Fresh E (cr_Fresh st + 1) \<and> ParentScheduleId s = ScheduleId parent \<and> ScheduleGroup s = 60 * m \<and>
    tables (cr_DB st') = (if acceptable E app parent at then with_run s ct cd (tables (cr_DB st)) else tables (cr_DB st))"
proof -
  let ?n = "cr_Fresh st"
  let ?c = "CloneAsOneTime (env_Fresh E ?n) at parent"
  have "8 \<le> length (env_String E (env_Fresh E (?n + 1)))" using E(2) by (simp add: works_def)
  from SetFields_returns [of "env_String E", OF this assms(3), of ?c]
  obtain s where s: "SetFields (env_String E) (env_Fresh E (?n + 1)) app ?c = Ret s"
      "ScheduleId s = env_Fresh E (?n + 1)" "ParentScheduleId s = ScheduleId parent" "Callback s = Some cb"
      "CronExpression s = []" "AppId s = AppId parent" "Payload s = Payload parent" "ScheduleTime s = Unix at"
      "ScheduleGroup s = wrap64 (60 * (Unix at sdiv 60))"
    using cb by (auto simp: clone_fields)
  have g: "ScheduleGroup s = 60 * m" using s(9) at by (simp add: sdiv_exact)
  let ?conf = "AppLevelConfiguration (env_Conf E)"
  note v = ValidateSchedule_one_time_at [OF cb s(5,6,7,4,8), of "env_Now E" app ?conf]
  then obtain errs where errs: "ValidateSchedule (env_Now E) app ?conf s = Ret errs" by blast
  show ?thesis
  proof (cases "acceptable E app parent at")
    case False
    then have "errs \<noteq> []" using v(1) errs by (auto simp: acceptable_def)
    then have "create_run E app parent at st = (Ret (), st\<lparr>cr_Fresh := ?n + 2\<rparr>)"
      by (simp add: create_run_def Let_def s(1) [simplified] errs)
    with False s(2,3) g show ?thesis by (auto simp: cr_DB_def)
  next
    case True
    then have valid: "errs = []" using v(1) errs by (auto simp: acceptable_def)
    obtain ct cd where t: "GetCallBackType s = Ret ct" "GetCallbackDetails s = Ret cd"
      using s(4) by (auto simp: GetCallBackType_def GetCallbackDetails_def)
    let ?sts = "map (\<lambda>t. Insert t (run_columns s ct cd) (Some (schedule_ttl E app s))) [''schedules'', ''recurring_schedule_runs'']"
    obtain db' where db': "ExecuteBatch sess ?sts (cr_DB st) = (None, db')"
      using E by (metis works_def prod.collapse)
    let ?st' = "st\<lparr>cr_Fresh := ?n + 2, cr_Cluster := (cr_Cluster st)\<lparr>cl_DB := db'\<rparr>\<rparr>"
    have "create_run E app parent at st = (Ret (), ?st')"
      using E(1) db' by (simp add: create_run_def Let_def s(1) [simplified] errs valid CreateRun_def t run_columns_def cr_DB_def)
    moreover have "tables (cr_DB ?st') = with_run s ct cd (tables (cr_DB st))"
      using batch_ok [OF db'] by (simp add: cr_DB_def apply_batch_def with_run_def runs_table_def)
    ultimately show ?thesis
      using True s(2,3) g by (intro exI [of _ s] exI [of _ ct] exI [of _ cd] exI [of _ ?st']) simp
  qed
qed

end

section \<open>The whole window\<close>

text \<open>
  What holds of the tables between two tasks for the recurring schedule \<open>u\<close>: rows are stored under
  their keys, and every minute after \<open>start\<close> has one run or none.
\<close>

definition planned :: "tables \<Rightarrow> uuid \<Rightarrow> int64 \<Rightarrow> bool" where
  "planned T u start \<longleftrightarrow>
     rows_keyed ''schedules'' (T ''schedules'') \<and> rows_keyed runs_table (T runs_table) \<and>
     (\<forall>g. in64 (g * 1000) \<longrightarrow> start < g \<longrightarrow> one_run_each T u g)"

text \<open>The UUIDs generated next are in no row and differ from each other.\<close>

definition uuids_left :: "'db env \<Rightarrow> tables \<Rightarrow> nat \<Rightarrow> nat \<Rightarrow> bool" where
  "uuids_left E T n N \<longleftrightarrow>
     inj_on (env_Fresh E) {n..<n + N} \<and> (\<forall>i \<in> {n..<n + N}. absent (T ''schedules'') (env_Fresh E i))"

text \<open>The minutes that got a run between two states, and those that had to get one.\<close>

definition extends :: "tables \<Rightarrow> tables \<Rightarrow> uuid \<Rightarrow> (int64 \<Rightarrow> bool) \<Rightarrow> bool" where
  "extends T T' u P \<longleftrightarrow>
     (\<forall>g k. fires T u g k \<longrightarrow> fires T' u g k) \<and>
     (\<forall>g. in64 (g * 1000) \<longrightarrow> (listed T' u g \<longleftrightarrow> listed T u g \<or> P g))"

lemma extends_trans:
  "extends T T1 u P \<Longrightarrow> extends T1 T2 u Q \<Longrightarrow> extends T T2 u (\<lambda>g. P g \<or> Q g)"
  by (auto simp: extends_def)

lemma extends_refl: "(\<And>g. in64 (g * 1000) \<Longrightarrow> \<not> P g) \<Longrightarrow> extends T T u P"
  by (auto simp: extends_def)

lemma extends_with_run:
  assumes "new_for (ScheduleId s) T" and "in64 (ScheduleGroup s * 1000)" and "u = ParentScheduleId s"
  shows "extends T (with_run s ct cd T) u (\<lambda>g. g = ScheduleGroup s)"
proof -
  have "\<not> fires T u g [VText (AppId s), VInt (PartitionId s), millis (ScheduleGroup s), VUuid (ScheduleId s)]" for g
    using assms(1) by (auto simp: fires_def new_for_def rows_keyed_def absent_def primary_key_def)
  then show ?thesis
    using assms(2,3) by (auto simp: extends_def with_run_fires [OF assms(1)] with_run_listed millis_eq)
qed

lemma uuids_left_step:
  assumes "uuids_left E T n N" and "2 \<le> N" and "new_for (ScheduleId s) T" and "ScheduleId s = env_Fresh E (n + 1)"
  shows "uuids_left E (with_run s ct cd T) (n + 2) (N - 2)" "uuids_left E T (n + 2) (N - 2)"
proof -
  have sub: "{n + 2..<n + 2 + (N - 2)} \<subseteq> {n..<n + N}" using assms(2) by auto
  with assms(1) show rest: "uuids_left E T (n + 2) (N - 2)"
    by (auto simp: uuids_left_def inj_on_def)
  have "env_Fresh E i \<noteq> ScheduleId s" if "i \<in> {n + 2..<n + 2 + (N - 2)}" for i
    using assms(1,2,4) sub that by (auto simp: uuids_left_def dest: inj_onD)
  moreover have "rows_keyed ''schedules'' (T ''schedules'')" using assms(3) by (simp add: new_for_def)
  ultimately show "uuids_left E (with_run s ct cd T) (n + 2) (N - 2)"
    using rest with_run_new_for [OF assms(3)] unfolding uuids_left_def new_for_def by blast
qed

lemma planned_with_run:
  assumes "planned T (ParentScheduleId s) start" and "new_for (ScheduleId s) T" and "\<not> listed T (ParentScheduleId s) (ScheduleGroup s)"
  shows "planned (with_run s ct cd T) (ParentScheduleId s) start"
  using assms with_run_keyed [OF assms(2)] with_run_runs_keyed with_run_one_run_each [OF assms(2)]
  by (auto simp: planned_def)

text \<open>The minute \<open>j\<close> of a window.\<close>

definition minute_of :: "int \<Rightarrow> nat \<Rightarrow> int64" where
  "minute_of m j = 60 * (m + int j)"

definition wanted :: "'db env \<Rightarrow> App \<Rightarrow> Schedule \<Rightarrow> Expression \<Rightarrow> int64 \<Rightarrow> bool" where
  "wanted E app parent cron g \<longleftrightarrow> Match cron (env_Civil E (from_Unix g)) \<and> acceptable E app parent (from_Unix g)"

lemma minute_of_inj: "minute_of m i = minute_of m j \<longleftrightarrow> i = j"
  by (simp add: minute_of_def)

lemma minute_of_in64:
  assumes "in64 (minute_of m 0 * 1000)" and "in64 (minute_of m i * 1000)" and "j \<le> i"
  shows "in64 (minute_of m j * 1000)" "in64 (minute_of m j)"
proof -
  have "minute_of m 0 \<le> minute_of m j" "minute_of m j \<le> minute_of m i" using assms(3) by (simp_all add: minute_of_def)
  with assms(1,2) show "in64 (minute_of m j * 1000)" "in64 (minute_of m j)" by (simp_all add: in64_def)
qed

context cassandra
begin

lemma minute_planned:
  assumes E: "env_Session E = sess" "works E" and app: "Partitions app \<noteq> 0" "Callback parent = Some cb"
    and g: "g = minute_of m j" "in64 (g * 1000)" "in64 g"
    and T: "planned (tables (cr_DB st)) (ScheduleId parent) start" "uuids_left E (tables (cr_DB st)) (cr_Fresh st) (2 + N)"
    and ex: "listed (tables (cr_DB st)) (ScheduleId parent) g \<longleftrightarrow> from_Unix g \<in> set existing"
  shows "\<exists>st'. (if from_Unix g \<notin> set existing \<and> Match cron (env_Civil E (from_Unix g))
                then create_run E app parent (from_Unix g) else ret ()) st = (Ret (), st') \<and>
    planned (tables (cr_DB st')) (ScheduleId parent) start \<and> uuids_left E (tables (cr_DB st')) (cr_Fresh st') N \<and>
    extends (tables (cr_DB st)) (tables (cr_DB st')) (ScheduleId parent) (\<lambda>g'. g' = g \<and> wanted E app parent cron g)"
proof (cases "from_Unix g \<notin> set existing \<and> Match cron (env_Civil E (from_Unix g))")
  case False
  let ?T = "tables (cr_DB st)"
  have "extends ?T ?T (ScheduleId parent) (\<lambda>g'. g' = g \<and> wanted E app parent cron g)"
    using False ex by (auto simp: extends_def wanted_def)
  moreover have "uuids_left E ?T (cr_Fresh st) N" using T(2) by (auto simp: uuids_left_def inj_on_def)
  ultimately show ?thesis using T(1) False by (auto simp: ret_def)
next
  case True
  let ?T = "tables (cr_DB st)"
  obtain s ct cd st' where run: "create_run E app parent (from_Unix g) st = (Ret (), st')" "cr_Fresh st' = cr_Fresh st + 2"
      "ScheduleId s = env_Fresh E (cr_Fresh st + 1)" "ParentScheduleId s = ScheduleId parent" "ScheduleGroup s = g"
      "tables (cr_DB st') = (if acceptable E app parent (from_Unix g) then with_run s ct cd ?T else ?T)"
    using create_run_effect [OF E app, of "from_Unix g" "m + int j" st] g by (auto simp: minute_of_def)
  have new: "new_for (ScheduleId s) ?T" using T run(3) by (auto simp: new_for_def planned_def uuids_left_def)
  have left: "uuids_left E (tables (cr_DB st')) (cr_Fresh st') N"
    using uuids_left_step [OF T(2) _ new run(3)] run(2,6) by simp
  show ?thesis
  proof (cases "acceptable E app parent (from_Unix g)")
    case ok: True
    have "planned (tables (cr_DB st')) (ScheduleId parent) start"
      using planned_with_run [of ?T s start ct cd] T(1) new ex True run(4-6) ok by simp
    moreover have "extends ?T (tables (cr_DB st')) (ScheduleId parent) (\<lambda>g'. g' = g \<and> wanted E app parent cron g)"
      using extends_with_run [OF new, of "ScheduleId parent" ct cd] run(4-6) g(2) ok True by (simp add: wanted_def)
    ultimately show ?thesis using left run(1) True by auto
  next
    case bad: False
    have "extends ?T ?T (ScheduleId parent) (\<lambda>g'. g' = g \<and> wanted E app parent cron g)"
      by (rule extends_refl) (simp add: wanted_def bad)
    then show ?thesis using left run(1,6) True bad T(1) by auto
  qed
qed

lemma create_window_plans:
  assumes E: "env_Session E = sess" "works E" and app: "Partitions app \<noteq> 0" "Callback parent = Some cb"
    and range: "in64 (minute_of m 0 * 1000)" "in64 (minute_of m i * 1000)"
    and "planned (tables (cr_DB st)) (ScheduleId parent) start"
    and "uuids_left E (tables (cr_DB st)) (cr_Fresh st) (2 * i)"
    and "\<And>j. 1 \<le> j \<Longrightarrow> j \<le> i \<Longrightarrow>
      listed (tables (cr_DB st)) (ScheduleId parent) (minute_of m j) \<longleftrightarrow> from_Unix (minute_of m j) \<in> set existing"
  shows "\<exists>st'. create_window E app parent cron existing (from_Unix (minute_of m 0)) (from_Unix (minute_of m i)) st = (Ret (), st') \<and>
    planned (tables (cr_DB st')) (ScheduleId parent) start \<and>
    extends (tables (cr_DB st)) (tables (cr_DB st')) (ScheduleId parent)
      (\<lambda>g. \<exists>j \<in> {1..i}. g = minute_of m j \<and> wanted E app parent cron g)"
  using assms(6-9)
proof (induction i arbitrary: st)
  case 0
  have "extends T T u (\<lambda>g. \<exists>j \<in> {1..0}. g = minute_of m j \<and> wanted E app parent cron g)" for T u
    by (rule extends_refl) simp
  then show ?case using 0 by (subst create_window.simps) (simp add: ret_def)
next
  case (Suc i)
  let ?g = "minute_of m (Suc i)"
  note in64 = minute_of_in64 [OF range(1) Suc.prems(1)]
  obtain st1 where st1: "(if from_Unix ?g \<notin> set existing \<and> Match cron (env_Civil E (from_Unix ?g))
                then create_run E app parent (from_Unix ?g) else ret ()) st = (Ret (), st1)"
      "planned (tables (cr_DB st1)) (ScheduleId parent) start" "uuids_left E (tables (cr_DB st1)) (cr_Fresh st1) (2 * i)"
      "extends (tables (cr_DB st)) (tables (cr_DB st1)) (ScheduleId parent) (\<lambda>g'. g' = ?g \<and> wanted E app parent cron ?g)"
    using minute_planned [OF E app refl in64(1,2) [OF order_refl] Suc.prems(2), of "2 * i" existing cron] Suc.prems(3,4)
    by auto
  have same: "listed (tables (cr_DB st1)) (ScheduleId parent) (minute_of m j) \<longleftrightarrow> from_Unix (minute_of m j) \<in> set existing"
    if "1 \<le> j" "j \<le> i" for j
    using st1(4) Suc.prems(4) [of j] in64(1) [of j] that by (auto simp: extends_def minute_of_inj)
  obtain st' where st': "create_window E app parent cron existing (from_Unix (minute_of m 0)) (from_Unix (minute_of m i)) st1 = (Ret (), st')"
      "planned (tables (cr_DB st')) (ScheduleId parent) start"
      "extends (tables (cr_DB st1)) (tables (cr_DB st')) (ScheduleId parent)
        (\<lambda>g. \<exists>j \<in> {1..i}. g = minute_of m j \<and> wanted E app parent cron g)"
    using Suc.IH [OF in64(1) st1(2,3) same] by auto
  have "from_Unix ?g - minute_ns = from_Unix (minute_of m i)" "from_Unix (minute_of m 0) < from_Unix ?g"
    by (simp_all add: from_Unix_def minute_of_def minute_ns_def second_def)
  then have "create_window E app parent cron existing (from_Unix (minute_of m 0)) (from_Unix ?g) st = (Ret (), st')"
    using st1(1) st'(1) by (subst create_window.simps) (simp add: bnd_def)
  moreover have "extends (tables (cr_DB st)) (tables (cr_DB st')) (ScheduleId parent)
      (\<lambda>g. \<exists>j \<in> {1..Suc i}. g = minute_of m j \<and> wanted E app parent cron g)"
    using extends_trans [OF st1(4) st'(3)]
    by (rule back_subst [of "extends _ _ _"]) (auto simp: le_Suc_eq fun_eq_iff minute_of_inj)
  ultimately show ?case using st'(2) by blast
qed

end

section \<open>A task\<close>

text \<open>The future runs that are listed are in the window of \<open>w\<close> minutes after minute \<open>m\<close>.\<close>

definition in_window :: "'db env \<Rightarrow> tables \<Rightarrow> uuid \<Rightarrow> int \<Rightarrow> nat \<Rightarrow> bool" where
  "in_window E T u m w \<longleftrightarrow>
     (\<forall>g. in64 (g * 1000) \<longrightarrow> env_Now E < from_Unix g \<longrightarrow> listed T u g \<longrightarrow> (\<exists>j \<in> {1..w}. g = minute_of m j))"

lemma run_row_listed:
  assumes "rows_keyed runs_table (T runs_table)" and "T runs_table k = Some r"
    and "r ''parent_schedule_id'' = Some (VUuid u)" and "r ''schedule_time_group'' = Some (millis g)"
  shows "k = [VUuid u, millis g]" "listed T u g"
proof -
  from assms(1,2) have "map Some k = map r (primary_key runs_table)" by (simp add: rows_keyed_def)
  also have "\<dots> = map Some [VUuid u, millis g]" by (simp add: primary_key_runs assms(3,4))
  finally show "k = [VUuid u, millis g]" by (simp only: inj_map_eq_map inj_Some)
  with assms(2) show "listed T u g" by (simp add: listed_def)
qed

lemma listed_row:
  assumes "rows_keyed runs_table (T runs_table)" and "listed T u g"
  obtains r where "T runs_table [VUuid u, millis g] = Some r"
    "r ''parent_schedule_id'' = Some (VUuid u)" "r ''schedule_time_group'' = Some (millis g)"
  using assms by (auto simp: rows_keyed_def primary_key_runs listed_def)

lemma few_future_runs:
  assumes "rows_keyed runs_table (T runs_table)" and "in_window E T u m w"
  shows "card {k. \<exists>r. T runs_table k = Some r \<and> future_row E u r} \<le> w"
proof -
  have "{k. \<exists>r. T runs_table k = Some r \<and> future_row E u r} \<subseteq> (\<lambda>j. [VUuid u, millis (minute_of m j)]) ` {1..w}"
  proof clarify
    fix k r assume r: "T runs_table k = Some r" "future_row E u r"
    then obtain g where g: "r ''parent_schedule_id'' = Some (VUuid u)" "r ''schedule_time_group'' = Some (millis g)"
        "in64 (g * 1000)" "from_Unix g > env_Now E"
      by (auto simp: future_row_def)
    note l = run_row_listed [where T = T, OF assms(1) r(1) g(1,2)]
    then obtain j where "j \<in> {1..w}" "g = minute_of m j"
      using assms(2) g(3,4) unfolding in_window_def by blast
    with l(1) show "k \<in> (\<lambda>j. [VUuid u, millis (minute_of m j)]) ` {1..w}" by blast
  qed
  then have "card {k. \<exists>r. T runs_table k = Some r \<and> future_row E u r} \<le> card ((\<lambda>j. [VUuid u, millis (minute_of m j)]) ` {1..w})"
    by (intro card_mono) auto
  also have "\<dots> \<le> w" using card_image_le [of "{1..w}" "\<lambda>j. [VUuid u, millis (minute_of m j)]"] by simp
  finally show ?thesis .
qed

context cassandra
begin

lemma future_runs_listed:
  assumes E: "env_Session E = sess" and ok: "reads_runs E u db"
    and rows: "runs_well_formed E db (tables db runs_table) u" and key: "rows_keyed runs_table (tables db runs_table)"
    and win: "in_window E (tables db) u m w"
  obtains runs ps where "GetScheduleRuns E u (int w) ''future'' [] db = Ret (runs, ps, None)"
    "\<And>g. in64 (g * 1000) \<Longrightarrow> env_Now E < from_Unix g \<Longrightarrow>
      from_Unix g \<in> set (map (\<lambda>run. from_Unix (ScheduleGroup run)) runs) \<longleftrightarrow> listed (tables db) u g"
proof -
  have row: "run_row E db r" if "tables db runs_table k = Some r" "r ''parent_schedule_id'' = Some (VUuid u)" for k r
    using rows that unfolding runs_well_formed_def by blast
  have few: "int w < 0 \<or> int (card {k. \<exists>r. tables db runs_table k = Some r \<and> future_row E u r}) \<le> int w"
    using few_future_runs [where T = "tables db", OF key win] by simp
  obtain runs ps where runs: "getFutureRuns E u (int w) [] db = Ret (runs, ps, None)"
      "set runs = {s. \<exists>k r. tables db runs_table k = Some r \<and> future_row E u r \<and>
                        s = enriched E db (project runs_table run_select r)}"
    by (rule getFutureRuns_rows [OF E ok _ few]) (erule (1) row, blast)
  have "from_Unix g \<in> set (map (\<lambda>run. from_Unix (ScheduleGroup run)) runs) \<longleftrightarrow> listed (tables db) u g"
    if g: "in64 (g * 1000)" "env_Now E < from_Unix g" for g
  proof
    assume "from_Unix g \<in> set (map (\<lambda>run. from_Unix (ScheduleGroup run)) runs)"
    then obtain x k r where x: "ScheduleGroup x = g" "tables db runs_table k = Some r" "future_row E u r"
        "x = enriched E db (project runs_table run_select r)"
      unfolding set_map runs(2) by (auto simp: from_Unix_def second_def)
    then have p: "r ''parent_schedule_id'' = Some (VUuid u)" by (simp add: future_row_def)
    with x have "r ''schedule_time_group'' = Some (millis g)" using enriched_run(4) [OF row [OF x(2) p] x(4)] by simp
    with run_row_listed(2) [where T = "tables db", OF key x(2) p] show "listed (tables db) u g" by blast
  next
    assume "listed (tables db) u g"
    then obtain r where r: "tables db runs_table [VUuid u, millis g] = Some r"
        "r ''parent_schedule_id'' = Some (VUuid u)" "r ''schedule_time_group'' = Some (millis g)"
      by (rule listed_row [where T = "tables db", OF key])
    let ?x = "enriched E db (project runs_table run_select r)"
    have "future_row E u r" using r(2,3) g by (auto simp: future_row_def)
    with r(1) have "?x \<in> set runs" unfolding runs(2) by blast
    moreover have "ScheduleGroup ?x = g"
      using enriched_run(4,5) [OF row [OF r(1,2)] refl] r(3) g(1) by (simp add: millis_eq)
    ultimately show "from_Unix g \<in> set (map (\<lambda>run. from_Unix (ScheduleGroup run)) runs)" by force
  qed
  with runs(1) show thesis by (intro that) (simp_all add: GetScheduleRuns_def)
qed

end

lemma fires_once_iff:
  assumes "one_run_each T' u g" and "one_run_each T u g" and "listed T' u g \<longleftrightarrow> listed T u g \<or> P"
  shows "(\<exists>!k. fires T' u g k) \<longleftrightarrow> (\<exists>k. fires T u g k) \<or> P"
  using assms by (auto simp: one_run_each_def split: if_splits)

text \<open>
  C33. Processing the task of a recurring schedule returns, and afterwards a minute of the window is fired exactly once
  if it was fired before or if the cron expression matches it and validation accepts a schedule at that time; no other minute
  gets a run, and no run is lost. The invariant that every minute has one run or none, and that all planned runs are in
  the window, holds again, so that overlapping windows never plan a minute twice. This is for tasks that are
  processed within their minute, and as long as no batch fails.
\<close>

theorem cron_window_planned:
  assumes "cassandra sess tables rest pages_left" and "env_Session E = sess" and "works E"
    and "IsRecurring parent" and "Parse (CronExpression parent) = Ret (cron, [])" and "Callback parent = Some cb"
    and "GetApp E (AppId parent) (cr_Cluster st) = ((app, None), c)" and "Active app" and "Partitions app \<noteq> 0"
    and "env_Now E < from_Unix (minute_of m 1)"
    and "in64 (minute_of m 0 * 1000)" and "in64 (minute_of m w * 1000)"
    and "reads_runs E (ScheduleId parent) (cr_DB st)"
    and "runs_well_formed E (cr_DB st) (tables (cr_DB st) runs_table) (ScheduleId parent)"
    and "planned (tables (cr_DB st)) (ScheduleId parent) (minute_of m 0)"
    and "in_window E (tables (cr_DB st)) (ScheduleId parent) m w"
    and "uuids_left E (tables (cr_DB st)) (cr_Fresh st) (2 * w)"
  shows "\<exists>st'. createSchedule E \<lparr>task_Cron = parent, task_From = from_Unix (minute_of m 0), task_Duration = int w * minute_ns\<rparr> st =
      (Ret (), st') \<and>
    planned (tables (cr_DB st')) (ScheduleId parent) (minute_of m 0) \<and>
    in_window E (tables (cr_DB st')) (ScheduleId parent) m w \<and>
    (\<forall>g k. fires (tables (cr_DB st)) (ScheduleId parent) g k \<longrightarrow> fires (tables (cr_DB st')) (ScheduleId parent) g k) \<and>
    (\<forall>j \<in> {1..w}. (\<exists>!k. fires (tables (cr_DB st')) (ScheduleId parent) (minute_of m j) k) \<longleftrightarrow>
       (\<exists>k. fires (tables (cr_DB st)) (ScheduleId parent) (minute_of m j) k) \<or>
       Match cron (env_Civil E (from_Unix (minute_of m j))) \<and> acceptable E app parent (from_Unix (minute_of m j)))"
proof -
  let ?u = "ScheduleId parent"
  let ?T = "tables (cr_DB st)"
  let ?st = "st\<lparr>cr_Cluster := c\<rparr>"
  have db [simp]: "cr_DB ?st = cr_DB st" using assms(7) by (simp add: cr_DB_def)
  have key: "rows_keyed runs_table (?T runs_table)" using assms(15) by (simp add: planned_def)
  obtain runs ps where runs: "GetScheduleRuns E ?u (int w) ''future'' [] (cr_DB st) = Ret (runs, ps, None)"
      "\<And>g. in64 (g * 1000) \<Longrightarrow> env_Now E < from_Unix g \<Longrightarrow>
        from_Unix g \<in> set (map (\<lambda>run. from_Unix (ScheduleGroup run)) runs) \<longleftrightarrow> listed ?T ?u g"
    by (rule cassandra.future_runs_listed [OF assms(1), OF assms(2,13,14) key assms(16)]) blast
  let ?existing = "map (\<lambda>run. from_Unix (ScheduleGroup run)) runs"
  note in64 = minute_of_in64(1) [OF assms(11,12)]
  have future: "env_Now E < from_Unix (minute_of m j)" if "1 \<le> j" for j
    using assms(10) that by (simp add: from_Unix_def minute_of_def second_def)
  obtain st' where st': "create_window E app parent cron ?existing (from_Unix (minute_of m 0)) (from_Unix (minute_of m w)) ?st = (Ret (), st')"
      "planned (tables (cr_DB st')) ?u (minute_of m 0)"
      "extends ?T (tables (cr_DB st')) ?u (\<lambda>g. \<exists>j \<in> {1..w}. g = minute_of m j \<and> wanted E app parent cron g)"
    using cassandra.create_window_plans [OF assms(1), OF assms(2,3,9,6,11,12), of ?st "minute_of m 0" ?existing cron]
      assms(15,17) runs(2) in64 future by auto
  have "from_Unix (minute_of m 0) + int w * minute_ns = from_Unix (minute_of m w)"
    by (simp add: from_Unix_def minute_of_def minute_ns_def algebra_simps)
  moreover have "int w * minute_ns sdiv minute_ns = int w"
    using sdiv_exact [of minute_ns "int w"] by (simp add: minute_ns_def second_def mult.commute)
  ultimately have run: "createSchedule E \<lparr>task_Cron = parent, task_From = from_Unix (minute_of m 0), task_Duration = int w * minute_ns\<rparr> st = (Ret (), st')"
    using assms(4,5,7,8) runs(1) st'(1) by (simp add: createSchedule_def bnd_def)
  have "in_window E (tables (cr_DB st')) ?u m w"
    using assms(16) st'(3) unfolding in_window_def extends_def by blast
  moreover have "(\<exists>!k. fires (tables (cr_DB st')) ?u (minute_of m j) k) \<longleftrightarrow> (\<exists>k. fires ?T ?u (minute_of m j) k) \<or>
       Match cron (env_Civil E (from_Unix (minute_of m j))) \<and> acceptable E app parent (from_Unix (minute_of m j))"
    if j: "j \<in> {1..w}" for j
  proof (rule fires_once_iff)
    have g: "in64 (minute_of m j * 1000)" "minute_of m 0 < minute_of m j" using in64 [of j] j by (auto simp: minute_of_def)
    then show "one_run_each (tables (cr_DB st')) ?u (minute_of m j)" "one_run_each ?T ?u (minute_of m j)"
      using st'(2) assms(15) by (simp_all add: planned_def)
    show "listed (tables (cr_DB st')) ?u (minute_of m j) \<longleftrightarrow> listed ?T ?u (minute_of m j) \<or>
        Match cron (env_Civil E (from_Unix (minute_of m j))) \<and> acceptable E app parent (from_Unix (minute_of m j))"
      using st'(3) g(1) j by (auto simp: extends_def wanted_def minute_of_inj)
  qed
  moreover have "fires ?T ?u g k \<longrightarrow> fires (tables (cr_DB st')) ?u g k" for g k
    using st'(3) by (simp add: extends_def)
  ultimately show ?thesis by (intro exI [of _ st'] conjI run st'(2)) simp_all
qed

text \<open>An empty database and a schedule for every minute, at 00:15 for the five minutes to come.\<close>

definition sample_creator :: "mem creator" where
  "sample_creator = \<lparr>cr_Cluster = \<lparr>cl_DB = empty_mem, AppMap = [(''app'', sample_app)]\<rparr>, cr_Fresh = 0\<rparr>"

lemma sample_tables: "mem_tables (cr_DB sample_creator) t k = None"
  by (simp add: mem_tables_def cr_DB_def sample_creator_def empty_mem_def)

lemma sample_no_runs: "\<not> listed (mem_tables (cr_DB sample_creator)) u g" "\<not> fires (mem_tables (cr_DB sample_creator)) u g k"
  by (simp_all add: listed_def fires_def sample_tables)

lemma sample_works: "works sample_env"
proof -
  have "3 \<le> length (pad 3 i)" for i by (simp add: pad_def Let_def)
  then have len: "3 * length u \<le> length (concat (map (\<lambda>b. pad 3 (uint b)) u))" for u :: uuid
    by (induction u) (auto intro: add_mono)
  have "8 \<le> length (env_String sample_env u)" if "length u = 16" for u
  proof -
    have "8 \<le> 3 * length u" using that by simp
    also note len
    finally show ?thesis by (simp add: sample_env_def)
  qed
  moreover have "length (env_Fresh sample_env n) = 16" for n by (simp add: sample_env_def)
  ultimately have "8 \<le> length (env_String sample_env (env_Fresh sample_env n))" for n by blast
  then show ?thesis by (simp add: works_def mem_session_def)
qed

definition every_minute :: Schedule where
  "every_minute = sample_recurring\<lparr>CronExpression := ''* * * * *''\<rparr>"

lemma sample_parse: "Parse (CronExpression every_minute) = Ret (empty_expression, [])"
  unfolding every_minute_def Schedule.select_convs Schedule.update_convs by code_simp

lemma sample_uuids: "uuids_left sample_env (mem_tables (cr_DB sample_creator)) 0 (2 * 5)"
proof -
  have small: "unat (word_of_nat i :: 8 word) = i" if "i < 10" for i using that by (simp add: unat_of_nat)
  have "inj_on (env_Fresh sample_env) {0..<10}"
  proof (rule inj_onI)
    fix i j assume ij: "i \<in> {0..<10}" "j \<in> {0..<10}" "env_Fresh sample_env i = env_Fresh sample_env j"
    have "i = unat (word_of_nat i :: 8 word)" using ij(1) by (simp only: small atLeastLessThan_iff)
    also have "(word_of_nat i :: 8 word) = last (env_Fresh sample_env i)" by (simp add: sample_env_def)
    also have "\<dots> = word_of_nat j" unfolding ij(3) by (simp add: sample_env_def)
    also have "unat (word_of_nat j :: 8 word) = j" using ij(2) by (simp only: small atLeastLessThan_iff)
    finally show "i = j" .
  qed
  then show ?thesis by (simp add: uuids_left_def absent_def sample_tables)
qed

theorem cron_window_planned_witness:
  "\<exists>st'. createSchedule sample_env
      \<lparr>task_Cron = every_minute, task_From = from_Unix (minute_of 15 0), task_Duration = int 5 * minute_ns\<rparr> sample_creator = (Ret (), st') \<and>
    planned (mem_tables (cr_DB st')) (ScheduleId every_minute) (minute_of 15 0) \<and>
    (\<exists>!k. fires (mem_tables (cr_DB st')) (ScheduleId every_minute) (minute_of 15 3) k)"
proof -
  have p: "planned (mem_tables (cr_DB sample_creator)) u g" "in_window sample_env (mem_tables (cr_DB sample_creator)) u m w" for u g m w
    by (simp_all add: planned_def in_window_def rows_keyed_def one_run_each_def sample_tables sample_no_runs)
  have r: "runs_well_formed sample_env (cr_DB sample_creator) (mem_tables (cr_DB sample_creator) runs_table) u" for u
    by (simp add: runs_well_formed_def sample_tables)
  have f: "IsRecurring every_minute" "Callback every_minute = Some (HttpCallback sample_http)" "Active sample_app" "Partitions sample_app \<noteq> 0"
    by (simp_all add: every_minute_def sample_recurring_def sample_schedule_def sample_app_def IsRecurring_def)
  have a: "GetApp sample_env (AppId every_minute) (cr_Cluster sample_creator) = ((sample_app, None), cr_Cluster sample_creator)"
    by (simp add: GetApp_def check_def sample_creator_def every_minute_def sample_recurring_def sample_schedule_def)
  have n: "env_Now sample_env < from_Unix (minute_of 15 1)" "in64 (minute_of 15 0 * 1000)" "in64 (minute_of 15 5 * 1000)"
    by (simp_all add: sample_env_def from_Unix_def minute_of_def in64_def second_def)
  have u: "uuids_left sample_env (mem_tables (cr_DB sample_creator)) (cr_Fresh sample_creator) (2 * 5)"
    using sample_uuids by (simp add: sample_creator_def)
  have "acceptable sample_env sample_app every_minute (from_Unix (minute_of 15 3))"
    unfolding acceptable_def by code_simp
  then have w: "Match empty_expression (env_Civil sample_env (from_Unix (minute_of 15 3))) \<and>
      acceptable sample_env sample_app every_minute (from_Unix (minute_of 15 3))"
    by (simp add: Match_def empty_expression_def contains_def)
  from cron_window_planned [OF mem.cassandra_axioms sample_env_session sample_works f(1) sample_parse f(2) a f(3,4) n sample_reads r p u] w
  show ?thesis by fastforce
qed

text \<open>The invariant of one window is what the window of the next minute needs.\<close>

lemma in_window_moves:
  assumes "in_window E T u m w" and "env_Now E \<le> env_Now E'" and "from_Unix (minute_of (m + 1) 0) \<le> env_Now E'"
  shows "in_window E' T u (m + 1) w"
  unfolding in_window_def
proof (intro allI impI)
  fix g assume g: "in64 (g * 1000)" "env_Now E' < from_Unix g" "listed T u g"
  with assms(1,2) obtain j where j: "j \<in> {1..w}" "g = minute_of m j" unfolding in_window_def by force
  with g(2) assms(3) have "2 \<le> j" by (auto simp: minute_of_def from_Unix_def second_def)
  with j show "\<exists>j \<in> {1..w}. g = minute_of (m + 1) j"
    by (intro bexI [of _ "j - 1"]) (auto simp: minute_of_def of_nat_diff)
qed

lemma planned_moves: "planned T u (minute_of m 0) \<Longrightarrow> planned T u (minute_of (m + 1) 0)"
  by (simp add: planned_def minute_of_def)

end
