(* ===== verification/ServiceProperties.thy ===== *)
theory ServiceProperties
  imports Service SupervisorProperties CronConnector
begin

text \<open>
  Properties of the HTTP interface: pausing and resuming as a state machine, bulk actions, and the registration of
  apps.
\<close>

section \<open>Pausing and resuming\<close>

text \<open>The intended life cycle of a recurring schedule: request, former status, HTTP status, new status.\<close>

datatype status_request = PauseRequest | ResumeRequest

inductive lifecycle :: "status_request \<Rightarrow> status \<Rightarrow> int \<Rightarrow> status \<Rightarrow> bool" where
  pause: "lifecycle PauseRequest Scheduled 200 Paused"
| paused: "lifecycle PauseRequest Paused 200 Paused"
| not_scheduled: "st \<noteq> Scheduled \<Longrightarrow> st \<noteq> Paused \<Longrightarrow> lifecycle PauseRequest st 422 st"
| resume: "lifecycle ResumeRequest Paused 200 Scheduled"
| not_paused: "st \<noteq> Paused \<Longrightarrow> lifecycle ResumeRequest st 409 st"

code_pred (modes: i \<Rightarrow> i \<Rightarrow> o \<Rightarrow> o \<Rightarrow> bool) lifecycle .

inductive_cases pauseE: "lifecycle PauseRequest st code st'"
inductive_cases resumeE: "lifecycle ResumeRequest st code st'"

lemma lifecycle_keeps_or_toggles:
  assumes "lifecycle req st code st'"
  shows "st' = st \<or> code = 200 \<and> {st, st'} = {Scheduled, Paused}"
  using assms by cases auto

primrec handler :: "status_request \<Rightarrow> web \<Rightarrow> 'db env \<Rightarrow> string \<Rightarrow> ('db server, http_reply) io" where
  "handler PauseRequest = PauseSchedule"
| "handler ResumeRequest = ResumeSchedule"

abbreviation server_DB :: "'db server \<Rightarrow> 'db" where
  "server_DB st \<equiv> net_DB (sv_Net st)"

definition set_server_DB :: "'db \<Rightarrow> 'db server \<Rightarrow> 'db server" where
  "set_server_DB db st = st\<lparr>sv_Net := (sv_Net st)\<lparr>net_DB := db\<rparr>\<rparr>"

lemma set_server_DB_simps [simp]: "server_DB (set_server_DB db st) = db" "set_server_DB (server_DB st) st = st"
  by (simp_all add: set_server_DB_def)

lemma handle_AppErr: "handle code err st = (Ret \<lparr>hr_Code = http_code code,
    hr_Status = \<lparr>StatusCode = code, StatusMessage = Error (AppErr code err), StatusType = Fail_text, TotalCount = 0\<rparr>, hr_Data = NoData\<rparr>, st)"
  by (simp add: handle_def Handle_def NewError_def lift_go_def)

lemma recurring_schedule_found:
  assumes "ParseUUID W i = Inr u" and "GetSchedule E u (server_DB st) = Ret (s, None)" and "IsRecurring s"
  shows "recurring_schedule W E i k st = k u s st"
  using assms by (simp add: recurring_schedule_def schedule_read_def bnd_def)

text \<open>Both status rows of a recurring schedule.\<close>

definition status_rows :: "tables \<Rightarrow> Schedule \<Rightarrow> status \<Rightarrow> bool" where
  "status_rows T s st \<longleftrightarrow>
     (\<exists>r. T by_id [VUuid (ScheduleId s)] = Some r \<and> r ''status'' = Some (VText st)) \<and>
     (\<exists>r. T by_partition [VInt (PartitionId s), VUuid (ScheduleId s), VText (AppId s)] = Some r \<and> r ''status'' = Some (VText st))"

lemma set_status_reply:
  assumes "UpdateRecurringScheduleStatus E s status (server_DB st) = Ret ((s', err), db')"
  shows "\<exists>reply. set_status E s status msg st = (Ret reply, set_server_DB db' st) \<and>
    (err = None \<longrightarrow> hr_Code reply = 200 \<and> hr_Data reply = ScheduleData s') \<and> (err \<noteq> None \<longrightarrow> hr_Code reply = 500)"
  using assms
  by (cases err) (simp_all add: set_status_def schedule_write_def bnd_def ret_def success_def set_server_DB_def
      handle_AppErr http_code_def error_codes)

lemma resume_effect:
  assumes "cassandra sess tables rest pages_left" and "env_Session E = sess"
  shows "\<exists>err db'. UpdateRecurringScheduleStatus E s Scheduled db = Ret ((s\<lparr>Status := Scheduled\<rparr>, err), db') \<and>
    (err = None \<longrightarrow> status_rows (tables db') s Scheduled)"
proof -
  obtain err db' where exec: "ExecuteBatch sess (status_updates s Scheduled) db = (err, db')" by fastforce
  have "UpdateRecurringScheduleStatus E s Scheduled db = Ret ((s\<lparr>Status := Scheduled\<rparr>, err), db')"
    using exec assms(2) by (simp add: UpdateRecurringScheduleStatus_def Scheduled_def Paused_def)
  moreover have "status_rows (tables db') s Scheduled" if "err = None"
    using cassandra.batch_ok [OF assms(1), of "status_updates s Scheduled" db db'] exec that
      status_updates_effect(2,3) [of s Scheduled "tables db"]
    by (simp add: status_rows_def)
  ultimately show ?thesis by blast
qed

lemma UpdateRecurringScheduleStatus_error:
  assumes "UpdateRecurringScheduleStatus E s status db = Ret ((s', Some e), db')"
  shows "\<exists>batch. ExecuteBatch (env_Session E) batch db = (Some e, db')"
proof -
  have "err = None" if "getFutureRuns E u sz ps db = Ret (runs, ps', err)" for u sz ps runs ps' err
    using that by (auto simp: getFutureRuns_def bind_go_eq_Ret)
  with assms show ?thesis
    by (auto simp: UpdateRecurringScheduleStatus_def bind_go_eq_Ret Let_def split: if_splits prod.splits) blast
qed

lemma change_reply:
  assumes "env_Session E = sess" and "UpdateRecurringScheduleStatus E s status (server_DB st) = Ret ((s\<lparr>Status := status\<rparr>, err), db')"
  obtains reply where "set_status E s status msg st = (Ret reply, set_server_DB db' st)"
    "err = None \<and> hr_Code reply = 200 \<and> hr_Data reply = ScheduleData (s\<lparr>Status := status\<rparr>) \<or>
     hr_Code reply = 500 \<and> (\<exists>batch e. ExecuteBatch sess batch (server_DB st) = (Some e, db'))"
  using set_status_reply [OF assms(2), of msg] UpdateRecurringScheduleStatus_error [of E s status] assms
  by (cases err) (auto, blast)

text \<open>
  C37. The handlers for pausing and resuming follow the life cycle of a recurring schedule: only a scheduled one is
  paused and only a paused one is resumed, pausing twice is harmless, and any other status is refused with 422 or 409 and
  leaves the database as it is. After a change both status rows have the new status, which is also in the reply, and a paused
  schedule has no future runs. If the session reports an error while writing, the reply has the HTTP status 500.
\<close>

theorem pause_resume_lifecycle:
  assumes "cassandra sess tables rest pages_left" and "env_Session E = sess" and "ParseUUID W i = Inr u"
    and "GetSchedule E u (server_DB st) = Ret (s, None)" and "IsRecurring s"
    and "reads_runs E (ScheduleId s) (server_DB st)"
    and "runs_well_formed E (server_DB st) (tables (server_DB st) runs_table) (ScheduleId s)"
  shows "\<exists>reply db' status'. handler req W E i st = (Ret reply, set_server_DB db' st) \<and>
    (hr_Code reply = 500 \<and> (\<exists>batch e. ExecuteBatch sess batch (server_DB st) = (Some e, db')) \<or>
     lifecycle req (Status s) (hr_Code reply) status' \<and>
     (if status' = Status s then db' = server_DB st
      else hr_Data reply = ScheduleData (s\<lparr>Status := status'\<rparr>) \<and> status_rows (tables db') s status' \<and>
        (status' = Paused \<longrightarrow> future_runs_removed E (ScheduleId s) (tables (server_DB st)) (tables db'))))"
proof -
  note found = recurring_schedule_found [OF assms(3-5)]
  have distinct: "Scheduled \<noteq> Paused" by (simp add: Scheduled_def Paused_def)
  have same: "\<exists>reply. handler req W E i st = (Ret reply, set_server_DB (server_DB st) st) \<and>
      lifecycle req (Status s) (hr_Code reply) (Status s)"
    if "\<not> (req = PauseRequest \<and> Status s = Scheduled)" "\<not> (req = ResumeRequest \<and> Status s = Paused)"
    using that
    by (cases req) (auto simp: PauseSchedule_def ResumeSchedule_def found handle_AppErr ret_def success_def http_code_def
        error_codes intro: lifecycle.intros)
  obtain err db' where pause: "UpdateRecurringScheduleStatus E s Paused (server_DB st) = Ret ((s\<lparr>Status := Paused\<rparr>, err), db')"
      "err = None \<Longrightarrow> future_runs_removed E (ScheduleId s) (tables (server_DB st)) (tables db') \<and> status_rows (tables db') s Paused"
    using pause_effect [OF assms(1,2,6,7)] unfolding status_rows_def by blast
  obtain err' db'' where resume: "UpdateRecurringScheduleStatus E s Scheduled (server_DB st) = Ret ((s\<lparr>Status := Scheduled\<rparr>, err'), db'')"
      "err' = None \<Longrightarrow> status_rows (tables db'') s Scheduled"
    using resume_effect [OF assms(1,2)] by blast
  consider "req = PauseRequest" "Status s = Scheduled" | "req = ResumeRequest" "Status s = Paused"
    | "\<not> (req = PauseRequest \<and> Status s = Scheduled)" "\<not> (req = ResumeRequest \<and> Status s = Paused)"
    by blast
  then show ?thesis
  proof cases
    case 1
    then have "handler req W E i st = set_status E s Paused ''Schedule paused successfully'' st"
      using distinct by (simp add: PauseSchedule_def found)
    with change_reply [OF assms(2) pause(1), of "''Schedule paused successfully''"] 1 pause(2) distinct show ?thesis
      by (metis lifecycle.pause)
  next
    case 2
    then have "handler req W E i st = set_status E s Scheduled ''Schedule resumed successfully'' st"
      by (simp add: ResumeSchedule_def found)
    with change_reply [OF assms(2) resume(1), of "''Schedule resumed successfully''"] 2 resume(2) distinct show ?thesis
      by (metis lifecycle.resume)
  next
    case 3
    with same show ?thesis by fastforce
  qed
qed

text \<open>A server whose database has the schedule and its runs.\<close>

definition sample_store :: mem where
  "sample_store = (case CreateSchedule sample_env sample_recurring sample_app sample_db of Ret (_, db') \<Rightarrow> db' | _ \<Rightarrow> sample_db)"

definition sample_server :: "mem server" where
  "sample_server = \<lparr>sv_Net = sample_net\<lparr>net_DB := sample_store\<rparr>, sv_Fresh = 0, BulkActionQueue = []\<rparr>"

definition sample_web :: web where
  "sample_web = \<lparr>ParseUUID = (\<lambda>s. if s = ''7'' then Inr sample_uuid else Inl (Err ''invalid UUID'')), uuid_of_json = (\<lambda>j. None),
     ParseInLocation = (\<lambda>s. Inl (Err ''cannot parse'')), show_time = (\<lambda>t. Itoa (Unix t)), show_num_error = (\<lambda>s. s)\<rparr>"

definition sample_stored :: Schedule where
  "sample_stored = (case GetSchedule sample_env sample_uuid sample_store of Ret (s, _) \<Rightarrow> s | _ \<Rightarrow> empty_schedule)"

lemma sample_stored: "GetSchedule sample_env sample_uuid sample_store = Ret (sample_stored, None)"
  "IsRecurring sample_stored" "Status sample_stored = Scheduled" "sample_runs_ok sample_store"
  by code_simp+

theorem pause_resume_lifecycle_witness:
  "\<exists>reply db' status'. PauseSchedule sample_web sample_env ''7'' sample_server = (Ret reply, set_server_DB db' sample_server) \<and>
    (hr_Code reply = 500 \<or> hr_Code reply = 200 \<and> status_rows (mem_tables db') sample_stored Paused)"
proof -
  have db: "server_DB sample_server = sample_store" by (simp add: sample_server_def)
  have "ParseUUID sample_web ''7'' = Inr sample_uuid" by (simp add: sample_web_def)
  from pause_resume_lifecycle [OF mem.cassandra_axioms sample_env_session this, where req = PauseRequest and st = sample_server,
      unfolded db, OF sample_stored(1,2) sample_reads mem_runs_well_formed [OF sample_stored(4)]]
  obtain reply db' status' where r: "PauseSchedule sample_web sample_env ''7'' sample_server = (Ret reply, set_server_DB db' sample_server)"
      "hr_Code reply = 500 \<or> lifecycle PauseRequest Scheduled (hr_Code reply) status' \<and>
         (if status' = Scheduled then db' = sample_store else status_rows (mem_tables db') sample_stored status')"
    unfolding sample_stored(3) handler.simps by metis
  moreover have "hr_Code reply = 200 \<and> status' = Paused" if "lifecycle PauseRequest Scheduled (hr_Code reply) status'"
    using that by (auto elim: pauseE)
  moreover have "Paused \<noteq> Scheduled" by (simp add: Scheduled_def Paused_def)
  ultimately show ?thesis by metis
qed

section \<open>Bulk actions\<close>

lemma minute_pos [simp]: "0 < minute_ns"
  by (simp add: minute_ns_def second_def)

text \<open>The loop over the minutes of a range: each of them once, in order.\<close>

lemma ex_Suc: "(\<exists>i. P i) \<longleftrightarrow> P 0 \<or> (\<exists>i. P (Suc i))"
  by (metis not0_implies_Suc)

lemma set_minutes_of_range: "x \<in> set (minutes_of_range (t, e)) \<longleftrightarrow> x < e \<and> (\<exists>i. x = t + int i * minute_ns)"
proof (induction "(t, e)" arbitrary: t rule: minutes_of_range.induct)
  case (1 t)
  have step: "(\<exists>i. x = t + int i * minute_ns) \<longleftrightarrow> x = t \<or> (\<exists>i. x = t + minute_ns + int i * minute_ns)"
    using ex_Suc [of "\<lambda>i. x = t + int i * minute_ns"] by (simp add: algebra_simps)
  show ?case
  proof (cases "t < e")
    case True
    with 1 show ?thesis unfolding step by (subst minutes_of_range.simps) auto
  next
    case False
    moreover have "t \<le> t + int i * minute_ns" for i by (simp add: less_imp_le)
    ultimately have "\<not> (x < e \<and> (\<exists>i. x = t + int i * minute_ns))" by (meson le_less_trans not_less order.strict_trans2)
    with False show ?thesis by (subst minutes_of_range.simps) simp
  qed
qed

lemma minutes_sorted: "sorted_wrt (<) (minutes_of_range (t, e))"
proof (induction "(t, e)" arbitrary: t rule: minutes_of_range.induct)
  case (1 t)
  then show ?case
    by (subst minutes_of_range.simps) (auto simp: set_minutes_of_range add_strict_increasing less_imp_le)
qed

lemma length_minutes: "int (length (minutes_of_range (t, e))) * minute_ns < max 0 (e - t) + minute_ns"
proof (induction "(t, e)" arbitrary: t rule: minutes_of_range.induct)
  case (1 t)
  then show ?case by (subst minutes_of_range.simps) (auto simp: algebra_simps max_def split: if_splits)
qed

abbreviation bulk_task :: "App \<Rightarrow> status \<Rightarrow> action_type \<Rightarrow> nat \<Rightarrow> time \<Rightarrow> BulkActionTask" where
  "bulk_task app status action p t \<equiv>
     \<lparr>bt_App = app, bt_PartitionId = int p, ScheduleTimeGroup = t, bt_Status = status, ActionType = action\<rparr>"

lemma pushBulkActionQueries_tasks:
  assumes "e - s \<le> MaxBulkActionPeriodInDays * day_ns"
  obtains tasks where "pushBulkActionQueries app (s, e) status action st = (Ret None, st\<lparr>BulkActionQueue := BulkActionQueue st @ tasks\<rparr>)"
    "distinct tasks" "int (length tasks) \<le> uint (Partitions app) * 10080"
    "\<And>x. x \<in> set tasks \<longleftrightarrow> (\<exists>p i. p < unat (Partitions app) \<and> s + int i * minute_ns < e \<and> x = bulk_task app status action p (s + int i * minute_ns))"
proof
  let ?ms = "minutes_of_range (s, e)"
  let ?tasks = "concat (map (\<lambda>p. map (bulk_task app status action p) ?ms) [0..<unat (Partitions app)])"
  show "pushBulkActionQueries app (s, e) status action st = (Ret None, st\<lparr>BulkActionQueue := BulkActionQueue st @ ?tasks\<rparr>)"
    by (simp add: pushBulkActionQueries_def)
  have "distinct ?ms" using minutes_sorted [of s e] by (simp add: strict_sorted_iff)
  then show "distinct ?tasks"
  proof (cases "?ms = []")
    case True
    then have "?tasks = []" by simp
    then show ?thesis by (simp only: distinct.simps)
  qed (intro distinct_concat, auto simp: distinct_map inj_on_def)
  have "int (length ?ms) \<le> 10080"
    using length_minutes [of s e] assms
    by (simp add: MaxBulkActionPeriodInDays_def day_ns_def hour_ns_def minute_ns_def second_def)
  moreover have "length ?tasks = unat (Partitions app) * length ?ms" by (simp add: length_concat o_def sum_list_triv)
  ultimately show "int (length ?tasks) \<le> uint (Partitions app) * 10080"
    by (simp add: mult_left_mono flip: uint_nat)
  show "x \<in> set ?tasks \<longleftrightarrow> (\<exists>p i. p < unat (Partitions app) \<and> s + int i * minute_ns < e \<and> x = bulk_task app status action p (s + int i * minute_ns))" for x
  proof -
    have "x \<in> set ?tasks \<longleftrightarrow> (\<exists>p < unat (Partitions app). \<exists>t \<in> set ?ms. x = bulk_task app status action p t)" by auto
    then show ?thesis unfolding Bex_def set_minutes_of_range by blast
  qed
qed

text \<open>
  C38. A bulk action on a registered app queues one task for each of its partitions and each minute from the start of
  the range to before its end, no task twice and never more than 10080 per partition, since ranges of more than seven days
  are refused. Another action than \<open>reconcile\<close> and \<open>delete\<close> is refused with the code 4005 before the app is looked up, and
  an invalid range with the code 400; then nothing is queued.
\<close>

theorem ExecuteBulkAction_queues:
  assumes "cluster_dao a (GetApp E appId) st = (Ret (app, None), st1)" and "app_AppId app \<noteq> []"
  shows "\<exists>err st' tasks. ExecuteBulkAction W E a appId action status (s, e) st = (Ret err, st') \<and>
    BulkActionQueue st' = BulkActionQueue st @ tasks \<and>
    (if action \<notin> {Reconcile, Delete} then (\<exists>msg. err = Some (AppErr 4005 msg)) \<and> st' = st
     else if s \<le> e \<and> e - s \<le> 7 * 24 * hour_ns
     then err = None \<and> distinct tasks \<and> int (length tasks) \<le> uint (Partitions app) * 10080 \<and>
       (\<forall>x. x \<in> set tasks \<longleftrightarrow> (\<exists>p i. p < unat (Partitions app) \<and> s + int i * minute_ns < e \<and>
          x = bulk_task app status action p (s + int i * minute_ns)))
     else (\<exists>msg. err = Some (AppErr 400 msg)) \<and> tasks = [])"
proof -
  have q: "BulkActionQueue st1 = BulkActionQueue st"
    using assms(1) by (auto simp: cluster_dao_def on_net_def split: prod.splits)
  have app: "getActiveOrInactiveApp E a appId st = (Ret (app, None), st1)"
    using assms by (simp add: getActiveOrInactiveApp_def bnd_def ret_def)
  consider "action \<notin> {Reconcile, Delete}" | "action \<in> {Reconcile, Delete}" "s \<le> e \<and> e - s \<le> 7 * 24 * hour_ns"
    | "action \<in> {Reconcile, Delete}" "\<not> (s \<le> e \<and> e - s \<le> 7 * 24 * hour_ns)"
    by blast
  then show ?thesis
  proof cases
    case 1
    then show ?thesis by (auto simp: ExecuteBulkAction_def ret_def NewError_def error_codes)
  next
    case 2
    then obtain tasks where t: "pushBulkActionQueries app (s, e) status action st1 =
        (Ret None, st1\<lparr>BulkActionQueue := BulkActionQueue st1 @ tasks\<rparr>)"
      "distinct tasks" "int (length tasks) \<le> uint (Partitions app) * 10080"
      "\<And>x. x \<in> set tasks \<longleftrightarrow> (\<exists>p i. p < unat (Partitions app) \<and> s + int i * minute_ns < e \<and> x = bulk_task app status action p (s + int i * minute_ns))"
      by (elim pushBulkActionQueries_tasks [rotated]) (simp add: MaxBulkActionPeriodInDays_def day_ns_def)
    have "validateTimeRange W (s, e) = None"
      using 2 by (simp add: validateTimeRange_def MaxBulkActionPeriodInDays_def day_ns_def)
    with 2(1) app t(1) have "ExecuteBulkAction W E a appId action status (s, e) st =
        (Ret None, st1\<lparr>BulkActionQueue := BulkActionQueue st1 @ tasks\<rparr>)"
      by (auto simp: ExecuteBulkAction_def bnd_def ret_def)
    with 2 t(2-4) q show ?thesis by auto
  next
    case 3
    then have "\<exists>msg. validateTimeRange W (s, e) = Some (AppErr 400 msg)"
      by (cases "e < s") (simp_all add: validateTimeRange_def MaxBulkActionPeriodInDays_def day_ns_def NewError_def error_codes)
    then obtain msg where "validateTimeRange W (s, e) = Some (AppErr 400 msg)" by blast
    with 3 app have "ExecuteBulkAction W E a appId action status (s, e) st = (Ret (Some (AppErr 400 msg)), st1)"
      by (auto simp: ExecuteBulkAction_def bnd_def ret_def)
    with 3 q show ?thesis by auto
  qed
qed

lemma sample_server_app: "cluster_dao ''n1'' (GetApp sample_env ''app'') sample_server = (Ret (sample_app, None), sample_server)"
  by (simp add: cluster_dao_def on_net_def at_node_def on_cluster_def node_at_def put_node_def GetApp_def check_def
      sample_server_def sample_net_def nd_DB_def fun_upd_idem Let_def)

theorem ExecuteBulkAction_queues_witness:
  "\<exists>st' tasks. ExecuteBulkAction sample_web sample_env ''n1'' ''app'' Reconcile Failure (0, 90 * second) sample_server = (Ret None, st') \<and>
    BulkActionQueue st' = tasks \<and> bulk_task sample_app Failure Reconcile 4 minute_ns \<in> set tasks \<and>
    bulk_task sample_app Failure Reconcile 4 (2 * minute_ns) \<notin> set tasks"
proof -
  have "app_AppId sample_app \<noteq> []" by (simp add: sample_app_def)
  from ExecuteBulkAction_queues [OF sample_server_app this, of sample_web Reconcile Failure 0 "90 * second"]
  obtain st' tasks where t: "ExecuteBulkAction sample_web sample_env ''n1'' ''app'' Reconcile Failure (0, 90 * second) sample_server = (Ret None, st')"
      "BulkActionQueue st' = BulkActionQueue sample_server @ tasks"
      "\<And>x. x \<in> set tasks \<longleftrightarrow> (\<exists>p i. p < unat (Partitions sample_app) \<and> 0 + int i * minute_ns < 90 * second \<and>
          x = bulk_task sample_app Failure Reconcile p (0 + int i * minute_ns))"
    by (auto simp: second_def hour_ns_def minute_ns_def)
  have "bulk_task sample_app Failure Reconcile 4 minute_ns \<in> set tasks"
    unfolding t(3) by (intro exI [of _ 4] exI [of _ 1]) (simp add: sample_app_def minute_ns_def second_def)
  moreover have "bulk_task sample_app Failure Reconcile 4 (2 * minute_ns) \<notin> set tasks"
    unfolding t(3) by (auto simp: minute_ns_def second_def)
  ultimately show ?thesis using t(1,2) by (simp add: sample_server_def)
qed

subsection \<open>A request without a range\<close>

text \<open>The groups of the stored schedules are whole minutes, as \<^verbatim>\<open>SetFields\<close> makes them.\<close>

definition whole_minutes :: "table \<Rightarrow> bool" where
  "whole_minutes T \<longleftrightarrow> (\<forall>k r. T k = Some r \<longrightarrow>
     (\<exists>g. r ''schedule_time_group'' = Some (millis (60 * g)) \<and> in64 (60 * g * 1000)))"

context cassandra
begin

lemma BulkAction_off_minute:
  assumes "env_Session E = sess" and "whole_minutes (tables db ''schedules'')"
    and "snd (snd (GetSchedulesForEntity E (app_AppId app) p t [] db)) = None" and "t div 10 ^ 6 mod 60000 \<noteq> 0"
  shows "BulkAction E app p t status action (db, sent) = (Ret None, db, sent)"
proof -
  let ?q = "entity_query (app_AppId app) p t"
  obtain rows ps where page: "IterPage sess ?q [] (ScheduleDBPageSize (env_Conf E)) db = (rows, ps, None)"
    using assms(1,3) by (metis GetSchedulesForEntity_def prod.collapse)
  have "millis (60 * g) \<noteq> VTime (t div 10 ^ 6)" if "in64 (60 * g * 1000)" for g
    using assms(4) that by (auto simp: millis_def) (metis mod_mult_self1_is_0)
  then have "\<not> list_all (\<lambda>c. cond_holds c r) [Eq ''app_id'' (VText (app_AppId app)), Eq ''partition_id'' (VInt p),
        Eq ''schedule_time_group'' (VTime (t div 10 ^ 6))]" if "tables db ''schedules'' k = Some r" for k r
    using assms(2) that by (fastforce simp: whole_minutes_def)
  with answers_set [OF rest_start [of ?q db, unfolded entity_query_def]] have "x \<notin> set (rest ?q db [])" for x
    by (auto simp: entity_query_def base_table_def)
  then have "rest ?q db [] = []" by (cases "rest ?q db []") auto
  with page_ok [OF page] have "rows = []" by simp
  with page assms(1) show ?thesis
    by (simp add: BulkAction_def GetSchedulesForEntity_def recovering_def bnd_def ret_def actionIfRequired_def)
qed

end

lemma bulkAction_off_minute:
  assumes "cassandra sess tables rest pages_left" and "env_Session E = sess" and "whole_minutes (tables db ''schedules'')"
    and "\<forall>app p t. snd (snd (GetSchedulesForEntity E app p t [] db)) = None"
    and "\<forall>x \<in> set tasks. ScheduleTimeGroup x div 10 ^ 6 mod 60000 \<noteq> 0"
  shows "bulkAction E tasks (db, sent) = (Ret (), db, sent)"
  using assms(5)
  by (induction tasks)
     (simp_all add: ret_def bnd_def cassandra.BulkAction_off_minute [OF assms(1), OF assms(2,3) assms(4) [rule_format]])

lemma parse_without_range:
  assumes "q_start_time q = []" and "q_end_time q = []" and "parse W E q = Inr (sz, status, r, ps, c)"
  shows "r = (env_Now E - hour_ns, env_Now E)"
  using assms by (auto simp: parse_def parse_range_def defaultDuration_def Let_def split: option.splits prod.splits if_splits)

text \<open>What a request for a bulk action can have queued.\<close>

lemma Service_BulkAction_queue:
  assumes "Service_BulkAction W E a appId action q st = (Ret res, st')"
  obtains tasks where "BulkActionQueue st' = BulkActionQueue st @ tasks"
    "\<And>x. x \<in> set tasks \<Longrightarrow> \<exists>sz status s e ps c i. parse W E q = Inr (sz, status, (s, e), ps, c) \<and>
       ScheduleTimeGroup x = s + int i * minute_ns"
proof (cases "parse W E q")
  case (Inl err)
  with assms show ?thesis by (intro that [of "[]"]) (simp_all add: Service_BulkAction_def handle_AppErr)
next
  case (Inr v)
  obtain sz status s e ps c where v: "v = (sz, status, (s, e), ps, c)" by (metis prod.collapse)
  obtain err st1 where x: "ExecuteBulkAction W E a appId action status (s, e) st = (Ret err, st1)" "st' = st1"
    using assms by (auto simp: Service_BulkAction_def Inr v bnd_def respond_def ret_def lift_go_def split: prod.splits go.splits option.splits)
  have "BulkActionQueue st1 = BulkActionQueue st" if "getActiveOrInactiveApp E a appId st = (r, st1)" for r st1
    using that by (auto simp: getActiveOrInactiveApp_def cluster_dao_def on_net_def bnd_def ret_def split: prod.splits go.splits if_splits option.splits)
  then have "\<exists>tasks. BulkActionQueue st1 = BulkActionQueue st @ tasks \<and>
      (\<forall>x \<in> set tasks. \<exists>p. ScheduleTimeGroup x \<in> set (minutes_of_range (s, e)))"
    using x(1) by (auto simp: ExecuteBulkAction_def bnd_def ret_def pushBulkActionQueries_def
        split: prod.splits go.splits if_splits option.splits)
  with x(2) Inr v show ?thesis by (auto simp: set_minutes_of_range intro!: that)
qed

text \<open>
  A bulk action without \<open>start_time\<close> and \<open>end_time\<close> is accepted, but does nothing: its range is the last hour up to the
  present instant, not to a whole minute, while a task only finds schedules whose group is exactly its time. Unless
  the request arrives in the first millisecond of a minute, no queued task changes the database or fires a callback.
\<close>

theorem bulk_action_without_range_is_void:
  assumes "cassandra sess tables rest pages_left" and "env_Session E = sess" and "whole_minutes (tables db ''schedules'')"
    and "\<forall>app p t. snd (snd (GetSchedulesForEntity E app p t [] db)) = None"
    and "q_start_time q = []" and "q_end_time q = []" and "env_Now E div 10 ^ 6 mod 60000 \<noteq> 0"
    and "Service_BulkAction W E a appId action q st = (Ret res, st')"
  shows "\<exists>tasks. BulkActionQueue st' = BulkActionQueue st @ tasks \<and> bulkAction E tasks (db, sent) = (Ret (), db, sent)"
proof -
  obtain tasks where t: "BulkActionQueue st' = BulkActionQueue st @ tasks"
      "\<And>x. x \<in> set tasks \<Longrightarrow> \<exists>sz status s e ps c i. parse W E q = Inr (sz, status, (s, e), ps, c) \<and>
         ScheduleTimeGroup x = s + int i * minute_ns"
    using Service_BulkAction_queue [OF assms(8)] by metis
  have shift: "(env_Now E - hour_ns + int i * minute_ns) div 10 ^ 6 mod 60000 = env_Now E div 10 ^ 6 mod 60000" for i
  proof -
    have "env_Now E - hour_ns + int i * minute_ns = env_Now E + (int i - 60) * 60000 * 10 ^ 6"
      by (simp add: hour_ns_def minute_ns_def second_def)
    then have "(env_Now E - hour_ns + int i * minute_ns) div 10 ^ 6 = (int i - 60) * 60000 + env_Now E div 10 ^ 6"
      by (simp only:) (rule div_mult_self1, simp)
    then show ?thesis by (simp only: mod_mult_self3)
  qed
  have "ScheduleTimeGroup x div 10 ^ 6 mod 60000 \<noteq> 0" if "x \<in> set tasks" for x
  proof -
    from t(2) [OF that] obtain i where "ScheduleTimeGroup x = env_Now E - hour_ns + int i * minute_ns"
      using parse_without_range [OF assms(5,6)] by blast
    with shift assms(7) show ?thesis by metis
  qed
  then have "bulkAction E tasks (db, sent) = (Ret (), db, sent)" by (intro bulkAction_off_minute [OF assms(1-4)]) simp
  with t(1) show ?thesis by blast
qed

definition late_env :: "mem env" where
  "late_env = sample_env\<lparr>env_Now := 930 * second\<rparr>"

definition empty_query :: app_query where
  "empty_query = \<lparr>q_continuation_token = [], q_size = [], q_start_time = [], q_end_time = [], q_status = Failure, q_continuation_start_time = []\<rparr>"

lemma sample_whole_minutes: "whole_minutes (mem_tables sample_db ''schedules'')"
proof -
  have "\<forall>(k, r) \<in> set (sample_db ''schedules''). list_ex (\<lambda>g. map_of r ''schedule_time_group'' = Some (millis (60 * g)) \<and> in64 (60 * g * 1000)) [10, 20]"
    by code_simp
  then have "\<exists>g. r ''schedule_time_group'' = Some (millis (60 * g)) \<and> in64 (60 * g * 1000)"
    if "mem_tables sample_db ''schedules'' k = Some r" for k r
    using that map_of_SomeD [of "sample_db ''schedules''" k] unfolding mem_tables_def list_ex_iff
    by (cases "map_of (sample_db ''schedules'') k") (simp_all only: option.map option.inject option.distinct, blast)
  then show ?thesis unfolding whole_minutes_def by blast
qed

theorem bulk_action_without_range_is_void_witness:
  "\<exists>res st' tasks. Service_BulkAction sample_web late_env ''n1'' ''app'' Delete empty_query sample_server = (Ret res, st') \<and>
    hr_Code res = 200 \<and> BulkActionQueue st' = tasks \<and> bulkAction late_env tasks (sample_db, []) = (Ret (), sample_db, [])"
proof -
  let ?r = "Service_BulkAction sample_web late_env ''n1'' ''app'' Delete empty_query sample_server"
  have app: "cluster_dao ''n1'' (GetApp late_env ''app'') sample_server = (Ret (sample_app, None), sample_server)"
    using sample_server_app by (simp add: GetApp_def cluster_dao_def on_net_def at_node_def on_cluster_def check_def
        node_at_def sample_server_def sample_net_def)
  have "\<exists>res st'. ?r = (Ret res, st') \<and> hr_Code res = 200"
    by (simp add: Service_BulkAction_def parse_def parse_range_def empty_query_def ExecuteBulkAction_def getActiveOrInactiveApp_def app
        bnd_def ret_def validateTimeRange_def pushBulkActionQueries_def respond_def success_def sample_app_def defaultDuration_def
        MaxBulkActionPeriodInDays_def day_ns_def hour_ns_def minute_ns_def second_def)
  then obtain res st' where r: "?r = (Ret res, st')" "hr_Code res = 200" by blast
  have "env_Session late_env = mem_session" "\<forall>app p t. snd (snd (GetSchedulesForEntity late_env app p t [] sample_db)) = None"
      "env_Now late_env div 10 ^ 6 mod 60000 \<noteq> 0"
    by (simp_all add: late_env_def sample_env_def GetSchedulesForEntity_def mem_session_def mem_page_def second_def Let_def)
  from bulk_action_without_range_is_void [OF mem.cassandra_axioms this(1) sample_whole_minutes this(2) _ _ this(3) r(1), of "[]"] r
  show ?thesis by (auto simp: empty_query_def sample_server_def)
qed

end
