(* ===== verification/RegistrationProperties.thy ===== *)
theory RegistrationProperties
  imports ServiceProperties
begin

text \<open>
  The registration of an app: its row, the rows of its entities, and the pollers that are started. A node
  that registers an app sends the request for a poller to its own address first, and from there it goes to the owner; so a
  request must reach any node, which is the locale \<open>forwarding_ring\<close>.
\<close>

section \<open>Requests to any node\<close>

locale forwarding_ring = ring +
  assumes deliver_any: "Forward R b [eid] (request_body ''Ids'' [eid]) StartEntities_name n = reply (StartEntities R E b [eid] n)"

text \<open>Two rings with the same owners start an entity in the same way.\<close>

lemma start_entities_rings:
  assumes "ring R E owner" and "ring R' E owner"
  shows "StartEntities R E b [eid] n = StartEntities R' E b [eid] n"
proof (cases "owner eid = b")
  case True
  then show ?thesis
    using own_start [of R b eid E] own_start [of R' b eid E] ring.lookup [OF assms(1)] ring.lookup [OF assms(2)]
    by (simp add: StartEntities_def del: start_entities.simps)
next
  case False
  let ?o = "owner eid"
  have "StartEntities R E ?o [eid] m = StartEntities R' E ?o [eid] m" for m
    using own_start [of R ?o eid E] own_start [of R' ?o eid E] ring.lookup [OF assms(1)] ring.lookup [OF assms(2)]
    by (simp add: StartEntities_def del: start_entities.simps)
  then have "Forward R ?o [eid] (request_body ''Ids'' [eid]) StartEntities_name m =
      Forward R' ?o [eid] (request_body ''Ids'' [eid]) StartEntities_name m" for m
    by (simp only: ring.deliver_start [OF assms(1)] ring.deliver_start [OF assms(2)])
  then have "forwardOrPanicIfRequired R b \<lparr>rq_entity = EntityIDs [eid], rq_method = StartEntities_name, destNode = ?o\<rparr> =
      forwardOrPanicIfRequired R' b \<lparr>rq_entity = EntityIDs [eid], rq_method = StartEntities_name, destNode = ?o\<rparr>"
    by (intro ext) (simp add: forwardOrPanicIfRequired_def forwardEntity_def bnd_def)
  with False show ?thesis
    by (simp add: StartEntities_def responding_def lookup_or_panic_def ring.lookup [OF assms(1)] ring.lookup [OF assms(2)])
qed

interpretation far_network: forwarding_ring "network E owner nodes (Suc (Suc hops))" E owner for E :: "'db env" and owner nodes hops
proof unfold_locales
  fix b eid and n :: "'db net"
  show "Forward (network E owner nodes (Suc (Suc hops))) b [eid] (request_body ''Ids'' [eid]) StartEntities_name n =
      reply (StartEntities (network E owner nodes (Suc (Suc hops))) E b [eid] n)"
    using start_entities_rings [OF network.ring_axioms network.ring_axioms, of E owner nodes hops b eid n nodes "Suc hops"]
    by (simp add: RegisterHandler_def)
qed

section \<open>Starting an entity from any node\<close>

lemma AppMap_UpdateEntityStatus: "AppMap (snd (UpdateEntityStatus E eid b status c)) = AppMap c"
  by (simp add: UpdateEntityStatus_def exec_cluster_def split: go.splits prod.splits)

lemma update_cached: "cached (snd (at_node a (dao (UpdateEntityStatus E eid b status)) n)) = cached n"
proof -
  obtain x c where u: "UpdateEntityStatus E eid b status (nd_Cluster (node_at a n)) = (x, c)" by fastforce
  then have "AppMap c = mb_AppMap (members n a)"
    using AppMap_UpdateEntityStatus [of E eid b status "nd_Cluster (node_at a n)"] by (simp add: node_at_def Let_def)
  then show ?thesis by (simp add: at_node_def dao_def u put_node_def cached_def fun_eq_iff)
qed

lemma set_entities_cached [simp]: "cached (set_entities a es n) = cached n"
  by (simp add: cached_def set_entities_def fun_eq_iff)

lemma StartEntity_cached:
  assumes "StartEntity E a eid n = (Ret (True, None), n')"
  shows "cached n' = cached n"
proof -
  from assms have "\<exists>n1. at_node a (dao (UpdateEntityStatus E eid a RUNNING)) n1 = (Ret None, n') \<and> cached n1 = cached n"
    by (auto simp: StartEntity_def bnd_def ret_def split: option.splits go.splits prod.splits)
  then obtain n1 where n1: "cached n1 = cached n" "at_node a (dao (UpdateEntityStatus E eid a RUNNING)) n1 = (Ret None, n')" by blast
  with update_cached [of a E eid a RUNNING n1] show ?thesis by simp
qed

context forwarding_ring
begin

lemma start_request:
  assumes "updates_ok E" and "PollerFactory_CreateEntity (env_Conf E) eid = Ret p" and "well_placed owner n"
  shows "\<exists>n'. StartEntity E (owner eid) eid n = (Ret (True, None), n') \<and>
    (\<forall>a ent. ei_Id ent = eid \<longrightarrow> forwardOrPanic R a ent StartEntities_name n = (Ret (), n')) \<and>
    well_placed owner n' \<and> present n' = (\<lambda>b e. present n b e \<or> b = owner e \<and> e = eid) \<and> cached n' = cached n"
proof -
  obtain n' where n': "StartEntity E (owner eid) eid n = (Ret (True, None), n')" "well_placed owner n'"
      "present n' = (\<lambda>b e. present n b e \<or> b = owner eid \<and> e = eid)"
    using StartEntity_places [OF assms refl] by blast
  let ?res = "\<lambda>b. \<lparr>ServerAddress = b, rs_Error = [], rs_Status = SUCCESS\<rparr>"
  have own: "StartEntities R E (owner eid) [eid] n = (Ret (?res (owner eid), None), n')"
    using n'(1) by (simp add: StartEntities_def responding_def own_start lookup bnd_def ret_def del: start_entities.simps)
  have fwd: "forwardOrPanicIfRequired R a \<lparr>rq_entity = EntityIDs [eid], rq_method = StartEntities_name, destNode = b\<rparr> n = (Ret (), n')"
    if "StartEntities R E b [eid] n = (Ret (?res b, None), n')" for a b
    using that by (intro forwarded [where ids = "[eid]" and f = "''Ids''" and res = "?res b"]) (simp_all add: deliver_any)
  have "StartEntities R E b [eid] n = (Ret (?res b, None), n')" for b
  proof (cases "owner eid = b")
    case False
    then show ?thesis using fwd [OF own, of b]
      by (simp add: StartEntities_def responding_def lookup_or_panic_def lookup bnd_def ret_def)
  qed (use own in simp)
  then have "forwardOrPanic R a ent StartEntities_name n = (Ret (), n')" if "ei_Id ent = eid" for a ent
    using fwd that by (simp add: forwardOrPanic_def entity_request_def)
  moreover have "present n' = (\<lambda>b e. present n b e \<or> b = owner e \<and> e = eid)" using n'(3) by (auto simp: fun_eq_iff)
  ultimately show ?thesis using n'(1,2) StartEntity_cached [OF n'(1)] by blast
qed

text \<open>Booting an entity of an app, which is started where it belongs if the app is active.\<close>

lemma BootEntity_places:
  assumes "updates_ok E" and "PollerFactory_CreateEntity (env_Conf E) (ei_Id ent) = Ret p" and "well_placed owner n"
    and "GetAppName ent = Ret app" and "ei_Status ent \<noteq> RUNNING" and "GetReachableMembers R a = Inr nodes"
    and "get_app E a app n = (Ret (ap, None), n1)" and "entities_at n1 = entities_at n"
  shows "\<exists>n'. BootEntity R E a ent True n = (Ret None, n') \<and> well_placed owner n' \<and> cached n' = cached n1 \<and>
    present n' = (\<lambda>b e. present n b e \<or> Active ap \<and> b = owner e \<and> e = ei_Id ent)"
proof (cases "Active ap")
  case False
  with assms(4,7) have "BootEntity R E a ent True n = (Ret None, n1)"
    by (simp add: BootEntity_def boot_entity_def bnd_def lift_go_def ret_def)
  with False entities_cong [OF assms(8)] assms(3) show ?thesis by auto
next
  case True
  have w: "well_placed owner n1" and p: "present n1 = present n" using entities_cong [OF assms(8)] assms(3) by auto
  from start_request [OF assms(1,2) w] obtain n' where
    n': "StartEntity E (owner (ei_Id ent)) (ei_Id ent) n1 = (Ret (True, None), n')"
      "forwardOrPanic R a ent StartEntities_name n1 = (Ret (), n')"
      "well_placed owner n'" "present n' = (\<lambda>b e. present n b e \<or> b = owner e \<and> e = ei_Id ent)" "cached n' = cached n1"
    unfolding p by blast
  then have "BootEntity R E a ent True n = (Ret None, n')"
    using True assms(4-7) by (cases "owner (ei_Id ent) = a")
      (simp_all add: BootEntity_def boot_entity_def bnd_def lift_go_def ret_def lookup_or_panic_def lookup)
  with True n'(3-5) show ?thesis by auto
qed

end

section \<open>The app at the node that registers it\<close>

text \<open>A session that does not fail: rows that exist are read, and statements are carried out.\<close>

definition reliable :: "'db session \<Rightarrow> bool" where
  "reliable sess \<longleftrightarrow> (\<forall>q db e. MapScan sess q db = Inl e \<longrightarrow> e = ErrNotFound) \<and> (\<forall>st db. fst (Exec sess st db) = None)"

text \<open>The node has the app in its cache or will find it in the database.\<close>

definition known :: "('db \<Rightarrow> tables) \<Rightarrow> string \<Rightarrow> App \<Rightarrow> 'db net \<Rightarrow> bool" where
  "known tables a app n \<longleftrightarrow>
     (case cached n a (app_AppId app) of
        Some ap \<Rightarrow> Active ap = Active app
      | None \<Rightarrow> keyed (tables (net_DB n) ''apps'') \<and>
          (\<exists>r. tables (net_DB n) ''apps'' [VText (app_AppId app)] = Some r \<and> (\<forall>(c, v) \<in> set (app_columns app). r c = Some v)))"

lemma node_cluster: "nd_Cluster (node_at a n) = \<lparr>cl_DB = net_DB n, AppMap = mb_AppMap (members n a)\<rparr>"
  by (simp add: node_at_def Let_def)

text \<open>An operation of the cluster DAO of a node: the database, its own cache, and nothing else.\<close>

lemma on_cluster_effect:
  assumes "f \<lparr>cl_DB = net_DB n, AppMap = mb_AppMap (members n a)\<rparr> = (x, c)"
  shows "\<exists>n'. at_node a (on_cluster f) n = (Ret x, n') \<and> net_DB n' = cl_DB c \<and> entities_at n' = entities_at n \<and>
    cached n' = (cached n)(a := map_of (AppMap c))"
  using assms
  by (auto simp: at_node_def on_cluster_def node_cluster put_node_def nd_DB_def entities_at_def cached_def fun_eq_iff)

context cassandra
begin

lemma get_app_known:
  assumes "env_Session E = sess" and "reliable sess" and "plain (app_AppId app)" and "wf_configuration (app_Configuration app)"
    and "known tables a app n"
  shows "\<exists>ap n1. get_app E a (app_AppId app) n = (Ret (ap, None), n1) \<and> Active ap = Active app \<and>
    entities_at n1 = entities_at n \<and> net_DB n1 = net_DB n \<and>
    cached n1 = (cached n)(a := (cached n a)(app_AppId app \<mapsto> ap))"
proof -
  let ?c = "\<lparr>cl_DB = net_DB n, AppMap = mb_AppMap (members n a)\<rparr>"
  have "\<exists>ap c. GetApp E (app_AppId app) ?c = ((ap, None), c) \<and> Active ap = Active app \<and>
      map_of (AppMap c) = (cached n a)(app_AppId app \<mapsto> ap)"
  proof (cases "cached n a (app_AppId app)")
    case (Some ap)
    with assms(5) show ?thesis by (simp add: GetApp_def check_def cached_def known_def map_upd_triv)
  next
    case None
    with assms(5) obtain r where r: "keyed (tables (net_DB n) ''apps'')" "tables (net_DB n) ''apps'' [VText (app_AppId app)] = Some r"
        "\<forall>(c, v) \<in> set (app_columns app). r c = Some v"
      by (auto simp: known_def)
    have "e = ErrNotFound" if "getApp E (app_AppId app) ?c = ((empty_app, Some e), ?c)" for e
      using that assms(1,2,3)
      by (auto simp: getApp_def scan_spliced_def reliable_def Let_def split: sum.splits prod.splits)
    moreover have "getApp E (app_AppId app) ?c = ((app, None), cache app ?c) \<or>
        (\<exists>e. getApp E (app_AppId app) ?c = ((empty_app, Some e), ?c) \<and> e \<noteq> ErrNotFound)"
      using r(3) by (intro getApp_stored [OF assms(1,3) _ _ _ _ _ assms(4) refl, of ?c r])
        (simp_all add: r(1,2) app_columns_def)
    ultimately have "getApp E (app_AppId app) ?c = ((app, None), cache app ?c)" by blast
    with None show ?thesis by (simp add: GetApp_def check_def cached_def cache_def fun_eq_iff)
  qed
  then obtain ap c where c: "GetApp E (app_AppId app) ?c = ((ap, None), c)" "Active ap = Active app"
      "map_of (AppMap c) = (cached n a)(app_AppId app \<mapsto> ap)"
    by blast
  have "cl_DB c = net_DB n" using GetApp_keeps_DB [OF c(1)] by simp
  with on_cluster_effect [where f = "GetApp E (app_AppId app)", OF c(1)] c(2,3) show ?thesis by (auto simp: get_app_def)
qed

lemma CreateEntity_known:
  assumes "env_Session E = sess" and "reliable sess" and "known tables a app n"
  shows "\<exists>n'. at_node a (on_cluster (CreateEntity E ent)) n = (Ret None, n') \<and> entities_at n' = entities_at n \<and> known tables a app n'"
proof -
  let ?st = "Insert ''entity'' [(''id'', VText (ei_Id ent)), (''nodename'', VText (Address (env_Conf E))), (''status'', VInt 0)] None"
  let ?c = "\<lparr>cl_DB = net_DB n, AppMap = mb_AppMap (members n a)\<rparr>"
  obtain db' where exec: "Exec sess ?st (net_DB n) = (None, db')" using assms(2) unfolding reliable_def by (metis prod.collapse)
  then have "tables db' ''apps'' = tables (net_DB n) ''apps''"
    using exec_ok [OF exec] apply_stmt_frame [of ?st "''apps''"] by simp
  moreover have "CreateEntity E ent ?c = (None, ?c\<lparr>cl_DB := db'\<rparr>)" using exec assms(1) by (simp add: CreateEntity_def)
  from on_cluster_effect [where f = "CreateEntity E ent", OF this] obtain n' where n': "at_node a (on_cluster (CreateEntity E ent)) n = (Ret None, n')"
      "net_DB n' = db'" "entities_at n' = entities_at n" "cached n' = (cached n)(a := map_of (mb_AppMap (members n a)))"
    by auto
  moreover have "(cached n)(a := map_of (mb_AppMap (members n a))) = cached n" by (simp add: cached_def fun_eq_iff)
  ultimately have "known tables a app n'" using assms(3) by (simp add: known_def cong: option.case_cong)
  with n' show ?thesis by blast
qed

end

section \<open>Registration\<close>

lemma GetAppName_entity_id: "ei_Id ent = entity_id app p \<Longrightarrow> GetAppName ent = Ret app"
  by (simp add: GetAppName_def entity_id_def last_index_append_sep)

lemma create_entities_places:
  assumes "cassandra sess tables rest pages_left" and "env_Session E = sess" and "reliable sess"
    and "forwarding_ring R E owner" and "updates_ok E" and "GetReachableMembers R a = Inr nodes"
    and "plain (app_AppId app)" and "wf_configuration (app_Configuration app)" and "CHR ''.'' \<notin> set (app_AppId app)"
    and "\<forall>p \<in> set ps. p < 2 ^ 32" and "known tables a app (sv_Net st)" and "well_placed owner (sv_Net st)"
  shows "\<exists>st'. create_entities R E a (app_AppId app) ps st = (Ret None, st') \<and> well_placed owner (sv_Net st') \<and>
    present (sv_Net st') = (\<lambda>b e. present (sv_Net st) b e \<or>
      Active app \<and> b = owner e \<and> (\<exists>p \<in> set ps. e = entity_id (app_AppId app) p))"
  using assms(10-12)
proof (induction ps arbitrary: st)
  case Nil
  then show ?case by (auto simp: ret_def)
next
  case (Cons p ps)
  let ?ent = "\<lparr>ei_Id = entity_id (app_AppId app) p, ei_Node = Address (env_Conf E), ei_Status = 0, History = []\<rparr>"
  obtain n1 where n1: "at_node a (on_cluster (CreateEntity E ?ent)) (sv_Net st) = (Ret None, n1)"
      "entities_at n1 = entities_at (sv_Net st)" "known tables a app n1"
    using cassandra.CreateEntity_known [OF assms(1), OF assms(2,3) Cons.prems(2)] by blast
  obtain ap n2 where n2: "get_app E a (app_AppId app) n1 = (Ret (ap, None), n2)" "Active ap = Active app"
      "entities_at n2 = entities_at n1" "cached n2 a (app_AppId app) = Some ap"
    using cassandra.get_app_known [OF assms(1), OF assms(2,3,7,8) n1(3)] by fastforce
  obtain pl where pl: "PollerFactory_CreateEntity (env_Conf E) (ei_Id ?ent) = Ret pl"
    using CreateEntity_returns [OF assms(9), of p] Cons.prems(1) by auto
  have w: "well_placed owner n1" and pr: "present n1 = present (sv_Net st)" using entities_cong [OF n1(2)] Cons.prems(3) by auto
  have "GetAppName ?ent = Ret (app_AppId app)" by (simp add: GetAppName_entity_id)
  from forwarding_ring.BootEntity_places [OF assms(4), OF assms(5) pl w this _ assms(6) n2(1,3)] obtain n3 where
    n3: "BootEntity R E a ?ent True n1 = (Ret None, n3)" "well_placed owner n3" "cached n3 = cached n2"
      "present n3 = (\<lambda>b e. present n1 b e \<or> Active ap \<and> b = owner e \<and> e = ei_Id ?ent)"
    by (auto simp: RUNNING_def)
  have "known tables a app n3" using n2(2,4) n3(3) by (simp add: known_def)
  with Cons.IH [of "st\<lparr>sv_Net := n3\<rparr>"] Cons.prems(1) n3(2) obtain st' where
    st': "create_entities R E a (app_AppId app) ps (st\<lparr>sv_Net := n3\<rparr>) = (Ret None, st')" "well_placed owner (sv_Net st')"
      "present (sv_Net st') = (\<lambda>b e. present n3 b e \<or> Active app \<and> b = owner e \<and> (\<exists>p \<in> set ps. e = entity_id (app_AppId app) p))"
    by auto
  have "create_entities R E a (app_AppId app) (p # ps) st = (Ret None, st')"
    using n1(1) n3(1) st'(1) by (simp add: cluster_dao_def on_net_def bnd_def Let_def)
  with st'(2,3) n3(4) n2(2) pr show ?case by (auto simp: fun_eq_iff)
qed

text \<open>
  C40. Registering an app without limits of its own stores it and starts the poller of each of its partitions, the
  default number of them if none is given, on the node that owns it, if the app is active; an app that is registered as inactive
  gets no pollers. This is for an app without a dot or a quote in its name that the node does not have in its cache, on
  nodes that agree on the ring and pass requests on, and as long as the database does not fail.
\<close>

theorem RegisterApp_places:
  assumes "cassandra sess tables rest pages_left" and "env_Session E = sess" and "reliable sess"
    and "forwarding_ring R E owner" and "updates_ok E" and "GetReachableMembers R a = Inr nodes"
    and "app_AppId input \<noteq> []" and "plain (app_AppId input)" and "CHR ''.'' \<notin> set (app_AppId input)"
    and "app_Configuration input = empty_configuration"
    and "keyed (tables (server_DB st) ''apps'')" and "cached (sv_Net st) a (app_AppId input) = None"
    and "well_placed owner (sv_Net st)"
  shows "\<exists>app st'. RegisterApp R E a input st = (Ret (app, None), st') \<and>
    app = input\<lparr>Partitions := (if Partitions input = 0 then DefaultCount (env_Conf E) else Partitions input)\<rparr> \<and>
    well_placed owner (sv_Net st') \<and>
    (\<forall>b e. present (sv_Net st') b e \<longleftrightarrow> present (sv_Net st) b e \<or>
       Active app \<and> b = owner e \<and> (\<exists>p < unat (Partitions app). e = entity_id (app_AppId app) p))"
proof -
  define app where "app = input\<lparr>Partitions := (if Partitions input = 0 then DefaultCount (env_Conf E) else Partitions input)\<rparr>"
  have app: "app_AppId app = app_AppId input" "app_Configuration app = empty_configuration" by (simp_all add: app_def assms(10))
  let ?n = "sv_Net st"
  let ?c = "\<lparr>cl_DB = net_DB ?n, AppMap = mb_AppMap (members ?n a)\<rparr>"
  obtain db' where exec: "Exec sess (Insert ''apps'' (app_columns app) None) (net_DB ?n) = (None, db')"
    using assms(3) unfolding reliable_def by (metis prod.collapse)
  have "validated E (app_AppId app) (app_Configuration app) ?c = (None, ?c)"
    by (simp add: app(2) validated_def ValidateConfigurations_def)
  then have "InsertApp E app ?c = (None, ?c\<lparr>cl_DB := db'\<rparr>)"
    using exec assms(2) by (simp add: InsertApp_def app_columns_def)
  from on_cluster_effect [where f = "InsertApp E app", OF this] obtain n1 where
    n1: "at_node a (on_cluster (InsertApp E app)) ?n = (Ret None, n1)" "net_DB n1 = db'" "entities_at n1 = entities_at ?n"
      "cached n1 = cached ?n"
    by (auto simp: cached_def fun_eq_iff)
  have tabs: "tables db' = upsert ''apps'' (app_columns app) (tables (net_DB ?n))"
    using cassandra.exec_ok [OF assms(1) exec] by simp
  have cols: "map_of (app_columns app) ''id'' = Some (VText (app_AppId app))" "distinct (map fst (app_columns app))"
    by (simp_all add: app_columns_def)
  obtain r where "tables db' ''apps'' [VText (app_AppId app)] = Some r" "\<forall>(c, v) \<in> set (app_columns app). r c = Some v"
    unfolding tabs by (rule upsert_id_columns [OF id_table_names(1) cols])
  moreover have "keyed (tables db' ''apps'')"
    unfolding tabs by (rule keyed_upsert [OF id_table_names(1) cols(1)]) (rule assms(11))
  ultimately have "known tables a app n1"
    unfolding known_def n1(2,4) app(1) assms(12) option.case by blast
  moreover have "well_placed owner n1" "present n1 = present ?n" using entities_cong [OF n1(3)] assms(13) by auto
  moreover have "\<forall>p \<in> set [0..<unat (Partitions app)]. p < 2 ^ 32"
    using unsigned_less [of "Partitions app"] by (auto dest: less_trans)
  ultimately obtain st' where st': "createEntities R E a app (st\<lparr>sv_Net := n1\<rparr>) = (Ret None, st')" "well_placed owner (sv_Net st')"
      "present (sv_Net st') = (\<lambda>b e. present ?n b e \<or> Active app \<and> b = owner e \<and> (\<exists>p < unat (Partitions app). e = entity_id (app_AppId app) p))"
    using create_entities_places [OF assms(1-6), of app "[0..<unat (Partitions app)]" "st\<lparr>sv_Net := n1\<rparr>"] assms(8,9)
    by (auto simp: createEntities_def app wf_configuration_def empty_configuration_def in64_def Bex_def)
  have "validateApp input = None" using assms(7) by (simp add: validateApp_def validateAppId_def)
  moreover have "(if Partitions input = 0 then input\<lparr>Partitions := DefaultCount (env_Conf E)\<rparr> else input) = app"
    by (simp add: app_def)
  ultimately have "RegisterApp R E a input st = (Ret (app, None), st')"
    using n1(1) st'(1) by (simp add: RegisterApp_def cluster_dao_def on_net_def bnd_def ret_def Let_def)
  with st'(2,3) app_def show ?thesis by auto
qed

text \<open>Two nodes, and an app that neither of them knows.\<close>

definition wide_ring :: "mem ringpop" where
  "wide_ring = network quiet_env sample_owner [''n1'', ''n2''] 2"

definition new_app :: App where
  "new_app = \<lparr>app_AppId = ''shop'', Partitions = 0, Active = True, app_Configuration = empty_configuration\<rparr>"

definition new_server :: "mem server" where
  "new_server = \<lparr>sv_Net = sample_net, sv_Fresh = 0, BulkActionQueue = []\<rparr>"

lemma wide_ring_laws: "forwarding_ring wide_ring quiet_env sample_owner"
  using far_network.forwarding_ring_axioms [of quiet_env sample_owner _ 0] by (simp add: wide_ring_def numeral_2_eq_2)

definition quiet_session :: "mem session" where
  "quiet_session = mem_session\<lparr>ExecText := (\<lambda>t db. (None, db))\<rparr>"

lemma quiet_session_laws: "cassandra quiet_session mem_tables mem_rest (\<lambda>q db ps. length (mem_rest q db ps))"
proof -
  have eq: "Exec quiet_session = Exec mem_session" "ExecuteBatch quiet_session = ExecuteBatch mem_session"
      "MapScan quiet_session = MapScan mem_session" "Iter quiet_session = Iter mem_session" "IterPage quiet_session = IterPage mem_session"
    by (simp_all add: quiet_session_def)
  show ?thesis using mem.cassandra_axioms unfolding cassandra_def eq .
qed

lemma quiet_reliable: "reliable quiet_session"
  by (auto simp: reliable_def quiet_session_def mem_session_def split: list.splits)

theorem RegisterApp_places_witness:
  "\<exists>app st'. RegisterApp wide_ring quiet_env ''n1'' new_app new_server = (Ret (app, None), st') \<and> Partitions app = 5 \<and>
    present (sv_Net st') ''n1'' ''shop.4'' \<and> present (sv_Net st') ''n2'' ''shop.3'' \<and> \<not> present (sv_Net st') ''n2'' ''shop.4''"
proof -
  have h: "env_Session quiet_env = quiet_session" "GetReachableMembers wide_ring ''n1'' = Inr [''n1'', ''n2'']"
      "app_AppId new_app \<noteq> []" "plain (app_AppId new_app)" "CHR ''.'' \<notin> set (app_AppId new_app)"
      "app_Configuration new_app = empty_configuration" "keyed (mem_tables (server_DB new_server) ''apps'')"
      "cached (sv_Net new_server) ''n1'' (app_AppId new_app) = None" "well_placed sample_owner (sv_Net new_server)"
    using sample_placed(1)
    by (simp_all add: quiet_env_def quiet_session_def wide_ring_def new_app_def plain_def new_server_def sample_net_def keyed_def
        mem_tables_def empty_mem_def cached_def)
  have five: "DefaultCount (env_Conf quiet_env) = 5" by (simp add: quiet_env_def sample_env_def defaultConfig_def)
  from RegisterApp_places [OF quiet_session_laws h(1) quiet_reliable wide_ring_laws quiet_updates h(2-9)] obtain app st' where
    r: "RegisterApp wide_ring quiet_env ''n1'' new_app new_server = (Ret (app, None), st')" "Partitions app = 5"
      "\<And>b e. present (sv_Net st') b e \<longleftrightarrow> b = sample_owner e \<and> (\<exists>p < 5. e = entity_id ''shop'' p)"
    using sample_placed(2) by (auto simp: new_app_def five new_server_def)
  have eid: "''shop.4'' = entity_id ''shop'' 4" "''shop.3'' = entity_id ''shop'' 3" by code_simp+
  have "\<exists>p < 5. ''shop.4'' = entity_id ''shop'' p" "\<exists>p < 5. ''shop.3'' = entity_id ''shop'' p"
    by (rule exI [of _ 4], simp only: eid, simp) (rule exI [of _ 3], simp only: eid, simp)
  moreover have "sample_owner ''shop.4'' = ''n1''" "sample_owner ''shop.3'' = ''n2''" by (simp_all add: sample_owner_def)
  ultimately show ?thesis using r(1,2) unfolding r(3) by (intro exI [of _ app] exI [of _ st']) (simp add: r(3))
qed

end
