(* ===== verification/ClientProperties.thy ===== *)
theory ClientProperties
  imports ServerProperties
begin

text \<open>
  A schedule over HTTP: what a client posted it can read, until it deletes it.
\<close>

section \<open>Reading what was created\<close>

context cassandra
begin

lemma scan_absent:
  assumes "reliable sess" and "\<And>k r. tables db (base_table t) k = Some r \<Longrightarrow> \<not> list_all (\<lambda>c. cond_holds c r) conds"
  shows "MapScan sess (Select t cols conds) db = Inl ErrNotFound"
proof (cases "MapScan sess (Select t cols conds) db")
  case (Inl e)
  with assms(1) show ?thesis by (auto simp: reliable_def)
next
  case (Inr m)
  then obtain rows where rows: "answers (Select t cols conds) (tables db) rows" "m \<in> set rows" using scan_row by blast
  obtain k r where "tables db (base_table t) k = Some r" "list_all (\<lambda>c. cond_holds c r) conds" by (rule answers_row [OF rows])
  with assms(2) show ?thesis by blast
qed

lemma created_is_found:
  assumes "env_Session E = sess" and "reliable sess" and "storable (env_Registry E) s"
    and "in64 (ScheduleGroup s * 1000)" "in64 (ScheduleTime s * 1000)"
    and "absent (tables db ''schedules'') (ScheduleId s)"
    and "createOneTimeSchedule E s app db = Ret ((s', None), db')"
  shows "getOneTimeSchedule E (ScheduleId s) db' = Ret (as_stored s, None)"
  using scan_created [OF assms(1,3-7)] assms(1,2) by (auto simp: getOneTimeSchedule_def read_one_def reliable_def)

lemma absent_is_not_found:
  assumes "env_Session E = sess" and "reliable sess" and "absent (tables db ''schedules'') u"
    and "absent (tables db ''recurring_schedules_by_id'') u"
  shows "GetEnrichedSchedule E u db = Ret (empty_schedule, Some ErrNotFound)"
proof -
  have "MapScan sess (Select ''view_schedules'' schedule_select [Eq ''schedule_id'' (VUuid u)]) db = Inl ErrNotFound"
    using assms(3) by (intro scan_absent [OF assms(2)]) (auto simp: base_table_def absent_def)
  moreover have "MapScan sess (Select ''recurring_schedules_by_id'' recurring_select [Eq ''schedule_id'' (VUuid u)]) db = Inl ErrNotFound"
    using assms(4) by (intro scan_absent [OF assms(2)]) (auto simp: base_table_def absent_def)
  ultimately show ?thesis
    using assms(1) by (simp add: GetEnrichedSchedule_def getEnrichedSchedule_def getOneTimeSchedule_def getRecurringSchedule_def read_one_def)
qed

text \<open>Without a row of its status, a schedule has the status of one that is not fired yet, or that was missed.\<close>

lemma status_of_new:
  assumes "env_Session E = sess" and "reliable sess" and "absent (tables db ''status'') (ScheduleId s)"
  shows "setStatus E s db = Ret (SetUnknownStatus (env_Now E) (FlushPeriod (env_Conf E)) s, None)"
proof -
  have "MapScan sess (Select ''status'' [''schedule_status'', ''error_msg'', ''reconciliation_history'']
      [Eq ''app_id'' (VText (AppId s)), Eq ''partition_id'' (VInt (PartitionId s)), Eq ''schedule_id'' (VUuid (ScheduleId s))]) db =
      Inl ErrNotFound"
    using assms(3) by (intro scan_absent [OF assms(2)]) (auto simp: base_table_def absent_def)
  then show ?thesis using assms(1) by (simp add: setStatus_def)
qed

text \<open>A schedule that was created has no status yet.\<close>

lemma created_is_enriched:
  assumes "env_Session E = sess" and "reliable sess" and "storable (env_Registry E) s"
    and "in64 (ScheduleGroup s * 1000)" "in64 (ScheduleTime s * 1000)"
    and "absent (tables db ''schedules'') (ScheduleId s)" and "absent (tables db ''status'') (ScheduleId s)"
    and "createOneTimeSchedule E s app db = Ret ((s', None), db')"
  shows "GetEnrichedSchedule E (ScheduleId s) db' = Ret (SetUnknownStatus (env_Now E) (FlushPeriod (env_Conf E)) (as_stored s), None)"
proof -
  have "absent (tables db' ''status'') (ScheduleId s)"
  proof (rule created_tables [OF assms(1,3,8)])
    fix h assume "tables db' = upsert ''schedules'' (schedule_columns s (GetType (HttpCallback h)) (fst (GetDetails (HttpCallback h)))) (tables db)"
    then show ?thesis using assms(7) by (simp add: upsert_frame)
  qed
  then have "setStatus E (as_stored s) db' = Ret (SetUnknownStatus (env_Now E) (FlushPeriod (env_Conf E)) (as_stored s), None)"
    by (intro status_of_new [OF assms(1,2)]) (simp add: as_stored_def)
  with created_is_found [OF assms(1-6,8)] show ?thesis by (simp add: GetEnrichedSchedule_def getEnrichedSchedule_def)
qed

text \<open>Deleting what was created.\<close>

lemma created_is_deleted:
  assumes "env_Session E = sess" and "reliable sess" and "storable (env_Registry E) s"
    and "in64 (ScheduleGroup s * 1000)" "in64 (ScheduleTime s * 1000)"
    and "absent (tables db ''schedules'') (ScheduleId s)" and "absent (tables db ''recurring_schedules_by_id'') (ScheduleId s)"
    and "createOneTimeSchedule E s app db = Ret ((s', None), db')"
  shows "\<exists>db''. DeleteSchedule E (ScheduleId s) db' = Ret ((as_stored s, None), db'') \<and>
    GetEnrichedSchedule E (ScheduleId s) db'' = Ret (empty_schedule, Some ErrNotFound)"
proof -
  have get: "getOneTimeSchedule E (ScheduleId s) db' = Ret (as_stored s, None)" by (rule created_is_found [OF assms(1-6,8)])
  obtain db'' where exec: "Exec sess (deleteFromSchedule (as_stored s)) db' = (None, db'')"
    using assms(2) unfolding reliable_def by (metis prod.collapse)
  have del: "DeleteSchedule E (ScheduleId s) db' = Ret ((as_stored s, None), db'')"
    using get exec assms(1)
    by (simp add: DeleteSchedule_def GetSchedule_def deleteOneTimeSchedule_def IsRecurring_def as_stored_def empty_schedule_def)
  obtain h z where "Callback s = Some (HttpCallback h)"
    and T: "tables db' = upsert ''schedules'' (schedule_columns s (GetType (HttpCallback h)) (fst (GetDetails (HttpCallback h)))) (tables db)"
    by (rule created_tables [OF assms(1,3,8)])
  obtain k r where r: "\<forall>(c, v) \<in> set (schedule_columns s (GetType (HttpCallback h)) (fst (GetDetails (HttpCallback h)))). r c = Some v"
    and unique: "\<forall>k' r'. tables db' ''schedules'' k' = Some r' \<longrightarrow> r' ''schedule_id'' = Some (VUuid (ScheduleId s)) \<longrightarrow> k' = k \<and> r' = r"
    by (rule created_row_unique [OF T assms(6)])
  let ?eqs = "[(''app_id'', VText (AppId s)), (''partition_id'', VInt (PartitionId s)),
    (''schedule_time_group'', millis (ScheduleGroup s)), (''schedule_id'', VUuid (ScheduleId s))]"
  have st: "deleteFromSchedule (as_stored s) = DeleteFrom ''schedules'' ?eqs" by (simp add: deleteFromSchedule_def as_stored_def)
  have T'': "tables db'' = apply_stmt (DeleteFrom ''schedules'' ?eqs) (tables db')" using exec_ok [OF exec] by (simp only: st)
  have "eq_matches ?eqs r" using r by (simp add: eq_matches_def schedule_columns_def)
  then have "absent (tables db'' ''schedules'') (ScheduleId s)"
    using unique unfolding T'' absent_def by (auto split: option.splits if_splits)
  moreover have "absent (tables db'' ''recurring_schedules_by_id'') (ScheduleId s)"
    using assms(7) by (simp add: T'' T upsert_frame)
  ultimately show ?thesis using del absent_is_not_found [OF assms(1,2)] by blast
qed

end

section \<open>Requests\<close>

definition post_request :: "string \<Rightarrow> http_request" where
  "post_request b = \<lparr>hq_Method = ''POST'', hq_Path = ''/goscheduler/schedules'', hq_Query = [], hq_Body = (b, None)\<rparr>"

definition schedule_request :: "string \<Rightarrow> string \<Rightarrow> http_request" where
  "schedule_request method u = \<lparr>hq_Method = method, hq_Path = ''/goscheduler/schedules/'' @ u, hq_Query = [], hq_Body = ([], None)\<rparr>"

definition answer :: "http_reply \<Rightarrow> http_response option" where
  "answer r = Some \<lparr>rp_Code = hr_Code r, rp_ContentType = [''application/json''], rp_Body = Json r\<rparr>"

lemma serve_routed:
  assumes "route route_table (hq_Method q) (hq_Path q) = Routed i vars"
    and "route_handler R W E a (snd (snd (registerHTTPHandlers ! i))) vars q = json_handler m" and "m st = (Ret r, st')"
  shows "ServeHTTP route R W E a q st = (Ret (answer r), st')"
  using assms by (simp add: ServeHTTP_def recovering_def responseMiddleware_def monitoringMiddleware_def json_handler_def bnd_def ret_def answer_def)

context mux_router
begin

lemma schedule_routes:
  "route route_table ''POST'' ''/goscheduler/schedules'' = Routed 1 []"
  "part u \<Longrightarrow> route route_table ''GET'' (''/goscheduler/schedules/'' @ u) = Routed 2 [(''scheduleId'', u)]"
  "part u \<Longrightarrow> route route_table ''DELETE'' (''/goscheduler/schedules/'' @ u) = Routed 8 [(''scheduleId'', u)]"
proof -
  have p: "split_on CHR ''/'' (''/goscheduler/schedules/'' @ u) = [[], ''goscheduler'', ''schedules'', u]" if "part u" for u
    using that by (simp add: part_def split_on_no_sep)
  have c: "clean ''/goscheduler/schedules''" "part u \<Longrightarrow> clean (''/goscheduler/schedules/'' @ u)"
    using p [of u] by (simp_all add: clean_def part_def)
  show "route route_table ''POST'' ''/goscheduler/schedules'' = Routed 1 []"
    by (simp add: is_search [OF c(1)] search_routes_parts route_parts) (simp add: route_parts_def)
  assume u: "part u"
  then have "u \<noteq> []" by (simp add: part_def)
  then show "route route_table ''GET'' (''/goscheduler/schedules/'' @ u) = Routed 2 [(''scheduleId'', u)]"
      "route route_table ''DELETE'' (''/goscheduler/schedules/'' @ u) = Routed 8 [(''scheduleId'', u)]"
    unfolding is_search [OF c(2) [OF u]] search_routes_parts route_parts p [OF u] by (simp_all add: route_parts_def)
qed

end

lemma schedule_handlers:
  "route_handler R W E a (snd (snd (registerHTTPHandlers ! 1))) [] (post_request b) = json_handler (Post W E a (Inr b))"
  "route_handler R W E a (snd (snd (registerHTTPHandlers ! 2))) [(''scheduleId'', u)] (schedule_request m u) = json_handler (Service_Get W E u)"
  "route_handler R W E a (snd (snd (registerHTTPHandlers ! 8))) [(''scheduleId'', u)] (schedule_request m u) = json_handler (CancelSchedule W E u)"
  by (simp_all add: registerHTTPHandlers_def route_handler_def post_request_def read_body_def get_value_def Let_def)

section \<open>The life of a schedule\<close>

text \<open>What the service makes of a valid one time schedule.\<close>

lemma SetFields_stored:
  assumes "8 \<le> length (str u)" and "Partitions app \<noteq> 0" and "0 \<le> ScheduleTime s" and "in64 (ScheduleTime s * 1000)"
  shows "\<exists>p. SetFields str u app s = Ret (s\<lparr>ScheduleId := u, PartitionId := p, ScheduleGroup := 60 * (ScheduleTime s div 60)\<rparr>) \<and>
    in64 (60 * (ScheduleTime s div 60) * 1000)"
proof -
  have g: "60 * (ScheduleTime s div 60) \<le> ScheduleTime s" "0 \<le> 60 * (ScheduleTime s div 60)" using assms(3) by simp_all
  then have "in64 (60 * (ScheduleTime s div 60) * 1000)" "in64 (60 * (ScheduleTime s div 60))" using assms(4) by (auto simp: in64_def)
  moreover from this(2) have "wrap64 (60 * (ScheduleTime s sdiv 60)) = 60 * (ScheduleTime s div 60)" using assms(3) by (simp add: sdiv_pos)
  ultimately show ?thesis using assms(1,2) by (auto simp: SetFields_def uuidToPartition_def BigEndian_Uint64_def)
qed

text \<open>A schedule that passes validation is not in the past, so without a status it counts as scheduled.\<close>

lemma valid_is_scheduled:
  assumes "ValidateSchedule now app conf s = Ret []" and "\<not> IsRecurring s" and "0 \<le> flush"
    and "ScheduleGroup s' = 60 * (ScheduleTime s div 60)"
  shows "SetUnknownStatus now flush s' = s'\<lparr>Status := Scheduled, ErrorMessage := []\<rparr>"
proof -
  have "Unix now \<le> ScheduleTime s"
    using assms(1,2)
    by (auto simp: ValidateSchedule_def validateCallback_def IsRecurring_def validateScheduleTime_def Let_def
        split: option.splits if_splits)
  moreover have "now < (Unix now + 1) * second" by (simp add: Unix_def second_def)
  moreover have "(Unix now + 1) * second \<le> (ScheduleTime s + 1) * second" using calculation(1) by (simp add: second_def)
  moreover have "ScheduleTime s + 1 - ScheduleGroup s' \<le> 60" using assms(4) by simp
  then have "(ScheduleTime s + 1 - ScheduleGroup s') * second \<le> 60 * second" by (intro mult_right_mono) (simp_all add: second_def)
  ultimately have "now - from_Unix (ScheduleGroup s') \<le> 60 * second" by (simp add: from_Unix_def left_diff_distrib)
  also have "60 * second \<le> (60 + flush) * second" using assms(3) by (simp add: second_def)
  finally show ?thesis by (simp add: SetUnknownStatus_def CheckUntriggeredCallback_def)
qed

lemma Service_getApp_active:
  assumes "GetApp E appId \<lparr>cl_DB = net_DB (sv_Net st), AppMap = mb_AppMap (members (sv_Net st) a)\<rparr> = ((app, None), c)"
    and "app_AppId app \<noteq> []" and "Active app"
  shows "\<exists>n. Service_getApp E a appId st = (Ret (app, None), st\<lparr>sv_Net := n\<rparr>) \<and> net_DB n = net_DB (sv_Net st)"
proof -
  obtain n where "at_node a (on_cluster (GetApp E appId)) (sv_Net st) = (Ret (app, None), n)" "net_DB n = cl_DB c"
    using on_cluster_effect [where f = "GetApp E appId", OF assms(1)] by blast
  then show ?thesis
    using assms(2,3) GetApp_keeps_DB [OF assms(1)]
    by (auto simp: Service_getApp_def cluster_dao_def on_net_def bnd_def ret_def)
qed

lemma Post_creates:
  assumes "Schedule_UnmarshalJSON (uuid_of_json W) (env_Registry E) b empty_schedule = (input, None)"
    and "GetApp E (AppId input) \<lparr>cl_DB = net_DB (sv_Net st), AppMap = mb_AppMap (members (sv_Net st) a)\<rparr> = ((app, None), c)"
    and "app_AppId app \<noteq> []" and "Active app"
    and "ValidateSchedule (env_Now E) app (AppLevelConfiguration (env_Conf E)) input = Ret []" and "\<not> IsRecurring input"
    and "SetFields (env_String E) (env_Fresh E (sv_Fresh st)) app input = Ret s" and "\<not> IsRecurring s"
    and "createOneTimeSchedule E s app (net_DB (sv_Net st)) = Ret ((s, None), db')"
  shows "\<exists>st'. Post W E a (Inr b) st = (Ret (success 201 Success_text 1 (ScheduleData s)), st') \<and> net_DB (sv_Net st') = db'"
proof -
  obtain n where n: "Service_getApp E a (AppId input) st = (Ret (app, None), st\<lparr>sv_Net := n\<rparr>)" "net_DB n = net_DB (sv_Net st)"
    using Service_getApp_active [OF assms(2-4)] by blast
  then show ?thesis
    using assms(1,5-9)
    by (simp add: Post_def Service_CreateSchedule_def store_schedule_def TimeUUID_def schedule_write_def CreateSchedule_def
        bnd_def lift_go_def ret_def respond_def)
qed

lemma Get_found:
  "ParseUUID W x = Inr u \<Longrightarrow> GetEnrichedSchedule E u (net_DB (sv_Net st)) = Ret (s, None) \<Longrightarrow>
     Service_Get W E x st = (Ret (success 200 Success_text 1 (ScheduleData s)), st)"
  by (simp add: Service_Get_def Service_GetSchedule_def schedule_read_def bnd_def ret_def fetch_result_def respond_def)

lemma Get_not_found:
  assumes "ParseUUID W x = Inr u" and "GetEnrichedSchedule E u (net_DB (sv_Net st)) = Ret (empty_schedule, Some ErrNotFound)"
  shows "\<exists>r. Service_Get W E x st = (Ret r, st) \<and> hr_Code r = 404"
  using assms by (simp add: Service_Get_def Service_GetSchedule_def schedule_read_def bnd_def ret_def fetch_result_def respond_def
      lift_go_def NewError_def Handle_def http_code_def)

lemma Delete_found:
  assumes "ParseUUID W x = Inr u" and "DeleteSchedule E u (net_DB (sv_Net st)) = Ret ((s, None), db')"
  shows "\<exists>st'. CancelSchedule W E x st = (Ret (success 200 Success_text 1 (ScheduleData s)), st') \<and> net_DB (sv_Net st') = db'"
  using assms by (simp add: CancelSchedule_def Service_DeleteSchedule_def schedule_write_def bnd_def ret_def fetch_result_def respond_def)

text \<open>
  C19. A schedule over HTTP: a client that posts a valid one time schedule of an active app gets it back with its identifier; a
  request for that identifier then answers with the stored schedule in the status \<open>Scheduled\<close>, a request to delete it answers with the
  schedule, and after that it is not found. This is for a schedule with an HTTP callback, with any router that chooses routes as
  documented, for an identifier that is new and whose text is read back, and as long as the database does not fail.
\<close>

theorem schedule_over_HTTP:
  assumes "cassandra sess tables rest pages_left" and "env_Session E = sess" and "reliable sess" and "mux_router route"
    and "Schedule_UnmarshalJSON (uuid_of_json W) (env_Registry E) b empty_schedule = (input, None)"
    and "GetApp E (AppId input) \<lparr>cl_DB = net_DB (sv_Net st), AppMap = mb_AppMap (members (sv_Net st) a)\<rparr> = ((app, None), c)"
    and "app_AppId app \<noteq> []" and "Active app" and "Partitions app \<noteq> 0" and "0 \<le> FlushPeriod (env_Conf E)"
    and "ValidateSchedule (env_Now E) app (AppLevelConfiguration (env_Conf E)) input = Ret []" and "\<not> IsRecurring input"
    and "storable (env_Registry E) input" and "0 \<le> ScheduleTime input" and "in64 (ScheduleTime input * 1000)"
    and "u = env_Fresh E (sv_Fresh st)" and "ParseUUID W (env_String E u) = Inr u" and "part (env_String E u)"
    and "8 \<le> length (env_String E u)"
    and "\<forall>t \<in> {''schedules'', ''status'', ''recurring_schedules_by_id''}. absent (tables (net_DB (sv_Net st)) t) u"
  shows "\<exists>s st1 st2 r.
    ServeHTTP route R W E a (post_request b) st = (Ret (answer (success 201 Success_text 1 (ScheduleData s))), st1) \<and>
    s = input\<lparr>ScheduleId := u, PartitionId := PartitionId s, ScheduleGroup := 60 * (ScheduleTime input div 60)\<rparr> \<and>
    ServeHTTP route R W E a (schedule_request ''GET'' (env_String E u)) st1 =
      (Ret (answer (success 200 Success_text 1 (ScheduleData ((as_stored s)\<lparr>Status := Scheduled\<rparr>)))), st1) \<and>
    ServeHTTP route R W E a (schedule_request ''DELETE'' (env_String E u)) st1 =
      (Ret (answer (success 200 Success_text 1 (ScheduleData (as_stored s)))), st2) \<and>
    ServeHTTP route R W E a (schedule_request ''GET'' (env_String E u)) st2 = (Ret (answer r), st2) \<and> hr_Code r = 404"
proof -
  obtain p where "SetFields (env_String E) u app input =
      Ret (input\<lparr>ScheduleId := u, PartitionId := p, ScheduleGroup := 60 * (ScheduleTime input div 60)\<rparr>)"
      "in64 (60 * (ScheduleTime input div 60) * 1000)"
    using SetFields_stored [of "env_String E" u app input, OF assms(19,9,14,15)] by blast
  moreover define s where "s = input\<lparr>ScheduleId := u, PartitionId := p, ScheduleGroup := 60 * (ScheduleTime input div 60)\<rparr>"
  ultimately have s: "SetFields (env_String E) u app input = Ret s" "in64 (ScheduleGroup s * 1000)" by simp_all
  have f: "ScheduleId s = u" "ScheduleTime s = ScheduleTime input" "storable (env_Registry E) s" "\<not> IsRecurring s"
    using assms(12,13) by (simp_all add: s_def storable_def IsRecurring_def)
  let ?db = "net_DB (sv_Net st)"
  obtain h z where cb: "Callback s = Some (HttpCallback h)" using f(3) by (rule storableE)
  then obtain err db' where create: "createOneTimeSchedule E s app ?db = Ret ((s, err), db')"
    using createOneTimeSchedule_returns [of s "HttpCallback h" E app ?db] by blast
  have "err = None"
    using create cb assms(2,3)
    by (auto simp: createOneTimeSchedule_def GetCallBackType_def GetCallbackDetails_def reliable_def split: prod.splits) (metis fst_conv)
  note create = create [unfolded this]
  have abs: "absent (tables ?db t) (ScheduleId s)" if "t \<in> {''schedules'', ''status'', ''recurring_schedules_by_id''}" for t
    using assms(20) that f(1) by auto
  obtain st1 where st1: "Post W E a (Inr b) st = (Ret (success 201 Success_text 1 (ScheduleData s)), st1)" "net_DB (sv_Net st1) = db'"
    using Post_creates [OF assms(5-8,11,12) s(1) [unfolded assms(16)] f(4) create] by blast
  have t: "in64 (ScheduleTime s * 1000)" using assms(15) f(2) by simp
  have "SetUnknownStatus (env_Now E) (FlushPeriod (env_Conf E)) (as_stored s) = (as_stored s)\<lparr>Status := Scheduled\<rparr>"
    by (subst valid_is_scheduled [OF assms(11,12,10)]) (simp_all add: as_stored_def s_def empty_schedule_def)
  then have get: "GetEnrichedSchedule E u db' = Ret ((as_stored s)\<lparr>Status := Scheduled\<rparr>, None)"
    using cassandra.created_is_enriched [OF assms(1), OF assms(2,3) f(3) s(2) t abs abs create] f(1) by simp
  obtain db'' where del: "DeleteSchedule E u db' = Ret ((as_stored s, None), db'')"
      "GetEnrichedSchedule E u db'' = Ret (empty_schedule, Some ErrNotFound)"
    using cassandra.created_is_deleted [OF assms(1), OF assms(2,3) f(3) s(2) t abs abs create] f(1) by auto
  obtain st2 where st2: "CancelSchedule W E (env_String E u) st1 = (Ret (success 200 Success_text 1 (ScheduleData (as_stored s))), st2)"
      "net_DB (sv_Net st2) = db''"
    using Delete_found [OF assms(17), of E st1 "as_stored s" db''] del(1) st1(2) by auto
  obtain r where r: "Service_Get W E (env_String E u) st2 = (Ret r, st2)" "hr_Code r = 404"
    using Get_not_found [OF assms(17), of E st2] del(2) st2(2) by auto
  note routes = mux_router.schedule_routes [OF assms(4)]
  note serve = serve_routed [OF _ schedule_handlers(1)] serve_routed [OF _ schedule_handlers(2)] serve_routed [OF _ schedule_handlers(3)]
  show ?thesis
    using serve(1) [of route b, OF _ st1(1)] serve(2) [of route "''GET''" "env_String E u", OF _ Get_found [OF assms(17)], of E st1]
      serve(3) [of route "''DELETE''" "env_String E u", OF _ st2(1)] serve(2) [of route "''GET''" "env_String E u", OF _ r(1)]
      routes(1) routes(2,3) [OF assms(18)] get st1(2) r(2)
    by (intro exI [of _ s] exI [of _ st1] exI [of _ st2] exI [of _ r]) (simp add: post_request_def schedule_request_def s_def)
qed

text \<open>A client that posts a schedule for the time 1000, at the time 900.\<close>

definition sample_body :: string where
  "sample_body = print_json (JObj [(''appId'', JStr ''app''), (''payload'', JStr ''p''), (''scheduleTime'', JNum (Itoa 1000)),
     (''callback'', show_callback (HttpCallback sample_http))])"

definition client_web :: web where
  "client_web =
     \<lparr>ParseUUID = (\<lambda>s. Inr (replicate 16 0)), uuid_of_json = (\<lambda>_. None),
      ParseInLocation = (\<lambda>s. Inl (Err ''time'')), show_time = (\<lambda>t. []), show_num_error = (\<lambda>s. [])\<rparr>"

definition sample_input :: Schedule where
  "sample_input = empty_schedule\<lparr>AppId := ''app'', Payload := ''p'', ScheduleTime := 1000,
     CallbackRaw := print_json (show_callback (HttpCallback sample_http)), Callback := Some (HttpCallback sample_http)\<rparr>"

lemma sample_body_read:
  "Schedule_UnmarshalJSON (\<lambda>_. None) [(''http'', HttpCallback zero_http)] sample_body empty_schedule = (sample_input, None)"
proof -
  let ?cb = "show_callback (HttpCallback sample_http)"
  have wf: "wf_json ?cb" by (simp add: show_callback_def)
  have "parse_json sample_body = Some (JObj [(''appId'', JStr ''app''), (''payload'', JStr ''p''), (''scheduleTime'', JNum (Itoa 1000)), (''callback'', ?cb)])"
    unfolding sample_body_def using wf by (intro parse_print_json) auto
  moreover have "parse_json (print_json ?cb) = Some ?cb" using wf by (rule parse_print_json)
  moreover have "print_json ?cb \<noteq> []" using length_print_json [of ?cb] wf by simp
  moreover have "type_of_json ?cb = (''http'', False)" "UnmarshalJSON_callback ?cb (HttpCallback zero_http) = (HttpCallback sample_http, False)"
    by code_simp+
  ultimately show ?thesis
    by (simp add: Schedule_UnmarshalJSON_def read_struct_JObj schedule_fields_def resolve_def put_schedule_def read_string_def Let_def in64_def
        unmarshal_callback_def sample_input_def del: print_json.simps)
qed

lemma sample_input_valid: "ValidateSchedule (900 * second) sample_app (AppLevelConfiguration defaultConfig) sample_input = Ret []"
  using sample_http_valid
  by (simp add: ValidateSchedule_def validateCallback_def sample_input_def validateField_def validatePayloadSize_def
      validateScheduleTime_def sample_defs defaultConfig_def GetMaxTTL_def Unix_def second_def in64_def)

theorem schedule_over_HTTP_witness:
  "\<exists>s st1 st2 r.
    ServeHTTP (search_routes 0 False) wide_ring client_web quiet_env ''n1'' (post_request sample_body) new_server =
      (Ret (answer (success 201 Success_text 1 (ScheduleData s))), st1) \<and>
    s = sample_input\<lparr>ScheduleId := replicate 16 0, PartitionId := PartitionId s, ScheduleGroup := 960\<rparr> \<and>
    ServeHTTP (search_routes 0 False) wide_ring client_web quiet_env ''n1'' (schedule_request ''GET'' (replicate 48 CHR ''0'')) st1 =
      (Ret (answer (success 200 Success_text 1 (ScheduleData ((as_stored s)\<lparr>Status := Scheduled\<rparr>)))), st1) \<and>
    ServeHTTP (search_routes 0 False) wide_ring client_web quiet_env ''n1'' (schedule_request ''DELETE'' (replicate 48 CHR ''0'')) st1 =
      (Ret (answer (success 200 Success_text 1 (ScheduleData (as_stored s)))), st2) \<and>
    ServeHTTP (search_routes 0 False) wide_ring client_web quiet_env ''n1'' (schedule_request ''GET'' (replicate 48 CHR ''0'')) st2 =
      (Ret (answer r), st2) \<and> hr_Code r = 404"
proof -
  have env: "env_Session quiet_env = quiet_session" "env_Conf quiet_env = defaultConfig" "env_Now quiet_env = 900 * second"
      "env_Registry quiet_env = [(''http'', HttpCallback zero_http)]"
    by (simp_all add: quiet_env_def quiet_session_def sample_env_def)
  have u: "replicate 16 0 = env_Fresh quiet_env (sv_Fresh new_server)"
    by (simp add: quiet_env_def sample_env_def new_server_def numeral_eq_Suc)
  have str: "env_String quiet_env (replicate 16 0) = replicate 48 CHR ''0''"
    by (simp add: quiet_env_def sample_env_def) code_simp
  have app: "GetApp quiet_env (AppId sample_input) \<lparr>cl_DB = net_DB (sv_Net new_server),
      AppMap = mb_AppMap (members (sv_Net new_server) ''n1'')\<rparr> = ((sample_app, None), \<lparr>cl_DB = empty_mem, AppMap = [(''app'', sample_app)]\<rparr>)"
    by (simp add: GetApp_def check_def new_server_def sample_net_def sample_input_def)
  have rest: "app_AppId sample_app \<noteq> []" "Active sample_app" "Partitions sample_app \<noteq> 0" "0 \<le> FlushPeriod (env_Conf quiet_env)"
      "\<not> IsRecurring sample_input" "storable (env_Registry quiet_env) sample_input" "0 \<le> ScheduleTime sample_input"
      "in64 (ScheduleTime sample_input * 1000)"
    by (simp_all add: env sample_input_def sample_defs defaultConfig_def IsRecurring_def storable_def wf_headers_def in64_def)
  have web: "ParseUUID client_web (env_String quiet_env (replicate 16 0)) = Inr (replicate 16 0)" by (simp add: client_web_def)
  have seg: "part (env_String quiet_env (replicate 16 0))" "8 \<le> length (env_String quiet_env (replicate 16 0))"
    unfolding str by (simp_all add: part_def numeral_eq_Suc)
  have new: "\<forall>t \<in> {''schedules'', ''status'', ''recurring_schedules_by_id''}. absent (mem_tables (net_DB (sv_Net new_server)) t) (replicate 16 0)"
    by (simp add: absent_def mem_tables_def new_server_def sample_net_def empty_mem_def)
  have body: "Schedule_UnmarshalJSON (uuid_of_json client_web) (env_Registry quiet_env) sample_body empty_schedule = (sample_input, None)"
    using sample_body_read by (simp add: env client_web_def)
  have valid: "ValidateSchedule (env_Now quiet_env) sample_app (AppLevelConfiguration (env_Conf quiet_env)) sample_input = Ret []"
    using sample_input_valid by (simp add: env)
  have "60 * (ScheduleTime sample_input div 60) = 960" by (simp add: sample_input_def)
  with schedule_over_HTTP [where tables = mem_tables and st = new_server and E = quiet_env and u = "replicate 16 0" and W = client_web, OF quiet_session_laws env(1) quiet_reliable table_router.mux_router_axioms body app rest(1-4) valid rest(5-8) u web
      seg new, of wide_ring]
  show ?thesis by (simp only: str)
qed

end
