(* ===== verification/NodeConfig.thy ===== *)
theory NodeConfig
  imports Environment
begin

text \<open>
  The configuration of a node (src/conf/config.go): its records, the defaults, the options that change them, the flags of the
  command line and the file. The components read the part that \<open>conf_of\<close> picks out. The library
  configor, which reads the file and fills a record with it, is a parameter. Consistency levels of gocql are kept
  by name.
\<close>

section \<open>Records\<close>

record ClusterConfig =
  ClusterName :: string
  cc_Address :: string
  TChannelPort :: string
  BootStrapServers :: "string list"
  JoinSize :: int64
  Log_Enable :: bool
  ReplicaPoints :: int64

record ConnectionPool =
  InitialConnectTimeout :: int64
  ConnectTimeout :: int64
  MaxNumConnections :: int64

record CassandraConfig =
  PageSize :: int64
  NumRetry :: int64
  Hosts :: string
  Consistency :: string
  DataCenter :: string
  ConnectionPool_of :: ConnectionPool

record ClusterDBConfig =
  ClusterKeySpace :: string
  cd_DBConfig :: CassandraConfig
  cd_EntityHistorySize :: int64

record ScheduleDBConfig =
  ScheduleKeySpace :: string
  ScheduleTableName :: string
  sd_DBConfig :: CassandraConfig

record PollerConfig =
  Interval :: int64
  pc_DefaultCount :: "32 word"
  pc_MaxQueryLimit :: int64

record StatsdConfig =
  sc_Enabled :: bool
  sc_Address :: string
  sc_Prefix :: string

record HttpConnectorConfig =
  hc_Routines :: int64
  MaxRetry :: int64
  TimeoutMillis :: int64

record CronConfig =
  cr_App :: string
  cr_Window :: int64
  cr_Routines :: int64

record AggregateSchedulesConfig =
  as_BufferSize :: int64
  as_Routines :: int64
  as_BatchSize :: int64
  as_FlushPeriod :: int64

record NodeCrashReconcile =
  NeedsReconcile :: bool
  ReconcileOffset :: int64

record BulkActionConfig =
  ba_BufferSize :: int64
  ba_Routines :: int64

record DCConfig =
  dc_Prefix :: string
  dc_Location :: string

text \<open>
  \<^verbatim>\<open>conf.Configuration\<close>. Its app level configuration has the five values of the record
  \<open>Configuration\<close> of the store.
\<close>

record Config =
  HttpPort :: string
  ConfigFile :: string
  SchemaPath :: string
  Cluster :: ClusterConfig
  ClusterDB :: ClusterDBConfig
  ScheduleDB :: ScheduleDBConfig
  cfg_Poller :: PollerConfig
  Statsd :: "StatsdConfig option"
  cfg_HttpConnector :: HttpConnectorConfig
  cfg_CronConfig :: CronConfig
  StatusUpdate_Routines :: int64
  cfg_AggregateSchedules :: AggregateSchedulesConfig
  cfg_NodeCrashReconcile :: NodeCrashReconcile
  cfg_BulkAction :: BulkActionConfig
  cfg_AppLevel :: Configuration
  cfg_DC :: DCConfig

definition GetAddress :: "string \<Rightarrow> string \<Rightarrow> string" where
  "GetAddress host port = host @ '':'' @ port"

section \<open>Defaults and options\<close>

definition default_db :: CassandraConfig where
  "default_db =
     \<lparr>PageSize = 1000, NumRetry = 3, Hosts = ''127.0.0.1'', Consistency = ''ONE'', DataCenter = [],
      ConnectionPool_of = \<lparr>InitialConnectTimeout = 1000, ConnectTimeout = 5000, MaxNumConnections = 4\<rparr>\<rparr>"

definition default_Config :: Config where
  "default_Config =
     \<lparr>HttpPort = ''8080'', ConfigFile = ''./conf/conf.json'', SchemaPath = ''/src/goscheduler/cassandra/cassandra.cql'',
      Cluster = \<lparr>ClusterName = ''goscheduler'', cc_Address = ''127.0.0.1:9091'', TChannelPort = ''9091'',
        BootStrapServers = [''127.0.0.1:9091''], JoinSize = 1, Log_Enable = False, ReplicaPoints = 2\<rparr>,
      ClusterDB = \<lparr>ClusterKeySpace = ''cluster'', cd_DBConfig = default_db, cd_EntityHistorySize = 5\<rparr>,
      ScheduleDB = \<lparr>ScheduleKeySpace = ''schedule_management'', ScheduleTableName = [], sd_DBConfig = default_db\<rparr>,
      cfg_Poller = \<lparr>Interval = 60, pc_DefaultCount = 5, pc_MaxQueryLimit = 4\<rparr>,
      Statsd = None,
      cfg_HttpConnector = \<lparr>hc_Routines = 10, MaxRetry = 3, TimeoutMillis = 1000\<rparr>,
      cfg_CronConfig = \<lparr>cr_App = ''Athena'', cr_Window = 5, cr_Routines = 10\<rparr>,
      StatusUpdate_Routines = 5,
      cfg_AggregateSchedules = \<lparr>as_BufferSize = 1000, as_Routines = 5, as_BatchSize = 10, as_FlushPeriod = 60\<rparr>,
      cfg_NodeCrashReconcile = \<lparr>NeedsReconcile = True, ReconcileOffset = 3\<rparr>,
      cfg_BulkAction = \<lparr>ba_BufferSize = 1000, ba_Routines = 10\<rparr>,
      cfg_AppLevel = \<lparr>FutureScheduleCreationPeriod = 7, FiredScheduleRetentionPeriod = 1, PayloadSize = 1024,
        HttpRetries = 1, HttpTimeout = 1000\<rparr>,
      cfg_DC = \<lparr>dc_Prefix = [], dc_Location = ''Local''\<rparr>\<rparr>"

type_synonym option_fn = "Config \<Rightarrow> Config"

definition WithHTTPPort :: "string \<Rightarrow> option_fn" where
  "WithHTTPPort port c = c\<lparr>HttpPort := port\<rparr>"

definition WithConfigFile :: "string \<Rightarrow> option_fn" where
  "WithConfigFile configFile c = c\<lparr>ConfigFile := configFile\<rparr>"

definition WithSchemaPath :: "string \<Rightarrow> option_fn" where
  "WithSchemaPath schemaPath c = c\<lparr>SchemaPath := schemaPath\<rparr>"

definition WithClusterConfig :: "ClusterConfig \<Rightarrow> option_fn" where
  "WithClusterConfig clusterConfig c = c\<lparr>Cluster := clusterConfig\<rparr>"

definition WithClusterDB :: "ClusterDBConfig \<Rightarrow> option_fn" where
  "WithClusterDB clusterDB c = c\<lparr>ClusterDB := clusterDB\<rparr>"

definition WithScheduleDB :: "ScheduleDBConfig \<Rightarrow> option_fn" where
  "WithScheduleDB scheduleDB c = c\<lparr>ScheduleDB := scheduleDB\<rparr>"

definition WithPoller :: "PollerConfig \<Rightarrow> option_fn" where
  "WithPoller poller c = c\<lparr>cfg_Poller := poller\<rparr>"

definition WithMonitoringConfig :: "StatsdConfig option \<Rightarrow> option_fn" where
  "WithMonitoringConfig monitoringConfig c = c\<lparr>Statsd := monitoringConfig\<rparr>"

definition WithHttpConnectorConfig :: "HttpConnectorConfig \<Rightarrow> option_fn" where
  "WithHttpConnectorConfig httpConnectorConfig c = c\<lparr>cfg_HttpConnector := httpConnectorConfig\<rparr>"

definition WithCronConfig :: "CronConfig \<Rightarrow> option_fn" where
  "WithCronConfig cronConfig c = c\<lparr>cfg_CronConfig := cronConfig\<rparr>"

definition WithStatusUpdateConfig :: "int64 \<Rightarrow> option_fn" where
  "WithStatusUpdateConfig routines c = c\<lparr>StatusUpdate_Routines := routines\<rparr>"

definition WithUpdateStatusConfig :: "int64 \<Rightarrow> option_fn" where
  "WithUpdateStatusConfig routines c = c\<lparr>StatusUpdate_Routines := routines\<rparr>"

definition WithAggregateSchedulesConfig :: "AggregateSchedulesConfig \<Rightarrow> option_fn" where
  "WithAggregateSchedulesConfig aggregateSchedulesConfig c = c\<lparr>cfg_AggregateSchedules := aggregateSchedulesConfig\<rparr>"

definition WithNodeCrashReconcileConfig :: "NodeCrashReconcile \<Rightarrow> option_fn" where
  "WithNodeCrashReconcileConfig reconcile c = c\<lparr>cfg_NodeCrashReconcile := reconcile\<rparr>"

definition WithBulkActionConfig :: "BulkActionConfig \<Rightarrow> option_fn" where
  "WithBulkActionConfig bulkActionConfig c = c\<lparr>cfg_BulkAction := bulkActionConfig\<rparr>"

definition WithAppLevelConfiguration :: "Configuration \<Rightarrow> option_fn" where
  "WithAppLevelConfiguration appLevelConfiguration c = c\<lparr>cfg_AppLevel := appLevelConfiguration\<rparr>"

definition WithDCConfiguration :: "DCConfig \<Rightarrow> option_fn" where
  "WithDCConfiguration dcConfig c = c\<lparr>cfg_DC := dcConfig\<rparr>"

definition NewConfig :: "option_fn list \<Rightarrow> Config" where
  "NewConfig opts = fold (\<lambda>opt config. opt config) opts default_Config"

text \<open>What the components read.\<close>

definition conf_of :: "Config \<Rightarrow> conf" where
  "conf_of c =
     \<lparr>AppLevelConfiguration = cfg_AppLevel c, FlushPeriod = as_FlushPeriod (cfg_AggregateSchedules c),
      AggregateBatchSize = as_BatchSize (cfg_AggregateSchedules c), MaxQueryLimit = pc_MaxQueryLimit (cfg_Poller c),
      CronApp = cr_App (cfg_CronConfig c), CronWindow = cr_Window (cfg_CronConfig c), DefaultCount = pc_DefaultCount (cfg_Poller c),
      Address = cc_Address (Cluster c), EntityHistorySize = cd_EntityHistorySize (ClusterDB c), DCPrefix = dc_Prefix (cfg_DC c),
      ScheduleDBPageSize = PageSize (sd_DBConfig (ScheduleDB c))\<rparr>"

section \<open>The command line\<close>

text \<open>
  \<^verbatim>\<open>flag.Parse\<close>: the flags of this package have a value, those that other packages define (glog has some) are
  boolean or have a value, and may refuse it. The result is the list of flags with their values in order. An
  error ends the process.
\<close>

datatype flag_kind = ValueFlag "string \<Rightarrow> bool" | BoolFlag "string \<Rightarrow> bool"

text \<open>The name of a flag and the value after its first equals sign; the first character is part of the name.\<close>

definition split_flag :: "string \<Rightarrow> string \<times> string option" where
  "split_flag name =
     (let w = takeWhile (\<lambda>c. c \<noteq> CHR ''='') (tl name) in
      (hd name # w, if w = tl name then None else Some (drop (length w + 1) (tl name))))"

definition flag_name :: "string \<Rightarrow> string" where
  "flag_name s = (if s ! 1 = CHR ''-'' then drop 2 s else drop 1 s)"

function parse_flags :: "(string \<times> flag_kind) list \<Rightarrow> string list \<Rightarrow> (string \<times> string) list go" where
  "parse_flags formal [] = Ret []"
| "parse_flags formal (s # args) =
     (if length s < 2 \<or> hd s \<noteq> CHR ''-'' \<or> s = ''--'' then Ret []
      else
        (let name = flag_name s in
         if name = [] \<or> hd name \<in> {CHR ''-'', CHR ''=''} then Fatal
         else
           (case split_flag name of (n, v) \<Rightarrow>
              (case map_of formal n of
                 None \<Rightarrow> Fatal
               | Some (BoolFlag ok) \<Rightarrow>
                   (let value = (case v of Some x \<Rightarrow> x | None \<Rightarrow> ''true'') in
                    if \<not> ok value then Fatal else bind_go (parse_flags formal args) (\<lambda>r. Ret ((n, value) # r)))
               | Some (ValueFlag ok) \<Rightarrow>
                   (case v of
                      Some value \<Rightarrow>
                        if \<not> ok value then Fatal else bind_go (parse_flags formal args) (\<lambda>r. Ret ((n, value) # r))
                    | None \<Rightarrow>
                        (case args of
                           [] \<Rightarrow> Fatal
                         | value # args' \<Rightarrow>
                             if \<not> ok value then Fatal else bind_go (parse_flags formal args') (\<lambda>r. Ret ((n, value) # r))))))))"
  by pat_completeness auto
termination
  by (relation "measure (\<lambda>(formal, args). length args)") auto

declare parse_flags.simps [simp del]

text \<open>A flag that is given several times has its last value.\<close>

definition flag_value :: "(string \<times> string) list \<Rightarrow> string \<Rightarrow> string \<Rightarrow> string" where
  "flag_value given n dflt = (case map_of (rev given) n of Some v \<Rightarrow> v | None \<Rightarrow> dflt)"

definition own_flags :: "(string \<times> flag_kind) list" where
  "own_flags = map (\<lambda>n. (n, ValueFlag (\<lambda>_. True))) [''conf'', ''p'', ''h'']"

text \<open>
  \<^verbatim>\<open>ParseFlags\<close>, with the value of \<^verbatim>\<open>GOPATH\<close> and the flags of other packages, which have other names
  (the same name twice would be a panic of \<^verbatim>\<open>flag\<close>).
\<close>

definition ParseFlags :: "string \<Rightarrow> (string \<times> flag_kind) list \<Rightarrow> string list \<Rightarrow> (string \<times> string \<times> string) go" where
  "ParseFlags gopath others args =
     bind_go (parse_flags (own_flags @ others) args) (\<lambda>given.
       let port = flag_value given ''p'' ''9091'' in
       Ret (flag_value given ''conf'' (gopath @ ''/src/goscheduler/conf/conf.json''), port,
            flag_value given ''h'' ''127.0.0.1'' @ '':'' @ port))"

section \<open>The file\<close>

text \<open>An environment variable that is not set is the empty text.\<close>

definition getHttpPortFromEnv :: "(string \<Rightarrow> string) \<Rightarrow> string" where
  "getHttpPortFromEnv getenv = (let httpPort = getenv ''PORT'' in if httpPort = [] then ''8080'' else httpPort)"

definition LoadConfig :: "(string \<Rightarrow> go_error + Config) \<Rightarrow> string \<Rightarrow> Config go" where
  "LoadConfig load confFile = (case load confFile of Inl err \<Rightarrow> Fatal | Inr config \<Rightarrow> Ret config)"

definition InitConfig :: "(string \<Rightarrow> string) \<Rightarrow> (string \<Rightarrow> go_error + Config) \<Rightarrow> string \<Rightarrow> string \<Rightarrow> string \<Rightarrow> Config go" where
  "InitConfig getenv load confFile port address =
     (let httpPort = getHttpPortFromEnv getenv in
      bind_go (LoadConfig load confFile) (\<lambda>config.
        Ret (config\<lparr>HttpPort := httpPort, Cluster := (Cluster config)\<lparr>TChannelPort := port, cc_Address := address\<rparr>\<rparr>)))"

section \<open>What the configuration is\<close>

text \<open>Without options the components read the defaults.\<close>

lemma conf_of_default: "conf_of (NewConfig []) = defaultConfig"
  by (simp add: NewConfig_def default_Config_def conf_of_def defaultConfig_def default_db_def)

text \<open>Arguments that give values to flags, each in one of the two forms \<^verbatim>\<open>-name value\<close> and \<^verbatim>\<open>--name=value\<close>.\<close>

fun flag_args :: "(bool \<times> string \<times> string) list \<Rightarrow> string list" where
  "flag_args [] = []"
| "flag_args ((joined, n, v) # fs) = (if joined then [''--'' @ n @ ''='' @ v] else [''-'' @ n, v]) @ flag_args fs"

definition wf_flag :: "(string \<times> flag_kind) list \<Rightarrow> string \<Rightarrow> string \<Rightarrow> bool" where
  "wf_flag formal n v \<longleftrightarrow>
     n \<noteq> [] \<and> hd n \<notin> {CHR ''-'', CHR ''=''} \<and> CHR ''='' \<notin> set n \<and>
     (case map_of formal n of Some (ValueFlag ok) \<Rightarrow> ok v | _ \<Rightarrow> False)"

lemma takeWhile_no_sep: "CHR ''='' \<notin> set w \<Longrightarrow> takeWhile (\<lambda>c. c \<noteq> CHR ''='') w = w"
  "CHR ''='' \<notin> set w \<Longrightarrow> takeWhile (\<lambda>c. c \<noteq> CHR ''='') (w @ CHR ''='' # v) = w"
  by (induction w) auto

lemma split_flag_name: "n \<noteq> [] \<Longrightarrow> CHR ''='' \<notin> set n \<Longrightarrow> split_flag n = (n, None)"
  by (cases n) (simp_all add: split_flag_def takeWhile_no_sep Let_def)

lemma split_flag_value: "n \<noteq> [] \<Longrightarrow> CHR ''='' \<notin> set n \<Longrightarrow> split_flag (n @ CHR ''='' # v) = (n, Some v)"
  by (cases n) (simp_all add: split_flag_def takeWhile_no_sep Let_def)

text \<open>The flags are read back from the arguments, in both forms.\<close>

lemma parse_flag_args:
  "list_all (\<lambda>(joined, n, v). wf_flag formal n v) fs \<Longrightarrow> parse_flags formal (flag_args fs) = Ret (map snd fs)"
proof (induction fs rule: flag_args.induct)
  case (2 joined n v fs)
  then have n: "n \<noteq> []" "hd n \<noteq> CHR ''-''" "hd n \<noteq> CHR ''=''" "CHR ''='' \<notin> set n" and ok: "wf_flag formal n v"
    and ih: "parse_flags formal (flag_args fs) = Ret (map snd fs)"
    by (auto simp: wf_flag_def)
  obtain okv where f: "map_of formal n = Some (ValueFlag okv)" "okv v"
    using ok by (auto simp: wf_flag_def split: option.splits flag_kind.splits)
  have one: "''-'' @ n \<noteq> ''--''" "flag_name (''-'' @ n) = n" "2 \<le> length (''-'' @ n)"
    using n(1,2) by (cases n; auto simp: flag_name_def Suc_le_eq)+
  show ?case
  proof (cases joined)
    case True
    then show ?thesis using n f ih by (simp add: parse_flags.simps flag_name_def split_flag_value Let_def)
  next
    case False
    then show ?thesis using n f ih one by (simp add: parse_flags.simps split_flag_name Let_def)
  qed
qed (simp add: parse_flags.simps)

text \<open>
  The port, the host and the file are those of the last flag that gives them, however it is written; a flag that is
  missing has its default.
\<close>

theorem ParseFlags_values:
  assumes "list_all (\<lambda>(joined, n, v). wf_flag (own_flags @ others) n v) fs"
  shows "ParseFlags gopath others (flag_args fs) =
    (let given = map snd fs; port = flag_value given ''p'' ''9091'' in
     Ret (flag_value given ''conf'' (gopath @ ''/src/goscheduler/conf/conf.json''), port,
          GetAddress (flag_value given ''h'' ''127.0.0.1'') port))"
  using parse_flag_args [OF assms] by (simp add: ParseFlags_def GetAddress_def Let_def)

text \<open>
  The comment of \<^verbatim>\<open>InitConfig\<close> has the values overridden if they are provided as arguments. They are always
  overridden: the HTTP port, the port of TChannel and the address of the file have no effect, also when
  neither flags nor the variable \<^verbatim>\<open>PORT\<close> are given.
\<close>

theorem InitConfig_ignores_file:
  assumes "load confFile = Inr config"
    and "load' confFile = Inr (config\<lparr>HttpPort := hp, Cluster := (Cluster config)\<lparr>TChannelPort := tp, cc_Address := ad\<rparr>\<rparr>)"
  shows "InitConfig getenv load confFile port address = InitConfig getenv load' confFile port address \<and>
    (\<exists>c. InitConfig getenv load confFile port address = Ret c \<and> HttpPort c = getHttpPortFromEnv getenv \<and>
       TChannelPort (Cluster c) = port \<and> Address (conf_of c) = address)"
  using assms by (simp add: InitConfig_def LoadConfig_def conf_of_def Let_def)

theorem InitConfig_ignores_file_witness:
  "\<exists>c. InitConfig (\<lambda>_. []) (\<lambda>_. Inr (default_Config\<lparr>HttpPort := ''80''\<rparr>)) ''f'' ''9091'' ''127.0.0.1:9091'' = Ret c \<and> HttpPort c = ''8080''"
proof -
  let ?c = "default_Config\<lparr>HttpPort := ''80''\<rparr>"
  let ?load = "\<lambda>_ :: string. Inr ?c :: go_error + Config" and ?load' = "\<lambda>_ :: string. Inr default_Config :: go_error + Config"
  have "?load' ''f'' = Inr (?c\<lparr>HttpPort := ''8080'',
      Cluster := (Cluster ?c)\<lparr>TChannelPort := ''9091'', cc_Address := ''127.0.0.1:9091''\<rparr>\<rparr>)"
    by (simp add: default_Config_def)
  from InitConfig_ignores_file [where load = ?load and load' = ?load' and confFile = "''f''", OF refl this, of "\<lambda>_. []" "''9091''" "''127.0.0.1:9091''"]
  obtain c where "InitConfig (\<lambda>_. []) ?load ''f'' ''9091'' ''127.0.0.1:9091'' = Ret c" "HttpPort c = getHttpPortFromEnv (\<lambda>_. [])"
    by blast
  then show ?thesis by (auto simp: getHttpPortFromEnv_def)
qed

end
