(* ===== verification/Startup.thy ===== *)
theory Startup
  imports NodeConfig Service
begin

text \<open>
  How a node starts and stops: the schema and the sessions of Cassandra (src/cassandra/cassandra.go), the channels of the
  tasks (src/store/task.go), the pools of workers (src/connectors), ringpop (\<^verbatim>\<open>InitRingPop\<close> of src/cluster/supervisor.go), the
  order in which all this happens (src/scheduler/scheduler.go) and the program itself (src/run.go). What the libraries and
  the operating system answer is the record \<open>outside\<close>.
\<close>

section \<open>What comes from outside\<close>

text \<open>The settings of a connection to Cassandra that the sources make; the policy of hosts is that of a data centre, if one is given.\<close>

record ClusterSettings =
  cs_Hosts :: "string list"
  cs_Keyspace :: string
  cs_Consistency :: string
  cs_Timeout :: int64
  cs_ConnectTimeout :: int64
  cs_NumConns :: int64
  cs_DCAware :: "string option"

text \<open>
  Files and environment variables; the creation of a session; the reporter of statistics; TChannel and ringpop, each with
  its error if it fails; and the ring that ringpop then keeps.
\<close>

record 'db outside =
  ReadFile :: "string \<Rightarrow> go_error + string"
  Getenv :: "string \<Rightarrow> string"
  CreateSession :: "ClusterSettings \<Rightarrow> go_error option"
  statsd_New :: "string \<Rightarrow> string \<Rightarrow> go_error option"
  NewChannel :: "string \<Rightarrow> go_error option"
  ringpop_New :: "string \<Rightarrow> string \<Rightarrow> int64 \<Rightarrow> go_error option"
  ListenAndServe :: "string \<Rightarrow> go_error option"
  Bootstrap :: "string list \<Rightarrow> int64 \<Rightarrow> go_error option"
  json_Register :: "string list \<Rightarrow> go_error option"
  WhoAmI :: "go_error + string"
  the_ring :: "'db ringpop"

text \<open>
  A step of the start that other components can notice: a channel of tasks with its capacity, a worker of a pool, the
  steps of ringpop, and the HTTP server.
\<close>

datatype started =
    Channel string nat
  | Worker string
  | ChannelCreated string
  | RingCreated string
  | Listening string
  | ListenerAdded
  | Bootstrapped "string list"
  | HandlersRegistered "string list"
  | AddressKnown string
  | Serving string
  | RingDestroyed
  | ChannelClosed

record 'db process =
  ps_Net :: "'db net"
  ps_Registry :: registry
  ps_Started :: "started list"

definition note_step :: "started \<Rightarrow> ('db process, unit) io" where
  "note_step s st = (Ret (), st\<lparr>ps_Started := ps_Started st @ [s]\<rparr>)"

text \<open>A call that panics with a text made of its error.\<close>

definition or_panic :: "go_error option \<Rightarrow> (go_error \<Rightarrow> string) \<Rightarrow> ('db process, unit) io" where
  "or_panic err msg = (case err of Some e \<Rightarrow> lift_go (Panic (msg e)) | None \<Rightarrow> ret ())"

section \<open>Cassandra\<close>

definition getCassandraHosts :: "string \<Rightarrow> string list" where
  "getCassandraHosts cassandraHosts = split_on CHR '','' cassandraHosts"

definition withPool :: "ClusterSettings \<Rightarrow> CassandraConfig \<Rightarrow> ClusterSettings" where
  "withPool cluster config = (if length (DataCenter config) \<noteq> 0 then cluster\<lparr>cs_DCAware := Some (DataCenter config)\<rparr> else cluster)"

definition milliseconds :: "int64 \<Rightarrow> int64" where
  "milliseconds n = wrap64 (n * 10 ^ 6)"

definition cluster_settings :: "CassandraConfig \<Rightarrow> string \<Rightarrow> ClusterSettings" where
  "cluster_settings cassandraConfig keyspace =
     withPool
       \<lparr>cs_Hosts = getCassandraHosts (Hosts cassandraConfig), cs_Keyspace = keyspace, cs_Consistency = Consistency cassandraConfig,
        cs_Timeout = milliseconds (InitialConnectTimeout (ConnectionPool_of cassandraConfig)),
        cs_ConnectTimeout = milliseconds (ConnectTimeout (ConnectionPool_of cassandraConfig)),
        cs_NumConns = MaxNumConnections (ConnectionPool_of cassandraConfig), cs_DCAware = None\<rparr>
       cassandraConfig"

definition GetSession :: "'db outside \<Rightarrow> CassandraConfig \<Rightarrow> string \<Rightarrow> go_error option" where
  "GetSession O' cassandraConfig keyspace = CreateSession O' (cluster_settings cassandraConfig keyspace)"

definition GetSessionInterface :: "'db outside \<Rightarrow> CassandraConfig \<Rightarrow> string \<Rightarrow> go_error option" where
  "GetSessionInterface O' cassandraConfig keyspace = CreateSession O' (cluster_settings cassandraConfig keyspace)"

text \<open>\<^verbatim>\<open>strings.SplitAfter\<close> with a separator of one character, and \<^verbatim>\<open>strings.Trim\<close>.\<close>

fun split_after :: "char \<Rightarrow> string \<Rightarrow> string list" where
  "split_after c [] = [[]]"
| "split_after c (x # xs) =
     (if x = c then [x] # split_after c xs
      else (case split_after c xs of w # ws \<Rightarrow> (x # w) # ws | [] \<Rightarrow> [[x]]))"

definition trim_chars :: "string \<Rightarrow> string \<Rightarrow> string" where
  "trim_chars cs s = rev (dropWhile (\<lambda>c. c \<in> set cs) (rev (dropWhile (\<lambda>c. c \<in> set cs) s)))"

definition cql_statements :: "string \<Rightarrow> string list" where
  "cql_statements bytes = filter (\<lambda>s. s \<noteq> []) (map (trim_chars [CHR 0x0D, CHR 0x0A]) (split_after CHR '';'' bytes))"

fun exec_statements :: "'db session \<Rightarrow> string list \<Rightarrow> ('db, unit) io" where
  "exec_statements sess [] = ret ()"
| "exec_statements sess (s # ss) =
     (\<lambda>db. case ExecText sess s db of
              (Some err, db') \<Rightarrow> (Panic (''CQL execution failed with  '' @ Error err), db')
            | (None, db') \<Rightarrow> exec_statements sess ss db')"

definition on_db :: "('db, 'a) io \<Rightarrow> ('db process, 'a) io" where
  "on_db f st = (case f (net_DB (ps_Net st)) of (x, db) \<Rightarrow> (x, st\<lparr>ps_Net := (ps_Net st)\<lparr>net_DB := db\<rparr>\<rparr>))"

definition CassandraInit :: "'db outside \<Rightarrow> 'db env \<Rightarrow> CassandraConfig \<Rightarrow> string \<Rightarrow> ('db process, unit) io" where
  "CassandraInit O' E cassandraConfig initFile =
     bnd (or_panic (GetSessionInterface O' cassandraConfig []) (\<lambda>e. ''GetSession failed with error '' @ Error e)) (\<lambda>_.
       case ReadFile O' initFile of
         Inl e \<Rightarrow> lift_go (Panic (''ReadFile '' @ initFile @ '' failed with error '' @ Error e))
       | Inr bytes \<Rightarrow> on_db (exec_statements (env_Session E) (cql_statements bytes)))"

text \<open>\<^verbatim>\<open>%+v\<close> of the configuration of a database.\<close>

definition show_db_config :: "CassandraConfig \<Rightarrow> string" where
  "show_db_config c =
     ''{PageSize:'' @ Itoa (CassandraConfig.PageSize c) @ '' NumRetry:'' @ Itoa (NumRetry c) @ '' Hosts:'' @ Hosts c @ '' Consistency:'' @ Consistency c @
     '' DataCenter:'' @ DataCenter c @ '' ConnectionPool:{InitialConnectTimeout:'' @ Itoa (InitialConnectTimeout (ConnectionPool_of c)) @
     '' ConnectTimeout:'' @ Itoa (ConnectTimeout (ConnectionPool_of c)) @ '' MaxNumConnections:'' @ Itoa (MaxNumConnections (ConnectionPool_of c)) @ ''}}''"

definition GetClusterDaoImpl :: "'db outside \<Rightarrow> Config \<Rightarrow> ('db process, unit) io" where
  "GetClusterDaoImpl O' conf =
     or_panic (GetSessionInterface O' (cd_DBConfig (ClusterDB conf)) (ClusterKeySpace (ClusterDB conf)))
       (\<lambda>e. ''Cassandra initialisation failed for configuration: '' @ show_db_config (cd_DBConfig (ClusterDB conf)) @ '' with error '' @ Error e)"

definition GetScheduleDaoImpl :: "'db outside \<Rightarrow> Config \<Rightarrow> ('db process, unit) io" where
  "GetScheduleDaoImpl O' conf =
     or_panic (GetSessionInterface O' (sd_DBConfig (ScheduleDB conf)) (ScheduleKeySpace (ScheduleDB conf)))
       (\<lambda>e. ''Cassandra initialisation failed for configuration: '' @ show_db_config (sd_DBConfig (ScheduleDB conf)) @ '' with error '' @ Error e)"

section \<open>Channels and workers\<close>

text \<open>\<^verbatim>\<open>make(chan T, n)\<close> panics if the size is negative; sizes beyond the memory are left aside.\<close>

definition make_channel :: "string \<Rightarrow> int64 \<Rightarrow> ('db process, unit) io" where
  "make_channel name n = (if n < 0 then lift_go (Panic ''makechan: size out of range'') else note_step (Channel name (nat n)))"

definition InitTaskQueues :: "Config \<Rightarrow> ('db process, unit) io" where
  "InitTaskQueues conf =
     bnd (make_channel ''OldHttpTaskQueue'' 0) (\<lambda>_.
     bnd (make_channel ''HttpTaskQueue'' 0) (\<lambda>_.
     bnd (make_channel ''AirbusTaskQueue'' 0) (\<lambda>_.
     bnd (make_channel ''CronTaskQueue'' 0) (\<lambda>_.
     bnd (make_channel ''AggregationTaskQueue'' (as_BufferSize (cfg_AggregateSchedules conf))) (\<lambda>_.
     bnd (make_channel ''StatusTaskQueue'' 0) (\<lambda>_.
     make_channel ''BulkActionQueue'' (ba_BufferSize (cfg_BulkAction conf))))))))"

text \<open>
  A pool starts its workers on a channel; a number that is not positive starts none. The pools are goroutines of
  their own, which are taken to have started their workers one pool after the other.
\<close>

definition pool :: "string \<Rightarrow> int64 \<Rightarrow> ('db process, unit) io" where
  "pool channel noOfWorkers st = (Ret (), st\<lparr>ps_Started := ps_Started st @ replicate (nat noOfWorkers) (Worker channel)\<rparr>)"

definition createWorkerPool :: "Config \<Rightarrow> ('db process, unit) io" where
  "createWorkerPool conf = pool ''HttpTaskQueue'' (hc_Routines (cfg_HttpConnector conf))"

definition CreateAggregateSchedulesPool :: "Config \<Rightarrow> ('db process, unit) io" where
  "CreateAggregateSchedulesPool conf = pool ''AggregationTaskQueue'' (as_Routines (cfg_AggregateSchedules conf))"

definition CreateStatusUpdatePool :: "Config \<Rightarrow> ('db process, unit) io" where
  "CreateStatusUpdatePool conf = pool ''StatusTaskQueue'' (StatusUpdate_Routines conf)"

definition StartScheduleCreateWorkers :: "Config \<Rightarrow> ('db process, unit) io" where
  "StartScheduleCreateWorkers conf = pool ''CronTaskQueue'' (cr_Routines (cfg_CronConfig conf))"

definition createBulkActionPool :: "Config \<Rightarrow> ('db process, unit) io" where
  "createBulkActionPool conf = pool ''BulkActionQueue'' (ba_Routines (cfg_BulkAction conf))"

definition InitConnectors :: "Config \<Rightarrow> bool \<Rightarrow> ('db process, unit) io" where
  "InitConnectors conf callbackWorkers =
     bnd (if callbackWorkers then createWorkerPool conf else ret ()) (\<lambda>_.
     bnd (CreateAggregateSchedulesPool conf) (\<lambda>_.
     bnd (CreateStatusUpdatePool conf) (\<lambda>_.
     bnd (StartScheduleCreateWorkers conf) (\<lambda>_.
     createBulkActionPool conf))))"

section \<open>Ringpop\<close>

text \<open>
  \<^verbatim>\<open>InitRingPop\<close>: the address of the node is the value. The listener for events and the handlers of requests are
  registered before the address is known.
\<close>

definition handler_names :: "string list" where
  "handler_names = [StartEntities_name, StopEntities_name, AppDetailsUpdate]"

definition InitRingPop :: "'db outside \<Rightarrow> options \<Rightarrow> ('db process, string) io" where
  "InitRingPop O' opt =
     bnd (or_panic (NewChannel O' (clusterName opt)) (\<lambda>e. ''channel did not create successfully'')) (\<lambda>_.
     bnd (note_step (ChannelCreated (clusterName opt))) (\<lambda>_.
     bnd (or_panic (ringpop_New O' (clusterName opt) (address opt) (replicaPoints opt))
            (\<lambda>e. ''Ringpop cluster creation failed with error '' @ Error e)) (\<lambda>_.
     bnd (note_step (RingCreated (clusterName opt))) (\<lambda>_.
     bnd (or_panic (ListenAndServe O' (address opt)) (\<lambda>e. ''Could not listen on given host port: '' @ Error e)) (\<lambda>_.
     bnd (note_step (Listening (address opt))) (\<lambda>_.
     bnd (note_step ListenerAdded) (\<lambda>_.
     bnd (or_panic (Bootstrap O' (bootStrapServers opt) (joinSize opt)) (\<lambda>e. ''Ringpop bootstrap failed: '' @ Error e)) (\<lambda>_.
     bnd (note_step (Bootstrapped (bootStrapServers opt))) (\<lambda>_.
     bnd (or_panic (json_Register O' handler_names) (\<lambda>e. ''Error while registering handler '' @ Error e)) (\<lambda>_.
     bnd (note_step (HandlersRegistered handler_names)) (\<lambda>_.
     (case WhoAmI O' of
        Inl e \<Rightarrow> lift_go (Panic (''Error initializing ringpop '' @ Error e))
      | Inr a \<Rightarrow> bnd (note_step (AddressKnown a)) (\<lambda>_. ret a)))))))))))))"

definition CloseRingPop :: "('db process, unit) io" where
  "CloseRingPop = bnd (note_step RingDestroyed) (\<lambda>_. note_step ChannelClosed)"

definition on_node :: "('db net, 'a) io \<Rightarrow> ('db process, 'a) io" where
  "on_node f st = (case f (ps_Net st) of (x, n) \<Rightarrow> (x, st\<lparr>ps_Net := n\<rparr>))"

text \<open>What \<^verbatim>\<open>WaitForTermination\<close> does at a signal.\<close>

definition WaitForTermination :: "'db env \<Rightarrow> string \<Rightarrow> ('db process, unit) io" where
  "WaitForTermination E a = bnd (on_node (StopNode E a)) (\<lambda>_. CloseRingPop)"

section \<open>The scheduler\<close>

definition initCassandra :: "'db outside \<Rightarrow> 'db env \<Rightarrow> Config \<Rightarrow> bool \<Rightarrow> ('db process, unit) io" where
  "initCassandra O' E conf createSchema =
     (if createSchema then CassandraInit O' E (cd_DBConfig (ClusterDB conf)) (Getenv O' ''GOPATH'' @ SchemaPath conf) else ret ())"

definition initDAOs :: "'db outside \<Rightarrow> Config \<Rightarrow> ('db process, unit) io" where
  "initDAOs O' conf = bnd (GetClusterDaoImpl O' conf) (\<lambda>_. GetScheduleDaoImpl O' conf)"

text \<open>\<^verbatim>\<open>GetRingPopStatsD\<close> reads the fields of its argument, which is nil in a configuration without statsd.\<close>

definition GetRingPopStatsD :: "'db outside \<Rightarrow> StatsdConfig option \<Rightarrow> unit option go" where
  "GetRingPopStatsD O' c =
     (case c of
        None \<Rightarrow> Panic ''nil pointer dereference''
      | Some s \<Rightarrow> Ret (case statsd_New O' (sc_Address s) (sc_Prefix s) of Some err \<Rightarrow> None | None \<Rightarrow> Some ()))"

definition supervisor_options :: "Config \<Rightarrow> unit option \<Rightarrow> options" where
  "supervisor_options conf statsd =
     fst (NewSupervisor
       [WithClusterName (ClusterName (Cluster conf)), WithAddress (cc_Address (Cluster conf)),
        WithBootStrapServers (BootStrapServers (Cluster conf)), WithJoinSize (JoinSize (Cluster conf)),
        WithLogEnabled (Log_Enable (Cluster conf)), WithStatsD statsd, WithReplicaPoints (ReplicaPoints (Cluster conf)),
        WithReconciliationEnabled (NeedsReconcile (cfg_NodeCrashReconcile conf)),
        WithReconciliationOffset (ReconcileOffset (cfg_NodeCrashReconcile conf))])"

text \<open>The process of a node starts without entities, without cached apps and with nothing in its channels.\<close>

definition fresh_node :: "string \<Rightarrow> 'db net \<Rightarrow> 'db net" where
  "fresh_node a n = n\<lparr>members := (members n)(a := \<lparr>entities = [], mb_AppMap = [], mb_Queues = [], mb_CronTasks = []\<rparr>)\<rparr>"

definition initSupervisor :: "'db outside \<Rightarrow> 'db env \<Rightarrow> Config \<Rightarrow> ('db process, string) io" where
  "initSupervisor O' E conf =
     bnd (lift_go (GetRingPopStatsD O' (Statsd conf))) (\<lambda>statsd.
     bnd (InitRingPop O' (supervisor_options conf statsd)) (\<lambda>a.
     bnd (on_node (\<lambda>n. (Ret (), fresh_node a n))) (\<lambda>_.
     bnd (on_node (Boot (the_ring O') E a)) (\<lambda>_. ret a))))"

definition initConnectors :: "Config \<Rightarrow> bool \<Rightarrow> ('db process, unit) io" where
  "initConnectors conf callbackWorkers = bnd (InitTaskQueues conf) (\<lambda>_. InitConnectors conf callbackWorkers)"

definition initCallbackRegistry :: "registry \<Rightarrow> ('db process, unit) io" where
  "initCallbackRegistry client st = (Ret (), st\<lparr>ps_Registry := InitializeCallbackRegistry (ps_Registry st) client\<rparr>)"

text \<open>The environment of the components of a node: its configuration and its registry of callbacks.\<close>

definition node_env :: "'db env \<Rightarrow> Config \<Rightarrow> registry \<Rightarrow> 'db env" where
  "node_env E conf reg = E\<lparr>env_Conf := conf_of conf, env_Registry := reg\<rparr>"

text \<open>
  \<^verbatim>\<open>New\<close>, with the address of the supervisor as its value. The monitor, the retrievers, the service and the router
  are objects without an effect of their own; the server runs in a goroutine.
\<close>

definition New :: "'db outside \<Rightarrow> 'db env \<Rightarrow> Config \<Rightarrow> registry \<Rightarrow> ('db process, string) io" where
  "New O' E conf callbackFactories =
     bnd (initCassandra O' E conf True) (\<lambda>_.
     bnd (initCallbackRegistry callbackFactories) (\<lambda>_.
     bnd (initDAOs O' conf) (\<lambda>_ st.
     bnd (initSupervisor O' (node_env E conf (ps_Registry st)) conf) (\<lambda>a.
     bnd (initConnectors conf True) (\<lambda>_.
     bnd (note_step (Serving (HttpPort conf))) (\<lambda>_. ret a))) st)))"

text \<open>\<^verbatim>\<open>NewScheduler\<close> is given its data access objects and does not start the server.\<close>

definition NewScheduler :: "'db outside \<Rightarrow> 'db env \<Rightarrow> Config \<Rightarrow> registry \<Rightarrow> bool \<Rightarrow> bool \<Rightarrow> ('db process, string) io" where
  "NewScheduler O' E conf callbackFactories createSchema callbackWorkers =
     bnd (initCassandra O' E conf createSchema) (\<lambda>_.
     bnd (initCallbackRegistry callbackFactories) (\<lambda>_ st.
     bnd (initSupervisor O' (node_env E conf (ps_Registry st)) conf) (\<lambda>a.
     bnd (initConnectors conf callbackWorkers) (\<lambda>_. ret a)) st))"

definition FromConfFile :: "'db outside \<Rightarrow> 'db env \<Rightarrow> (string \<Rightarrow> go_error + Config) \<Rightarrow> string \<Rightarrow> ('db process, string) io" where
  "FromConfFile O' E load confFile = bnd (lift_go (LoadConfig load confFile)) (\<lambda>conf. New O' E conf [])"

definition WithOptions :: "'db outside \<Rightarrow> 'db env \<Rightarrow> option_fn list \<Rightarrow> ('db process, string) io" where
  "WithOptions O' E opts = New O' E (NewConfig opts) []"

definition FromFileWithCallbacks ::
    "'db outside \<Rightarrow> 'db env \<Rightarrow> (string \<Rightarrow> go_error + Config) \<Rightarrow> registry \<Rightarrow> string \<Rightarrow> ('db process, string) io" where
  "FromFileWithCallbacks O' E load callbackFactories confFile =
     bnd (lift_go (LoadConfig load confFile)) (\<lambda>conf. New O' E conf callbackFactories)"

definition WithOptionsWithCallbacks :: "'db outside \<Rightarrow> 'db env \<Rightarrow> registry \<Rightarrow> option_fn list \<Rightarrow> ('db process, string) io" where
  "WithOptionsWithCallbacks O' E callbackFactories opts = New O' E (NewConfig opts) callbackFactories"

text \<open>The program, until it waits for a signal.\<close>

definition main ::
    "'db outside \<Rightarrow> 'db env \<Rightarrow> (string \<Rightarrow> go_error + Config) \<Rightarrow> (string \<times> flag_kind) list \<Rightarrow> string list \<Rightarrow> ('db process, string) io" where
  "main O' E load others args =
     bnd (lift_go (ParseFlags (Getenv O' ''GOPATH'') others args)) (\<lambda>(confFile, port, host).
     bnd (lift_go (InitConfig (Getenv O') load confFile port host)) (\<lambda>config.
     New O' E config []))"

end
