(* ===== verification/Reconciliation.thy ===== *)
theory Reconciliation
  imports RetrieverProperties
begin

text \<open>
  Reconciliation, the bulk action of a node that takes over an entity: it fires again what was not
  delivered. It comes to an end on every database that pages through its answers, panics are recovered, and
  it changes nothing but the queues.
\<close>

section \<open>Operations that keep a part of the state\<close>

definition keeping :: "('s \<Rightarrow> 'p) \<Rightarrow> ('s, 'a) io \<Rightarrow> bool" where
  "keeping f m \<longleftrightarrow> (\<forall>st. tame (fst (m st)) \<and> f (snd (m st)) = f st)"

lemma keeping_ret [simp]: "keeping f (ret x)"
  by (simp add: keeping_def ret_def)

lemma keeping_lift: "tame g \<Longrightarrow> keeping f (lift_go g)"
  by (simp add: keeping_def lift_go_def)

lemma keeping_run:
  assumes "keeping f m" and "m st = (g, st')"
  shows "tame g" and "f st' = f st"
  using assms unfolding keeping_def by (metis fst_conv, metis snd_conv)

lemma keeping_bnd:
  assumes "keeping f m" and "\<And>x. keeping f (k x)"
  shows "keeping f (bnd m k)"
  unfolding keeping_def
proof
  fix st
  obtain g st1 where g: "m st = (g, st1)" by fastforce
  from assms(2) have "tame (fst (k x st1)) \<and> f (snd (k x st1)) = f st1" for x by (simp add: keeping_def)
  with keeping_run [OF assms(1) g] show "tame (fst (bnd m k st)) \<and> f (snd (bnd m k st)) = f st"
    by (cases g) (auto simp: bnd_def g tame_def)
qed

lemma keeping_recovering:
  assumes "keeping f m"
  shows "\<exists>x st'. recovering y m st = (Ret x, st') \<and> f st' = f st"
proof -
  obtain g st1 where g: "m st = (g, st1)" by fastforce
  with keeping_run [OF assms g] show ?thesis by (cases g) (auto simp: recovering_def tame_def)
qed

section \<open>Firing again\<close>

lemma tame_SetStatus: "tame (SetStatus m s)"
  by (auto simp: SetStatus_def Let_def split: option.splits prod.splits intro!: tame_bind)

lemma tame_enrich_rows: "tame (enrich_rows ids rows acc found)"
  by (induction ids rows acc found rule: enrich_rows.induct) (auto intro!: tame_bind tame_SetStatus)

lemma tame_OptimizedEnrichSchedule: "tame (OptimizedEnrichSchedule E schs db)"
  by (auto simp: OptimizedEnrichSchedule_def split: prod.splits intro!: tame_bind tame_enrich_rows)

lemma keeping_reconcile: "keeping fst (act_on E app Reconcile s)"
  by (auto simp: keeping_def act_on_def tame_def exit_text_def split: option.splits)

lemma keeping_reconcile_all: "keeping fst (act_on_all E app status Reconcile schs)"
  by (induction schs) (auto intro!: keeping_bnd keeping_reconcile)

lemma keeping_actionIfRequired: "keeping fst (actionIfRequired E app schs status Reconcile)"
  unfolding keeping_def
proof
  fix st :: "'a bulk_state"
  have "keeping fst (bnd (lift_go (OptimizedEnrichSchedule E schs (fst st))) (\<lambda>(acc, err).
      if err \<noteq> None then ret err else bnd (act_on_all E app status Reconcile acc) (\<lambda>_. ret None)))"
    by (intro keeping_bnd keeping_lift tame_OptimizedEnrichSchedule) (auto intro!: keeping_bnd keeping_reconcile_all)
  from this [unfolded keeping_def, THEN spec, of st]
  show "tame (fst (actionIfRequired E app schs status Reconcile st)) \<and> fst (snd (actionIfRequired E app schs status Reconcile st)) = fst st"
    by (simp add: actionIfRequired_def ret_def)
qed

lemma keeping_bulk_rows: "keeping fst (bulk_rows E app status Reconcile rows batch)"
proof (induction rows arbitrary: batch)
  case (Cons m rows)
  then show ?case
    by (auto simp: Let_def intro!: keeping_bnd keeping_lift tame_CreateSchedule keeping_actionIfRequired split: option.split)
qed simp

lemma keeping_on_bulk:
  assumes "keeping fst m"
  shows "keeping nd_Cluster (on_bulk m)"
  unfolding keeping_def
proof
  fix st
  obtain g db sent where g: "m (nd_DB st, nd_Queues st) = (g, db, sent)" by (metis prod_cases3)
  with keeping_run [OF assms g] show "tame (fst (on_bulk m st)) \<and> nd_Cluster (snd (on_bulk m st)) = nd_Cluster st"
    by (simp add: on_bulk_def nd_DB_def)
qed

section \<open>The loop over the pages\<close>

context cassandra
begin

lemma reconcile_pages:
  assumes "env_Session E = sess"
  shows "\<exists>g st'. bulk_pages E app p t status Reconcile ps batch st = Some (g, st') \<and> tame g \<and> nd_Cluster st' = nd_Cluster st"
proof (induction "pages_left (entity_query (app_AppId app) p t) (nd_DB st) ps" arbitrary: ps batch st rule: less_induct)
  case less
  let ?q = "entity_query (app_AppId app) p t"
  obtain rows nxt cerr where page: "IterPage sess ?q ps (ScheduleDBPageSize (env_Conf E)) (nd_DB st) = (rows, nxt, cerr)"
    by (metis prod_cases3)
  obtain g st1 where g: "on_bulk (bulk_rows E app status Reconcile rows batch) st = (g, st1)" by fastforce
  note kept = keeping_run [OF keeping_on_bulk [OF keeping_bulk_rows] g]
  have db: "nd_DB st1 = nd_DB st" using kept(2) by (simp add: nd_DB_def)
  have step: "bulk_pages E app p t status Reconcile ps batch st =
      (case g of
         Ret (Inr batch') \<Rightarrow>
           (case cerr of
              Some err \<Rightarrow> Some (Ret (Inl err), st1)
            | None \<Rightarrow> if nxt = [] then Some (Ret (Inr batch'), st1) else bulk_pages E app p t status Reconcile nxt batch' st1)
       | _ \<Rightarrow> Some (g, st1))"
    by (subst bulk_pages.simps) (simp add: GetSchedulesForEntity_def assms page g split: go.split sum.split option.split)
  show ?case
  proof (cases "\<exists>batch'. g = Ret (Inr batch') \<and> cerr = None \<and> nxt \<noteq> []")
    case True
    then obtain batch' where b: "g = Ret (Inr batch')" "cerr = None" "nxt \<noteq> []" by blast
    have "pages_left ?q (nd_DB st1) nxt < pages_left ?q (nd_DB st) ps"
      unfolding db by (rule page_progress [OF page [unfolded b(2)] b(3)])
    from less.hyps [OF this] show ?thesis using step b kept(2) by simp
  next
    case False
    then show ?thesis using step kept by (auto split: go.splits sum.splits option.splits if_splits)
  qed
qed

text \<open>Reconciliation of a partition at a minute.\<close>

lemma reconcile_returns:
  assumes "env_Session E = sess"
  shows "\<exists>err st'. retriever_BulkAction E (GetEntityRetriever c appName) app p t status Reconcile st = (Ret err, st') \<and>
    nd_Cluster st' = nd_Cluster st"
proof -
  let ?rest = "\<lambda>r. case r of Inl err \<Rightarrow> ret (Some err)
    | Inr batch \<Rightarrow> if length batch > 0 then ScheduleRetriever_actionIfRequired E app batch status Reconcile else ret None"
  have "keeping nd_Cluster (\<lambda>st. case bulk_pages E app p t status Reconcile [] [] st of None \<Rightarrow> (Diverge, st) | Some r \<Rightarrow> r)"
    unfolding keeping_def
  proof
    fix st
    show "tame (fst (case bulk_pages E app p t status Reconcile [] [] st of None \<Rightarrow> (Diverge, st) | Some r \<Rightarrow> r)) \<and>
        nd_Cluster (snd (case bulk_pages E app p t status Reconcile [] [] st of None \<Rightarrow> (Diverge, st) | Some r \<Rightarrow> r)) = nd_Cluster st"
      using reconcile_pages [OF assms, of app p t status "[]" "[]" st] by auto
  qed
  moreover have "keeping nd_Cluster (?rest r)" for r
    by (auto simp: ScheduleRetriever_actionIfRequired_def intro!: keeping_on_bulk keeping_actionIfRequired split: sum.split)
  ultimately have "\<exists>err st'. ScheduleRetriever_BulkAction E app p t status Reconcile st = (Ret err, st') \<and> nd_Cluster st' = nd_Cluster st"
    unfolding ScheduleRetriever_BulkAction_def by (intro keeping_recovering keeping_bnd)
  moreover have "GetEntityRetriever c appName \<noteq> None"
    by (auto simp: GetEntityRetriever_def Get_def InitRetrievers_def split: option.split)
  ultimately show ?thesis
    by (auto simp: retriever_BulkAction_def CronRetriever_BulkAction_def ret_def split: retriever.split)
qed

end

end
