(* ===== verification/TakeoverProperties.thy ===== *)
theory TakeoverProperties
  imports RegistrationProperties Reconciliation
begin

text \<open>
  Entities that change their node: a node that boots takes the entities that the ring gives to it from the nodes
  that run them, and when a node leaves, the others start its entities. Requests to stop an entity go to the node
  that is recorded as running it, which need not be its owner; the locale \<open>moving_ring\<close> has them delivered
  to any node.
\<close>

section \<open>Requests to stop at any node\<close>

locale moving_ring = forwarding_ring +
  assumes deliver_stop_any: "Forward R b [eid] (request_body ''Ids'' [eid]) StopEntities_name n = reply (StopEntities R E b [eid] n)"

text \<open>Two rings with the same owners stop an entity in the same way.\<close>

lemma stop_entities_rings:
  assumes "ring R E owner" and "ring R' E owner"
  shows "StopEntities R E b [eid] n = StopEntities R' E b [eid] n"
proof -
  let ?o = "owner eid"
  have own: "stop_entities R E ?o [eid] = stop_entities R' E ?o [eid]"
    using own_stop [of R ?o eid E] own_stop [of R' ?o eid E] ring.lookup [OF assms(1)] ring.lookup [OF assms(2)]
    by (simp del: stop_entities.simps)
  then have "StopEntities R E ?o [eid] m = StopEntities R' E ?o [eid] m" for m by (simp only: StopEntities_def)
  then have "Forward R ?o [eid] (request_body ''Ids'' [eid]) StopEntities_name m =
      Forward R' ?o [eid] (request_body ''Ids'' [eid]) StopEntities_name m" for m
    by (simp only: ring.deliver_stop [OF assms(1)] ring.deliver_stop [OF assms(2)])
  then have "forwardOrPanicIfRequired R b \<lparr>rq_entity = EntityIDs [eid], rq_method = StopEntities_name, destNode = ?o\<rparr> =
      forwardOrPanicIfRequired R' b \<lparr>rq_entity = EntityIDs [eid], rq_method = StopEntities_name, destNode = ?o\<rparr>"
    by (intro ext) (simp add: forwardOrPanicIfRequired_def forwardEntity_def bnd_def)
  then show ?thesis
    by (simp add: StopEntities_def lookup_or_panic_def ring.lookup [OF assms(1)] ring.lookup [OF assms(2)] cong: option.case_cong prod.case_cong if_cong)
qed

interpretation moving_network: moving_ring "network E owner nodes (Suc (Suc hops))" E owner for E :: "'db env" and owner nodes hops
proof unfold_locales
  fix b eid and n :: "'db net"
  show "Forward (network E owner nodes (Suc (Suc hops))) b [eid] (request_body ''Ids'' [eid]) StopEntities_name n =
      reply (StopEntities (network E owner nodes (Suc (Suc hops))) E b [eid] n)"
    using stop_entities_rings [OF network.ring_axioms network.ring_axioms, of E owner nodes hops b eid n nodes "Suc hops"]
    by (simp add: RegisterHandler_def StartEntities_name_def StopEntities_name_def)
qed

section \<open>What stays as it is\<close>

text \<open>The apps, in the caches and in the database.\<close>

definition same_apps :: "('db \<Rightarrow> tables) \<Rightarrow> 'db net \<Rightarrow> 'db net \<Rightarrow> bool" where
  "same_apps tables n n' \<longleftrightarrow> cached n' = cached n \<and> tables (net_DB n') ''apps'' = tables (net_DB n) ''apps''"

lemma same_apps_refl [simp, intro]: "same_apps tables n n"
  by (simp add: same_apps_def)

lemma same_apps_trans [trans]: "same_apps tables n n1 \<Longrightarrow> same_apps tables n1 n2 \<Longrightarrow> same_apps tables n n2"
  by (simp add: same_apps_def)

lemma same_apps_set [simp, intro]: "same_apps tables n (set_entities a es n)"
  by (simp add: same_apps_def) (simp add: set_entities_def)

lemma known_same: "same_apps tables n n' \<Longrightarrow> known tables a app n' = known tables a app n"
  by (simp add: known_def same_apps_def split: option.split)

text \<open>The status of entities can be written, and the statement that does it leaves the apps alone.\<close>

definition status_writes :: "('db \<Rightarrow> tables) \<Rightarrow> 'db env \<Rightarrow> bool" where
  "status_writes tables E \<longleftrightarrow> updates_ok E \<and>
     (\<forall>eid b status c. tables (cl_DB (snd (UpdateEntityStatus E eid b status c))) ''apps'' = tables (cl_DB c) ''apps'')"

lemma update_same:
  assumes "status_writes tables E" and "at_node a (dao (UpdateEntityStatus E eid b status)) n = (x, n')"
  shows "same_apps tables n n'"
proof -
  have "tables (net_DB (snd (at_node a (dao (UpdateEntityStatus E eid b status)) n))) ''apps'' = tables (net_DB n) ''apps''"
    using assms(1) by (auto simp: status_writes_def at_node_def dao_def put_node_def nd_DB_def node_cluster split: prod.splits)
      (metis cluster.select_convs(1) snd_conv)
  then show ?thesis using update_cached [of a E eid b status n] assms(2) by (simp add: same_apps_def)
qed

lemma StartEntity_same:
  assumes "status_writes tables E" and "StartEntity E a eid n = (Ret (True, None), n')"
  shows "same_apps tables n n'"
proof -
  from assms(2) have "\<exists>n1. same_apps tables n n1 \<and> at_node a (dao (UpdateEntityStatus E eid a RUNNING)) n1 = (Ret None, n')"
    by (auto simp: StartEntity_def bnd_def ret_def split: option.splits go.splits prod.splits)
  then show ?thesis using update_same [OF assms(1)] by (blast intro: same_apps_trans)
qed

lemma StopEntity_same:
  assumes "status_writes tables E" and "StopEntity E a eid n = (Ret (ex, None), n')"
  shows "same_apps tables n n'"
proof -
  from assms(2) have "n' = n \<or> (\<exists>n1. same_apps tables n n1 \<and> at_node a (dao (UpdateEntityStatus E eid a STOPPED)) n1 = (Ret None, n'))"
    by (auto simp: StopEntity_def bnd_def ret_def lift_go_def split: option.splits go.splits prod.splits)
  then show ?thesis using update_same [OF assms(1)] by (blast intro: same_apps_trans)
qed

section \<open>Taking an entity over\<close>

context moving_ring
begin

text \<open>A request to stop an entity that runs at most at the node asked.\<close>

lemma stop_request:
  assumes "status_writes tables E" and "live n" and "\<And>c. present n c eid \<Longrightarrow> c = b" and "ei_Id ent = eid" and "ei_Node ent = b"
  shows "\<exists>n'. forwardOrPanic R a ent StopEntities_name n = (Ret (), n') \<and> live n' \<and> same_apps tables n n' \<and>
    present n' = (\<lambda>c e. present n c e \<and> e \<noteq> eid)"
proof -
  have ok: "updates_ok E" using assms(1) by (simp add: status_writes_def)
  note same = StopEntity_same [OF assms(1)]
  let ?res = "\<lambda>b. \<lparr>ServerAddress = b, rs_Error = [], rs_Status = SUCCESS\<rparr>"
  obtain n1 where n1: "StopEntity E b eid n = (Ret (present n b eid, None), n1)" "live n1"
      "present n1 = (\<lambda>c e. present n c e \<and> \<not> (c = b \<and> e = eid))"
    using StopEntity_live [OF ok assms(2)] by blast
  have gone: "present n1 = (\<lambda>c e. present n c e \<and> e \<noteq> eid)" using n1(3) assms(3) by (auto simp: fun_eq_iff)
  have fwd: "forwardOrPanicIfRequired R d \<lparr>rq_entity = EntityIDs [eid], rq_method = StopEntities_name, destNode = c\<rparr> m = (Ret (), m')"
    if "StopEntities R E c [eid] m = (Ret (?res c, None), m')" for c d m m'
    using that by (intro forwarded [where ids = "[eid]" and f = "''Ids''" and res = "?res c"]) (simp_all add: deliver_stop_any)
  obtain n2 where n2: "StopEntities R E b [eid] n = (Ret (?res b, None), n2)" "live n2" "present n2 = present n1" "same_apps tables n n2"
  proof (cases "present n b eid \<or> owner eid = b")
    case True
    then have "StopEntities R E b [eid] n = (Ret (?res b, None), n1)"
      using n1(1) by (auto simp: StopEntities_def responding_def bnd_def ret_def lookup_or_panic_def lookup lift_go_def)
    with n1(2) same [OF n1(1)] show thesis using that by blast
  next
    case False
    obtain n3 where n3: "StopEntity E (owner eid) eid n1 = (Ret (present n1 (owner eid) eid, None), n3)" "live n3"
        "present n3 = (\<lambda>c e. present n1 c e \<and> \<not> (c = owner eid \<and> e = eid))"
      using StopEntity_live [OF ok n1(2)] by blast
    have "StopEntities R E (owner eid) [eid] n1 = (Ret (?res (owner eid), None), n3)"
      using n3(1) by (simp add: StopEntities_def responding_def own_stop lookup bnd_def ret_def del: stop_entities.simps)
    from fwd [OF this, of b] have "StopEntities R E b [eid] n = (Ret (?res b, None), n3)"
      using n1(1) False by (auto simp: StopEntities_def responding_def bnd_def ret_def lookup_or_panic_def lookup lift_go_def)
    moreover have "present n3 = present n1" using n3(3) gone by (auto simp: fun_eq_iff)
    moreover have "same_apps tables n n3" using same [OF n1(1)] same [OF n3(1)] by (rule same_apps_trans)
    ultimately show thesis using that n3(2) by blast
  qed
  have "forwardOrPanic R a ent StopEntities_name n = (Ret (), n2)"
    using fwd [OF n2(1), of a] assms(4,5) by (simp add: forwardOrPanic_def entity_request_def)
  with n2(2-4) gone show ?thesis by simp
qed

end

text \<open>
  The app of an entity, and what a node must know to boot it: the app of the entity is one that it finds in
  its cache or in the database.
\<close>

definition app_of :: "(string \<Rightarrow> App) \<Rightarrow> EntityInfo \<Rightarrow> App" where
  "app_of apps ent = (case GetAppName ent of Ret name \<Rightarrow> apps name | _ \<Rightarrow> empty_app)"

definition bootable :: "('db \<Rightarrow> tables) \<Rightarrow> string \<Rightarrow> (string \<Rightarrow> App) \<Rightarrow> 'db net \<Rightarrow> EntityInfo \<Rightarrow> bool" where
  "bootable tables a apps n ent \<longleftrightarrow>
     (let app = app_of apps ent in
      (\<exists>p < 2 ^ 32. ei_Id ent = entity_id (app_AppId app) p) \<and> plain (app_AppId app) \<and> CHR ''.'' \<notin> set (app_AppId app) \<and>
      wf_configuration (app_Configuration app) \<and> known tables a app n)"

lemma bootable_same: "same_apps tables n n' \<Longrightarrow> bootable tables a apps n' ent = bootable tables a apps n ent"
  by (simp add: bootable_def known_same)

lemma bootable_app:
  assumes "bootable tables a apps n ent"
  shows "GetAppName ent = Ret (app_AppId (app_of apps ent))" and "app_of apps ent = apps (app_AppId (app_of apps ent))"
    and "\<exists>p. PollerFactory_CreateEntity c (ei_Id ent) = Ret p"
proof -
  let ?app = "app_of apps ent"
  from assms obtain p where p: "p < 2 ^ 32" "ei_Id ent = entity_id (app_AppId ?app) p" "CHR ''.'' \<notin> set (app_AppId ?app)"
    by (auto simp: bootable_def Let_def)
  show name: "GetAppName ent = Ret (app_AppId ?app)" using p(2) by (rule GetAppName_entity_id)
  show "?app = apps (app_AppId ?app)" by (subst app_of_def) (simp add: name)
  show "\<exists>p. PollerFactory_CreateEntity c (ei_Id ent) = Ret p" using CreateEntity_returns [OF p(3,1)] p(2) by simp
qed

text \<open>Fetching the app of an entity that can be booted leaves the others so.\<close>

lemma bootable_get_app:
  assumes "cassandra sess tables rest pages_left" and "env_Session E = sess" and "reliable sess" and "bootable tables a apps n ent"
  shows "\<exists>ap n1. get_app E a (app_AppId (app_of apps ent)) n = (Ret (ap, None), n1) \<and> Active ap = Active (app_of apps ent) \<and>
    entities_at n1 = entities_at n \<and> (\<forall>other. bootable tables a apps n other \<longrightarrow> bootable tables a apps n1 other)"
proof -
  let ?app = "app_of apps ent"
  from assms(4) have app: "plain (app_AppId ?app)" "wf_configuration (app_Configuration ?app)" "known tables a ?app n"
    by (simp_all add: bootable_def Let_def)
  obtain ap n1 where n1: "get_app E a (app_AppId ?app) n = (Ret (ap, None), n1)" "Active ap = Active ?app"
      "entities_at n1 = entities_at n" "net_DB n1 = net_DB n" "cached n1 = (cached n)(a := (cached n a)(app_AppId ?app \<mapsto> ap))"
    using cassandra.get_app_known [OF assms(1), OF assms(2,3) app] by blast
  have "bootable tables a apps n1 other" if other: "bootable tables a apps n other" for other
  proof -
    have "app_of apps other = ?app" if "app_AppId (app_of apps other) = app_AppId ?app"
      using bootable_app(2) [OF other] bootable_app(2) [OF assms(4)] that by simp
    then have "known tables a (app_of apps other) n1"
      using other n1(2,4,5) by (auto simp: bootable_def known_def Let_def split: option.splits)
    with other show ?thesis by (simp add: bootable_def Let_def)
  qed
  with n1(1-3) show ?thesis by blast
qed

section \<open>Booting a node\<close>

text \<open>The rows of the entities say where they run, on nodes that can be reached.\<close>

definition recorded :: "EntityInfo list \<Rightarrow> string list \<Rightarrow> 'db net \<Rightarrow> bool" where
  "recorded es nodes n \<longleftrightarrow>
     (\<forall>ent \<in> set es. \<forall>b. present n b (ei_Id ent) \<longrightarrow> ei_Status ent = RUNNING \<and> ei_Node ent = b \<and> b \<in> set nodes)"

text \<open>The entities that a node takes: those the ring gives to it, of apps that are active.\<close>

definition taken :: "(string \<Rightarrow> string) \<Rightarrow> (string \<Rightarrow> App) \<Rightarrow> string \<Rightarrow> EntityInfo list \<Rightarrow> string \<Rightarrow> bool" where
  "taken owner apps a es e \<longleftrightarrow> owner e = a \<and> (\<exists>ent \<in> set es. ei_Id ent = e \<and> Active (app_of apps ent))"

lemma BootEntity_takes:
  assumes "cassandra sess tables rest pages_left" and "env_Session E = sess" and "reliable sess"
    and "moving_ring R E owner" and "status_writes tables E" and "GetReachableMembers R a = Inr nodes"
    and "bootable tables a apps n ent" and "live n" and "recorded [ent] nodes n"
  shows "\<exists>n'. BootEntity R E a ent False n = (Ret None, n') \<and> live n' \<and>
    (\<forall>other. bootable tables a apps n other \<longrightarrow> bootable tables a apps n' other) \<and>
    present n' = (\<lambda>b e. if taken owner apps a [ent] e then b = a else present n b e)"
proof -
  let ?app = "app_of apps ent" and ?eid = "ei_Id ent"
  obtain ap n1 where n1: "get_app E a (app_AppId ?app) n = (Ret (ap, None), n1)" "Active ap = Active ?app"
      "entities_at n1 = entities_at n" "\<forall>other. bootable tables a apps n other \<longrightarrow> bootable tables a apps n1 other"
    using bootable_get_app [OF assms(1-3,7)] by blast
  have l1: "live n1" and p1: "present n1 = present n" using entities_cong [OF n1(3)] assms(8) by auto
  have ring: "ring R E owner" using assms(4) by (simp add: moving_ring_def forwarding_ring_def)
  note run = BootEntity_def boot_entity_def bnd_def lift_go_def ret_def lookup_or_panic_def ring.lookup [OF ring]
    bootable_app(1) [OF assms(7)]
  show ?thesis
  proof (cases "Active ap \<and> owner ?eid = a")
    case False
    then have "BootEntity R E a ent False n = (Ret None, n1)" using n1(1) assms(6) by (auto simp: run)
    moreover have "\<not> taken owner apps a [ent] e" for e using False n1(2) by (auto simp: taken_def)
    ultimately show ?thesis using l1 p1 n1(4) by simp
  next
    case True
    let ?moves = "ei_Status ent = RUNNING \<and> ei_Node ent \<in> set nodes \<and> ei_Node ent \<noteq> a"
    let ?stop = "if ?moves then forwardOrPanic R a ent StopEntities_name else ret ()"
    have at: "b = ei_Node ent \<and> ei_Status ent = RUNNING \<and> b \<in> set nodes" if "present n1 b ?eid" for b
      using assms(9) that p1 by (auto simp: recorded_def)
    obtain n2 where n2: "?stop n1 = (Ret (), n2)" "live n2" "same_apps tables n1 n2"
        "\<And>b e. present n2 b e \<longleftrightarrow> present n1 b e \<and> (e = ?eid \<longrightarrow> b = a)"
    proof (cases ?moves)
      case True
      have "\<exists>n2. forwardOrPanic R a ent StopEntities_name n1 = (Ret (), n2) \<and> live n2 \<and> same_apps tables n1 n2 \<and>
          present n2 = (\<lambda>c e. present n1 c e \<and> e \<noteq> ?eid)"
        using at by (intro moving_ring.stop_request [OF assms(4), OF assms(5) l1]) auto
      then obtain n2 where n2: "forwardOrPanic R a ent StopEntities_name n1 = (Ret (), n2)" "live n2" "same_apps tables n1 n2"
          "present n2 = (\<lambda>c e. present n1 c e \<and> e \<noteq> ?eid)" by blast
      have "present n2 b e \<longleftrightarrow> present n1 b e \<and> (e = ?eid \<longrightarrow> b = a)" for b e using n2(4) at True by auto
      with n2(1-3) True show thesis using that by simp
    next
      case False
      then have "?stop n1 = (Ret (), n1)" by (auto simp: ret_def)
      then show thesis using that [of n1] l1 at False by auto
    qed
    obtain pl where "PollerFactory_CreateEntity (env_Conf E) ?eid = Ret pl" using bootable_app(3) [OF assms(7)] by blast
    moreover have "updates_ok E" using assms(5) by (simp add: status_writes_def)
    ultimately obtain n' where n': "StartEntity E a ?eid n2 = (Ret (True, None), n')" "live n'"
        "present n' = (\<lambda>b e. present n2 b e \<or> b = a \<and> e = ?eid)"
      using StartEntity_live n2(2) by blast
    have "BootEntity R E a ent False n = (Ret None, n')"
      using True n1(1) n2(1) n'(1) assms(6) by (simp add: run)
    moreover have "same_apps tables n1 n'" using n2(3) StartEntity_same [OF assms(5) n'(1)] by (rule same_apps_trans)
    then have "\<forall>other. bootable tables a apps n other \<longrightarrow> bootable tables a apps n' other" using n1(4) by (simp add: bootable_same)
    moreover have "present n' = (\<lambda>b e. if taken owner apps a [ent] e then b = a else present n b e)"
      using True n1(2) n2(4) n'(3) p1 by (auto simp: taken_def fun_eq_iff)
    ultimately show ?thesis using n'(2) by blast
  qed
qed

lemma boot_entities_takes:
  assumes "cassandra sess tables rest pages_left" and "env_Session E = sess" and "reliable sess"
    and "moving_ring R E owner" and "status_writes tables E" and "GetReachableMembers R a = Inr nodes"
    and "list_all (bootable tables a apps n) es" and "distinct (map ei_Id es)" and "live n" and "recorded es nodes n"
  shows "\<exists>n'. boot_entities R E a es n = (Ret (), n') \<and> live n' \<and>
    present n' = (\<lambda>b e. if taken owner apps a es e then b = a else present n b e)"
  using assms(7-10)
proof (induction es arbitrary: n)
  case Nil
  then show ?case by (simp add: ret_def taken_def)
next
  case (Cons ent es)
  have "bootable tables a apps n ent" "recorded [ent] nodes n" using Cons.prems(1,4) by (simp_all add: recorded_def)
  from BootEntity_takes [OF assms(1-6) this(1) Cons.prems(3) this(2)] obtain n1 where
    n1: "BootEntity R E a ent False n = (Ret None, n1)" "live n1" "\<And>other. bootable tables a apps n other \<Longrightarrow> bootable tables a apps n1 other"
      "present n1 = (\<lambda>b e. if taken owner apps a [ent] e then b = a else present n b e)"
    by blast
  have "list_all (bootable tables a apps n1) es" using Cons.prems(1) n1(3) by (auto simp: list_all_iff)
  moreover have "recorded es nodes n1" using Cons.prems(2,4) n1(4) by (auto simp: recorded_def taken_def)
  ultimately obtain n' where n': "boot_entities R E a es n1 = (Ret (), n')" "live n'"
      "present n' = (\<lambda>b e. if taken owner apps a es e then b = a else present n1 b e)"
    using Cons.IH n1(2) Cons.prems(2) by auto
  have "boot_entities R E a (ent # es) n = (Ret (), n')" using n1(1) n'(1) by (simp add: bnd_def)
  moreover have "present n' = (\<lambda>b e. if taken owner apps a (ent # es) e then b = a else present n b e)"
    using n1(4) n'(3) by (auto simp: taken_def fun_eq_iff)
  ultimately show ?case using n'(2) by blast
qed

text \<open>
  C20. A node that boots takes over what the ring gives to it, and no entity runs twice: every entity of an
  active app that belongs to the node is stopped where it was running and started here, all others stay where they are, and
  nobody runs an entity at two nodes afterwards. This is for entities whose rows say where they run, on nodes that can be
  reached, agree on the ring and pass requests on, of apps that the node can look up, and as long as the database does not fail.
\<close>

theorem Boot_takes_over:
  assumes "cassandra sess tables rest pages_left" and "env_Session E = sess" and "reliable sess"
    and "moving_ring R E owner" and "status_writes tables E" and "GetReachableMembers R a = Inr nodes"
    and "GetAllEntitiesInfo E (nd_Cluster (node_at a n)) = Ret es" and "distinct (map ei_Id es)"
    and "list_all (bootable tables a apps n) es" and "live n" and "recorded es nodes n"
    and "\<forall>b e. present n b e \<longrightarrow> e \<in> ei_Id ` set es"
  shows "\<exists>n'. Boot R E a n = (Ret (), n') \<and> live n' \<and>
    (\<forall>b e. present n' b e \<longleftrightarrow> (if taken owner apps a es e then b = a else present n b e)) \<and>
    (\<forall>b c e. present n' b e \<longrightarrow> present n' c e \<longrightarrow> b = c)"
proof -
  obtain n' where n': "boot_entities R E a es n = (Ret (), n')" "live n'"
      "present n' = (\<lambda>b e. if taken owner apps a es e then b = a else present n b e)"
    using boot_entities_takes [OF assms(1-6,9,8,10,11)] by blast
  have once: "b = c" if "present n b e" "present n c e" for b c e
  proof -
    obtain ent where "ent \<in> set es" "e = ei_Id ent" using assms(12) \<open>present n b e\<close> by blast
    then show ?thesis using that assms(11) by (auto simp: recorded_def)
  qed
  have "Boot R E a n = (Ret (), n')" using assms(7) n'(1) by (simp add: Boot_def bnd_def read_db_def)
  with n'(2) show ?thesis by (intro exI [of _ n']) (auto simp: n'(3) dest: once split: if_splits)
qed

section \<open>A node that left\<close>

lemma retry_minutes_returns:
  assumes "cassandra sess tables rest pages_left" and "env_Session E = sess"
  shows "\<exists>n'. retry_minutes E a app p ms n = (Ret (), n') \<and> entities_at n' = entities_at n \<and> same_apps tables n n'"
proof (induction ms arbitrary: n)
  case Nil
  then show ?case by (simp add: ret_def)
next
  case (Cons i ms)
  let ?m = "retriever_BulkAction E (GetEntityRetriever (env_Conf E) (app_AppId app)) app p
    (start_of_minute E (env_Now E) - int i * minute_ns) [Scheduled, Miss] Reconcile"
  obtain err nd where nd: "?m (node_at a n) = (Ret err, nd)" "nd_Cluster nd = nd_Cluster (node_at a n)"
    using cassandra.reconcile_returns [OF assms] by blast
  let ?n = "put_node a nd n"
  have "same_apps tables n ?n"
    using nd(2) by (auto simp: same_apps_def put_node_def nd_DB_def node_cluster cached_def fun_eq_iff)
  moreover have "entities_at ?n = entities_at n" by (simp add: put_node_def entities_at_def fun_eq_iff)
  moreover obtain n' where n': "retry_minutes E a app p ms ?n = (Ret (), n')" "entities_at n' = entities_at ?n" "same_apps tables ?n n'"
    using Cons.IH by blast
  moreover have "retry_minutes E a app p (i # ms) n = (Ret (), n')" using nd(1) n'(1) by (simp add: bnd_def at_node_def)
  ultimately show ?case by (metis same_apps_trans)
qed

lemma offload_entity_starts:
  assumes "cassandra sess tables rest pages_left" and "env_Session E = sess" and "reliable sess"
    and "\<And>eid. Lookup R a eid = Inr (owner eid)" and "status_writes tables E"
    and "bootable tables a apps n ent" and "live n"
  shows "\<exists>n'. offload_entity R E opts a ent n = (Ret (), n') \<and> live n' \<and>
    (\<forall>other. bootable tables a apps n other \<longrightarrow> bootable tables a apps n' other) \<and>
    present n' = (\<lambda>b e. present n b e \<or> b = a \<and> taken owner apps a [ent] e)"
proof -
  let ?app = "app_of apps ent" and ?eid = "ei_Id ent"
  obtain ap n1 where n1: "get_app E a (app_AppId ?app) n = (Ret (ap, None), n1)" "Active ap = Active ?app"
      "entities_at n1 = entities_at n" "\<forall>other. bootable tables a apps n other \<longrightarrow> bootable tables a apps n1 other"
    using bootable_get_app [OF assms(1-3,6)] by blast
  have l1: "live n1" and p1: "present n1 = present n" using entities_cong [OF n1(3)] assms(7) by auto
  note run = offload_entity_def bnd_def lift_go_def ret_def lookup_or_panic_def assms(4) bootable_app(1) [OF assms(6)]
  show ?thesis
  proof (cases "Active ap \<and> owner ?eid = a")
    case False
    then have "offload_entity R E opts a ent n = (Ret (), n1)" using n1(1) by (auto simp: run)
    moreover have "\<not> taken owner apps a [ent] e" for e using False n1(2) by (auto simp: taken_def)
    ultimately show ?thesis using l1 p1 n1(4) by simp
  next
    case True
    obtain pl where "PollerFactory_CreateEntity (env_Conf E) ?eid = Ret pl" using bootable_app(3) [OF assms(6)] by blast
    moreover have "updates_ok E" using assms(5) by (simp add: status_writes_def)
    ultimately obtain n2 where n2: "StartEntity E a ?eid n1 = (Ret (True, None), n2)" "live n2"
        "present n2 = (\<lambda>b e. present n1 b e \<or> b = a \<and> e = ?eid)"
      using StartEntity_live l1 by blast
    let ?retry = "if reconciliationEnabled opts then fetchAndRetrySchedule E a ap (GetPartitionId ent) (reconciliationOffset opts) else ret ()"
    have "\<exists>n'. ?retry n2 = (Ret (), n') \<and> entities_at n' = entities_at n2 \<and> same_apps tables n2 n'"
      using retry_minutes_returns [OF assms(1,2)] by (cases "reconciliationEnabled opts") (simp_all add: fetchAndRetrySchedule_def ret_def)
    then obtain n' where n': "?retry n2 = (Ret (), n')" "entities_at n' = entities_at n2" "same_apps tables n2 n'" by blast
    have "offload_entity R E opts a ent n = (Ret (), n')" using True n1(1) n2(1) n'(1) by (auto simp: run)
    moreover have "live n'" "present n' = present n2" using entities_cong [OF n'(2)] n2(2) by auto
    moreover have "same_apps tables n1 n'" using StartEntity_same [OF assms(5) n2(1)] n'(3) by (rule same_apps_trans)
    then have "\<forall>other. bootable tables a apps n other \<longrightarrow> bootable tables a apps n' other" using n1(4) by (simp add: bootable_same)
    moreover have "present n2 = (\<lambda>b e. present n b e \<or> b = a \<and> taken owner apps a [ent] e)"
      using True n1(2) n2(3) p1 by (auto simp: taken_def fun_eq_iff)
    ultimately show ?thesis by auto
  qed
qed

lemma offload_entities_starts:
  assumes "cassandra sess tables rest pages_left" and "env_Session E = sess" and "reliable sess"
    and "\<And>eid. Lookup R a eid = Inr (owner eid)" and "status_writes tables E"
    and "list_all (bootable tables a apps n) es" and "live n"
  shows "\<exists>n'. offload_entities R E opts a es n = (Ret (), n') \<and> live n' \<and>
    present n' = (\<lambda>b e. present n b e \<or> b = a \<and> taken owner apps a es e)"
  using assms(6,7)
proof (induction es arbitrary: n)
  case Nil
  then show ?case by (simp add: ret_def taken_def)
next
  case (Cons ent es)
  from offload_entity_starts [OF assms(1-5) _ Cons.prems(2), of apps ent opts] Cons.prems(1) obtain n1 where
    n1: "offload_entity R E opts a ent n = (Ret (), n1)" "live n1" "\<And>other. bootable tables a apps n other \<Longrightarrow> bootable tables a apps n1 other"
      "present n1 = (\<lambda>b e. present n b e \<or> b = a \<and> taken owner apps a [ent] e)"
    by auto
  have "list_all (bootable tables a apps n1) es" using Cons.prems(1) n1(3) by (auto simp: list_all_iff)
  then obtain n' where n': "offload_entities R E opts a es n1 = (Ret (), n')" "live n'"
      "present n' = (\<lambda>b e. present n1 b e \<or> b = a \<and> taken owner apps a es e)"
    using Cons.IH n1(2) by blast
  have "offload_entities R E opts a (ent # es) n = (Ret (), n')" using n1(1) n'(1) by (simp add: bnd_def)
  moreover have "present n' = (\<lambda>b e. present n b e \<or> b = a \<and> taken owner apps a (ent # es) e)"
    using n1(4) n'(3) by (auto simp: taken_def fun_eq_iff)
  ultimately show ?case using n'(2) by blast
qed


section \<open>Two nodes\<close>

text \<open>The second node runs two pollers of an app, one of which belongs to the first node.\<close>

definition entity_row :: "string \<Rightarrow> string \<Rightarrow> int64 \<Rightarrow> cql list \<times> (string \<times> cql) list" where
  "entity_row eid node status = ([VText eid],
     [(''id'', VText eid), (''nodename'', VText node), (''status'', VInt status), (''history'', VText [])])"

definition running_poller :: "int64 \<Rightarrow> recoverable" where
  "running_poller p =
     \<lparr>Obj = \<lparr>AppName = ''app'', pl_PartitionId = p, scheduleRetrievalImpl = Some ScheduleRetriever, ticker = Some True\<rparr>, Recovered = 0\<rparr>"

definition busy_net :: "mem net" where
  "busy_net = set_entities ''n2'' [(''app.1'', running_poller 1), (''app.2'', running_poller 2)]
     (sample_net\<lparr>net_DB := empty_mem(''entity'' := [entity_row ''app.1'' ''n2'' 1, entity_row ''app.2'' ''n2'' 1])\<rparr>)"

definition busy_entities :: "EntityInfo list" where
  "busy_entities = map (\<lambda>eid. \<lparr>ei_Id = eid, ei_Node = ''n2'', ei_Status = 1, History = []\<rparr>) [''app.1'', ''app.2'']"

lemma busy_present: "present busy_net b e \<longleftrightarrow> b = ''n2'' \<and> e \<in> {''app.1'', ''app.2''}"
  by (auto simp: present_def busy_net_def sample_net_def entities_at_def set_entities_def)

lemma busy_live: "live busy_net"
  by (auto simp: live_def busy_net_def sample_net_def entities_at_def set_entities_def running_poller_def split: if_splits)

lemma quiet_writes: "status_writes mem_tables quiet_env"
proof -
  have "mem_tables (cl_DB (snd (UpdateEntityStatus quiet_env eid b status c))) ''apps'' = mem_tables (cl_DB c) ''apps''" for eid b status c
    by (simp add: UpdateEntityStatus_def exec_cluster_def exec_spliced_def quiet_env_def mem_session_def mem_upsert_def Let_def
        mem_tables_def fun_eq_iff split: go.split)
  with quiet_updates show ?thesis by (simp add: status_writes_def)
qed

lemma busy_rows:
  assumes "net_DB n ''entity'' = net_DB busy_net ''entity''"
  shows "GetAllEntitiesInfo quiet_env (nd_Cluster (node_at ''n1'' n)) = Ret busy_entities"
    and "GetAllEntitiesInfoOfNode quiet_env ''n2'' (nd_Cluster (node_at ''n1'' n)) = Ret busy_entities"
  using assms
  by (simp_all add: GetAllEntitiesInfo_def GetAllEntitiesInfoOfNode_def node_cluster busy_net_def set_entities_def quiet_env_def
      mem_session_def entity_row_def busy_entities_def iter_spliced_def plain_def Let_def base_table_def mem_lookup_def project_def
      entity_of_row_def entity_select_def text_of_def int_of_def)

lemma busy_bootable:
  assumes "known mem_tables ''n1'' sample_app n"
  shows "list_all (bootable mem_tables ''n1'' (\<lambda>_. sample_app) n) busy_entities"
proof -
  have eid: "''app.1'' = entity_id ''app'' 1" "''app.2'' = entity_id ''app'' 2" by code_simp+
  have ids: "\<exists>p < 2 ^ 32. ''app.1'' = entity_id ''app'' p" "\<exists>p < 2 ^ 32. ''app.2'' = entity_id ''app'' p"
    by (rule exI [of _ 1], simp only: eid, simp) (rule exI [of _ 2], simp only: eid, simp)
  have name: "GetAppName ent = Ret ''app''" if "ent \<in> set busy_entities" for ent
    using that GetAppName_entity_id [of ent "''app''"] eid by (auto simp: busy_entities_def)
  have "bootable mem_tables ''n1'' (\<lambda>_. sample_app) n ent" if "ent \<in> set busy_entities" for ent
  proof -
    have "app_of (\<lambda>_. sample_app) ent = sample_app" by (simp add: app_of_def name [OF that])
    moreover have "\<exists>p < 2 ^ 32. ei_Id ent = entity_id ''app'' p" using that ids by (auto simp: busy_entities_def)
    ultimately show ?thesis using assms
      by (simp add: bootable_def sample_app_def plain_def wf_configuration_def empty_configuration_def in64_def)
  qed
  then show ?thesis by (simp add: list_all_iff)
qed

lemma busy_known: "known mem_tables ''n1'' sample_app busy_net"
  by (simp add: known_def cached_def busy_net_def sample_net_def set_entities_def sample_app_def)

lemma busy_taken: "taken sample_owner (\<lambda>_. sample_app) ''n1'' busy_entities e \<longleftrightarrow> e = ''app.2''"
proof -
  have "app_of (\<lambda>_. sample_app) ent = sample_app" if "ent \<in> set busy_entities" for ent
  proof -
    have "bootable mem_tables ''n1'' (\<lambda>_. sample_app) busy_net ent" using busy_bootable [OF busy_known] that by (simp only: list_all_iff)
    from bootable_app(2) [OF this] show ?thesis .
  qed
  then have "Active (app_of (\<lambda>_. sample_app) ent)" if "ent \<in> set busy_entities" for ent
    using that by (simp add: sample_app_def)
  then have "taken sample_owner (\<lambda>_. sample_app) ''n1'' busy_entities e \<longleftrightarrow> sample_owner e = ''n1'' \<and> e \<in> ei_Id ` set busy_entities"
    unfolding taken_def by blast
  then show ?thesis by (auto simp: busy_entities_def sample_owner_def)
qed

lemma wide_moving: "moving_ring wide_ring quiet_env sample_owner"
  using moving_network.moving_ring_axioms [of quiet_env sample_owner _ 0] by (simp add: wide_ring_def numeral_2_eq_2)

lemma quiet_env_session: "env_Session quiet_env = quiet_session"
  by (simp add: quiet_env_def quiet_session_def)

text \<open>When the first node boots, the poller of partition 2 moves to it and the other one stays.\<close>

theorem Boot_takes_over_witness:
  "\<exists>n'. Boot wide_ring quiet_env ''n1'' busy_net = (Ret (), n') \<and> present n' ''n1'' ''app.2'' \<and> \<not> present n' ''n2'' ''app.2'' \<and>
    present n' ''n2'' ''app.1'' \<and> present busy_net ''n2'' ''app.2''"
proof -
  have nodes: "GetReachableMembers wide_ring ''n1'' = Inr [''n1'', ''n2'']" by (simp add: wide_ring_def)
  have d: "distinct (map ei_Id busy_entities)" by (simp add: busy_entities_def)
  have r: "recorded busy_entities [''n1'', ''n2''] busy_net" by (auto simp: recorded_def busy_present busy_entities_def RUNNING_def)
  have all: "\<forall>b e. present busy_net b e \<longrightarrow> e \<in> ei_Id ` set busy_entities" by (auto simp: busy_present busy_entities_def)
  from Boot_takes_over [OF quiet_session_laws quiet_env_session quiet_reliable wide_moving quiet_writes nodes busy_rows(1) [OF refl] d
      busy_bootable [OF busy_known] busy_live r all]
  obtain n' where "Boot wide_ring quiet_env ''n1'' busy_net = (Ret (), n')"
      "\<And>b e. present n' b e \<longleftrightarrow> (if e = ''app.2'' then b = ''n1'' else present busy_net b e)"
    unfolding busy_taken by blast
  then show ?thesis by (intro exI [of _ n']) (simp add: busy_present)
qed


end
