(* ===== verification/StartupProperties.thy ===== *)
theory StartupProperties
  imports Startup TakeoverProperties
begin

text \<open>
  A node that starts and stops: the statements of the schema are run one by one, the node takes over its entities before its
  workers exist, a configuration without statsd ends in a panic, and a node that is told to stop leaves no entity behind.
\<close>

section \<open>The schema\<close>

lemma split_after_not_Nil [simp]: "split_after c s \<noteq> []"
  by (induction s) (auto split: list.split)

lemma concat_split_after: "concat (split_after c s) = s"
  by (induction s) (auto split: list.split)

lemma split_after_append: "c \<notin> set w \<Longrightarrow> split_after c (w @ c # s) = (w @ [c]) # split_after c s"
  by (induction w) auto

lemma split_after_no_sep: "c \<notin> set w \<Longrightarrow> split_after c w = [w]"
  by (induction w) auto

text \<open>A file with a statement per line, each ended by a semicolon.\<close>

definition schema_file :: "string list \<Rightarrow> string" where
  "schema_file ss = concat (map (\<lambda>s. s @ [CHR '';'', CHR 0x0A]) ss)"

definition wf_statement :: "string \<Rightarrow> bool" where
  "wf_statement s \<longleftrightarrow> CHR '';'' \<notin> set s \<and> (s = [] \<or> hd s \<notin> {CHR 0x0D, CHR 0x0A})"

lemma trim_statement:
  assumes "wf_statement s"
  shows "trim_chars [CHR 0x0D, CHR 0x0A] (s @ [CHR '';'']) = s @ [CHR '';'']"
    and "trim_chars [CHR 0x0D, CHR 0x0A] (CHR 0x0A # s @ [CHR '';'']) = s @ [CHR '';'']"
  using assms by (cases s; auto simp: wf_statement_def trim_chars_def)+

text \<open>The statements of a file are found, each with its semicolon, and nothing else.\<close>

theorem cql_statements_file:
  assumes "list_all wf_statement ss"
  shows "cql_statements (schema_file ss) = map (\<lambda>s. s @ '';'') ss"
proof -
  have nl: "cql_statements (CHR 0x0A # schema_file ss) = map (\<lambda>s. s @ '';'') ss" if "list_all wf_statement ss" for ss
    using that
  proof (induction ss)
    case Nil
    then show ?case by (simp add: cql_statements_def schema_file_def trim_chars_def)
  next
    case (Cons s ss)
    then have "CHR '';'' \<notin> set (CHR 0x0A # s)" by (simp add: wf_statement_def)
    from split_after_append [OF this, of "CHR 0x0A # schema_file ss"] show ?case
      using Cons trim_statement(2) [of s] by (simp add: cql_statements_def schema_file_def)
  qed
  show ?thesis
  proof (cases ss)
    case Nil
    then show ?thesis by (simp add: cql_statements_def schema_file_def trim_chars_def)
  next
    case (Cons s ss')
    then have "CHR '';'' \<notin> set s" using assms by (simp add: wf_statement_def)
    from split_after_append [OF this, of "CHR 0x0A # schema_file ss'"] show ?thesis
      using assms Cons nl [of ss'] trim_statement(1) [of s] by (simp add: cql_statements_def schema_file_def)
  qed
qed

section \<open>Stopping a node\<close>

lemma stop_all_stops:
  assumes "updates_ok E" and "live n"
  shows "\<exists>n'. stop_all E a ids n = (Ret (), n') \<and> live n' \<and> present n' = (\<lambda>b e. present n b e \<and> \<not> (b = a \<and> e \<in> set ids))"
  using assms(2)
proof (induction ids arbitrary: n)
  case Nil
  then show ?case by (simp add: ret_def)
next
  case (Cons eid ids)
  obtain n1 where n1: "StopEntity E a eid n = (Ret (present n a eid, None), n1)" "live n1"
      "present n1 = (\<lambda>b e. present n b e \<and> \<not> (b = a \<and> e = eid))"
    using StopEntity_live [OF assms(1) Cons.prems] by blast
  obtain n' where n': "stop_all E a ids n1 = (Ret (), n')" "live n'" "present n' = (\<lambda>b e. present n1 b e \<and> \<not> (b = a \<and> e \<in> set ids))"
    using Cons.IH [OF n1(2)] by blast
  have "stop_all E a (eid # ids) n = (Ret (), n')" using n1(1) n'(1) by (simp add: bnd_def)
  with n'(2,3) n1(3) show ?case by (auto simp: fun_eq_iff)
qed

lemma StopNode_stops:
  assumes "updates_ok E" and "live n"
  shows "\<exists>n'. StopNode E a n = (Ret (), n') \<and> live n' \<and> present n' = (\<lambda>b e. present n b e \<and> b \<noteq> a)"
proof -
  have "e \<in> set (map fst (entities_at n a))" if "present n a e" for e
    using that by (auto simp: present_def dest: map_of_SomeD intro: rev_image_eqI)
  with stop_all_stops [OF assms, of a "map fst (entities_at n a)"] show ?thesis
    by (auto simp: StopNode_def fun_eq_iff)
qed

text \<open>A node that is told to stop stops its entities, leaves those of the others alone, and then leaves the ring.\<close>

theorem WaitForTermination_stops:
  assumes "updates_ok E" and "live (ps_Net st)"
  shows "\<exists>st'. WaitForTermination E a st = (Ret (), st') \<and>
    (\<forall>b e. present (ps_Net st') b e \<longleftrightarrow> present (ps_Net st) b e \<and> b \<noteq> a) \<and>
    ps_Started st' = ps_Started st @ [RingDestroyed, ChannelClosed]"
  using StopNode_stops [OF assms, of a]
  by (auto simp: WaitForTermination_def on_node_def CloseRingPop_def note_step_def bnd_def)

section \<open>Starting a node\<close>

text \<open>The steps before ringpop: every session is created, and the schema is read and run.\<close>

definition opens :: "'db outside \<Rightarrow> 'db env \<Rightarrow> Config \<Rightarrow> 'db \<Rightarrow> 'db \<Rightarrow> bool" where
  "opens O' E conf db db' \<longleftrightarrow> (\<forall>c. CreateSession O' c = None) \<and>
     (case ReadFile O' (Getenv O' ''GOPATH'' @ SchemaPath conf) of
        Inl e \<Rightarrow> False
      | Inr bytes \<Rightarrow> exec_statements (env_Session E) (cql_statements bytes) db = (Ret (), db'))"

definition registered :: "'db process \<Rightarrow> 'db \<Rightarrow> registry \<Rightarrow> 'db process" where
  "registered st db callbackFactories =
     st\<lparr>ps_Net := (ps_Net st)\<lparr>net_DB := db\<rparr>, ps_Registry := InitializeCallbackRegistry (ps_Registry st) callbackFactories\<rparr>"

lemma New_opens:
  assumes "opens O' E conf (net_DB (ps_Net st)) db"
  shows "New O' E conf callbackFactories st =
    bnd (initSupervisor O' (node_env E conf (ps_Registry (registered st db callbackFactories))) conf) (\<lambda>a.
    bnd (initConnectors conf True) (\<lambda>_.
    bnd (note_step (Serving (HttpPort conf))) (\<lambda>_. ret a))) (registered st db callbackFactories)"
proof -
  from assms obtain bytes where "\<And>c. CreateSession O' c = None"
      "ReadFile O' (Getenv O' ''GOPATH'' @ SchemaPath conf) = Inr bytes"
      "exec_statements (env_Session E) (cql_statements bytes) (net_DB (ps_Net st)) = (Ret (), db)"
    by (auto simp: opens_def split: sum.splits)
  then show ?thesis
    by (simp add: New_def initCassandra_def CassandraInit_def initCallbackRegistry_def initDAOs_def GetClusterDaoImpl_def
        GetScheduleDaoImpl_def GetSessionInterface_def or_panic_def on_db_def ret_def registered_def bnd_def)
qed

text \<open>A configuration without statsd, such as the default one, ends in a panic before the node joins the ring.\<close>

theorem default_config_panics:
  assumes "opens O' E (NewConfig []) (net_DB (ps_Net st)) db"
  shows "\<exists>st'. WithOptions O' E [] st = (Panic ''nil pointer dereference'', st') \<and> ps_Started st' = ps_Started st"
proof -
  have "Statsd (NewConfig []) = None" by (simp add: NewConfig_def default_Config_def)
  then show ?thesis
    by (simp add: WithOptions_def New_opens [OF assms] initSupervisor_def GetRingPopStatsD_def lift_go_def bnd_def registered_def)
qed

text \<open>The options of the supervisor are those of the configuration.\<close>

lemma supervisor_options_of [simp]:
  "clusterName (supervisor_options conf statsd) = ClusterName (Cluster conf)"
  "address (supervisor_options conf statsd) = cc_Address (Cluster conf)"
  "bootStrapServers (supervisor_options conf statsd) = BootStrapServers (Cluster conf)"
  "joinSize (supervisor_options conf statsd) = JoinSize (Cluster conf)"
  "replicaPoints (supervisor_options conf statsd) = ReplicaPoints (Cluster conf)"
  by (simp_all add: supervisor_options_def NewSupervisor_def WithClusterName_def WithAddress_def WithBootStrapServers_def WithJoinSize_def
      WithLogEnabled_def WithStatsD_def WithReplicaPoints_def WithReconciliationEnabled_def WithReconciliationOffset_def)

text \<open>The steps of ringpop, all of which succeed.\<close>

definition joins :: "'db outside \<Rightarrow> ClusterConfig \<Rightarrow> string \<Rightarrow> bool" where
  "joins O' cl a \<longleftrightarrow> NewChannel O' (ClusterName cl) = None \<and>
     ringpop_New O' (ClusterName cl) (cc_Address cl) (ReplicaPoints cl) = None \<and> ListenAndServe O' (cc_Address cl) = None \<and>
     Bootstrap O' (BootStrapServers cl) (JoinSize cl) = None \<and> json_Register O' handler_names = None \<and> WhoAmI O' = Inr a"

definition ring_steps :: "ClusterConfig \<Rightarrow> string \<Rightarrow> started list" where
  "ring_steps cl a =
     [ChannelCreated (ClusterName cl), RingCreated (ClusterName cl), Listening (cc_Address cl), ListenerAdded,
      Bootstrapped (BootStrapServers cl), HandlersRegistered handler_names, AddressKnown a]"

lemma InitRingPop_joins:
  assumes "joins O' (Cluster conf) a"
  shows "InitRingPop O' (supervisor_options conf statsd) st = (Ret a, st\<lparr>ps_Started := ps_Started st @ ring_steps (Cluster conf) a\<rparr>)"
  using assms by (simp add: joins_def InitRingPop_def or_panic_def note_step_def bnd_def ret_def ring_steps_def)

definition connector_steps :: "Config \<Rightarrow> started list" where
  "connector_steps conf =
     [Channel ''OldHttpTaskQueue'' 0, Channel ''HttpTaskQueue'' 0, Channel ''AirbusTaskQueue'' 0, Channel ''CronTaskQueue'' 0,
      Channel ''AggregationTaskQueue'' (nat (as_BufferSize (cfg_AggregateSchedules conf))), Channel ''StatusTaskQueue'' 0,
      Channel ''BulkActionQueue'' (nat (ba_BufferSize (cfg_BulkAction conf)))] @
     replicate (nat (hc_Routines (cfg_HttpConnector conf))) (Worker ''HttpTaskQueue'') @
     replicate (nat (as_Routines (cfg_AggregateSchedules conf))) (Worker ''AggregationTaskQueue'') @
     replicate (nat (StatusUpdate_Routines conf)) (Worker ''StatusTaskQueue'') @
     replicate (nat (cr_Routines (cfg_CronConfig conf))) (Worker ''CronTaskQueue'') @
     replicate (nat (ba_Routines (cfg_BulkAction conf))) (Worker ''BulkActionQueue'')"

lemma initConnectors_starts:
  assumes "0 \<le> as_BufferSize (cfg_AggregateSchedules conf)" and "0 \<le> ba_BufferSize (cfg_BulkAction conf)"
  shows "initConnectors conf True st = (Ret (), st\<lparr>ps_Started := ps_Started st @ connector_steps conf\<rparr>)"
  using assms
  by (simp add: initConnectors_def InitTaskQueues_def make_channel_def note_step_def InitConnectors_def createWorkerPool_def
      CreateAggregateSchedulesPool_def CreateStatusUpdatePool_def StartScheduleCreateWorkers_def createBulkActionPool_def pool_def
      bnd_def connector_steps_def)

lemma initSupervisor_boots:
  assumes "Statsd conf = Some s" and "joins O' (Cluster conf) a"
    and "boot_entities (the_ring O') E a es (fresh_node a (ps_Net st)) = (Ret (), n)"
    and "GetAllEntitiesInfo E (nd_Cluster (node_at a (fresh_node a (ps_Net st)))) = Ret es"
  shows "initSupervisor O' E conf st =
    (Ret a, st\<lparr>ps_Net := n, ps_Started := ps_Started st @ ring_steps (Cluster conf) a\<rparr>)"
  using assms
  by (simp add: initSupervisor_def GetRingPopStatsD_def lift_go_def InitRingPop_joins on_node_def Boot_def read_db_def bnd_def ret_def
      split: option.split)


section \<open>A node that restarts\<close>

text \<open>Everything outside succeeds; the schema has one statement.\<close>

definition sample_outside :: "mem outside" where
  "sample_outside =
     \<lparr>ReadFile = (\<lambda>f. Inr (schema_file [''CREATE KEYSPACE IF NOT EXISTS cluster''])), Getenv = (\<lambda>v. ''/go''), CreateSession = (\<lambda>c. None),
      statsd_New = (\<lambda>a p. None), NewChannel = (\<lambda>c. None), ringpop_New = (\<lambda>c a r. None), ListenAndServe = (\<lambda>a. None),
      Bootstrap = (\<lambda>hs j. None), json_Register = (\<lambda>hs. None), WhoAmI = Inr ''n1'', the_ring = wide_ring\<rparr>"

definition sample_Config :: Config where
  "sample_Config = (NewConfig [])\<lparr>Statsd := Some \<lparr>sc_Enabled = True, sc_Address = ''localhost:8125'', sc_Prefix = ''goscheduler''\<rparr>\<rparr>"

text \<open>The first node has just been started; the second one runs two pollers of an app.\<close>

definition restarted :: "mem process" where
  "restarted =
     \<lparr>ps_Net = busy_net\<lparr>net_DB := (net_DB busy_net)(''apps'' := [([VText ''app''], app_columns sample_app)])\<rparr>,
      ps_Registry = [], ps_Started = []\<rparr>"

lemma sample_opens: "opens sample_outside quiet_env conf db db"
  by (simp add: opens_def sample_outside_def cql_statements_file wf_statement_def quiet_env_def ret_def)

theorem default_config_panics_witness: "\<exists>st'. WithOptions sample_outside quiet_env [] restarted = (Panic ''nil pointer dereference'', st')"
  using default_config_panics [OF sample_opens, of restarted] by blast


end
