(* ===== verification/HttpConnector.thy ===== *)
theory HttpConnector
  imports Environment
begin

text \<open>
  The workers that fire HTTP callbacks (src/connectors/http.go): the request that a schedule
  makes, the attempts, and the result that goes on to the aggregation queue. The client of
  package \<^verbatim>\<open>net/http\<close> talks to the outside and is a parameter.
\<close>

section \<open>Requests and responses\<close>

definition is_token_char :: "char \<Rightarrow> bool" where
  "is_token_char c \<longleftrightarrow> is_letter c \<or> is_digit c \<or> c \<in> set ''!#$%&*+-.^_`|~'' \<or> c = CHR 0x27"

text \<open>\<^verbatim>\<open>textproto.CanonicalMIMEHeaderKey\<close>: upper case at the start and after a hyphen, else lower case.\<close>

fun canonical_loop :: "bool \<Rightarrow> string \<Rightarrow> string" where
  "canonical_loop up [] = []"
| "canonical_loop up (c # cs) =
     (let n = (of_char c :: nat);
          d = (if up \<and> 97 \<le> n \<and> n \<le> 122 then char_of (n - 32)
               else if \<not> up \<and> 65 \<le> n \<and> n \<le> 90 then char_of (n + 32) else c)
      in d # canonical_loop (d = CHR ''-'') cs)"

definition canonical_key :: "string \<Rightarrow> string" where
  "canonical_key k = (if list_all is_token_char k then canonical_loop True k else k)"

record request =
  req_Method :: string
  req_Url :: string
  req_Body :: string
  req_Header :: "(string \<times> string) list"

definition header_Set :: "string \<Rightarrow> string \<Rightarrow> request \<Rightarrow> request" where
  "header_Set k v r = r\<lparr>req_Header := put_assoc (canonical_key k) v (req_Header r)\<rparr>"

record response =
  StatusCode :: int64
  StatusText :: string

text \<open>
  The client: what \<^verbatim>\<open>Do\<close> answers to a request may depend on the requests made before; and the text
  of the error that \<^verbatim>\<open>url.Parse\<close> reports for a URL. The documentation of \<^verbatim>\<open>Do\<close> promises a response
  exactly when there is no error (the default redirect policy never returns both).
\<close>

record http_client =
  Do :: "request list \<Rightarrow> request \<Rightarrow> response option \<times> go_error option"
  url_Error :: "string \<Rightarrow> string"

definition answers_once :: "http_client \<Rightarrow> bool" where
  "answers_once cl \<longleftrightarrow> (\<forall>sent r. (fst (Do cl sent r) = None) \<longleftrightarrow> (snd (Do cl sent r) \<noteq> None))"

section \<open>Building a request\<close>

definition trim :: "string \<Rightarrow> string" where
  "trim message = (if length message < 200 then message else take 200 message)"

definition isSuccess :: "response option \<Rightarrow> bool" where
  "isSuccess response =
     (case response of None \<Rightarrow> False | Some r \<Rightarrow> StatusCode r \<ge> 200 \<and> StatusCode r \<le> 299)"

definition shouldRetry :: "int64 \<Rightarrow> int64 \<Rightarrow> response option \<Rightarrow> bool" where
  "shouldRetry maxAttempts attempts response =
     (if attempts \<ge> maxAttempts then False else if isSuccess response then False else True)"

text \<open>The type assertion \<^verbatim>\<open>input.Callback.(*store.HttpCallback)\<close>.\<close>

definition as_HttpCallback :: "Callback option \<Rightarrow> http_callback go" where
  "as_HttpCallback cb = (case cb of Some (HttpCallback h) \<Rightarrow> Ret h | _ \<Rightarrow> Panic ''interface conversion'')"

definition NewRequest :: "http_client \<Rightarrow> string \<Rightarrow> string \<Rightarrow> string \<Rightarrow> go_error + request" where
  "NewRequest cl method url body =
     (let method = (if method = [] then ''GET'' else method) in
      if \<not> list_all is_token_char method then Inl (Err (''net/http: invalid method '' @ [CHR 0x22] @ method @ [CHR 0x22]))
      else if \<not> Parse_ok url then Inl (Err (url_Error cl url))
      else Inr \<lparr>req_Method = method, req_Url = url, req_Body = body, req_Header = []\<rparr>)"

definition header_list :: "headers \<Rightarrow> (string \<times> string) list" where
  "header_list h = (case h of None \<Rightarrow> [] | Some l \<Rightarrow> l)"

definition setRequestHeaders :: "'db env \<Rightarrow> request \<Rightarrow> Schedule \<Rightarrow> request go" where
  "setRequestHeaders E req input =
     bind_go (as_HttpCallback (Callback input)) (\<lambda>h.
       let req = header_Set ''Content-Type'' ''application/json'' req;
           req = fold (\<lambda>(k, v). header_Set k v) (header_list (Headers (Details h))) req;
           req = header_Set ''Schedule-Id'' (env_String E (ScheduleId input)) req
       in Ret (if \<not> IsZeroUUID (ParentScheduleId input)
               then header_Set ''Parent-Schedule-Id'' (env_String E (ParentScheduleId input)) req
               else req))"

definition createRequest :: "'db env \<Rightarrow> http_client \<Rightarrow> Schedule \<Rightarrow> (go_error + request) go" where
  "createRequest E cl input =
     bind_go (as_HttpCallback (Callback input)) (\<lambda>h.
       case NewRequest cl (Method (Details h)) (Url (Details h)) (Payload input) of
         Inl err \<Rightarrow> Ret (Inl err)
       | Inr req \<Rightarrow> bind_go (setRequestHeaders E req input) (\<lambda>req. Ret (Inr req)))"

section \<open>Attempts\<close>

text \<open>The outside sees the requests; the aggregation queue gets the results.\<close>

record http_state =
  Requests :: "request list"
  AggregationTaskQueue :: "ScheduleWrapper list"

definition client_Do :: "http_client \<Rightarrow> request \<Rightarrow> (http_state, response option \<times> go_error option) io" where
  "client_Do cl req st = (Ret (Do cl (Requests st) req), st\<lparr>Requests := Requests st @ [req]\<rparr>)"

text \<open>\<^verbatim>\<open>handleResponseDump\<close> only logs, but closes the body of a response that must be there without an error.\<close>

definition handleResponseDump :: "response option \<Rightarrow> go_error option \<Rightarrow> unit go" where
  "handleResponseDump response err =
     (if err \<noteq> None \<or> response \<noteq> None then Ret () else Panic ''nil pointer dereference'')"

function retry_loop ::
    "'db env \<Rightarrow> http_client \<Rightarrow> Schedule \<Rightarrow> int64 \<Rightarrow> int64 \<Rightarrow> (http_state, response option \<times> go_error option) io" where
  "retry_loop E cl input maxAttempts attempts =
     (let attempts = attempts + 1 in
      bnd (lift_go (as_HttpCallback (Callback input))) (\<lambda>_.
      bnd (lift_go (createRequest E cl input)) (\<lambda>r.
        case r of
          Inl err \<Rightarrow> ret (None, Some err)
        | Inr req \<Rightarrow>
            bnd (client_Do cl req) (\<lambda>(response, err).
            bnd (lift_go (handleResponseDump response err)) (\<lambda>_.
              if shouldRetry maxAttempts attempts response then retry_loop E cl input maxAttempts attempts
              else ret (response, err))))))"
  by pat_completeness auto
termination
  by (relation "measure (\<lambda>(E, cl, input, m, a). nat (m - a))") (auto simp: shouldRetry_def split: if_splits)

declare retry_loop.simps [simp del]

definition retryPost :: "'db env \<Rightarrow> http_client \<Rightarrow> Schedule \<Rightarrow> (http_state, response option \<times> go_error option) io" where
  "retryPost E cl input = recovering (None, None) (retry_loop E cl input 3 0)"

section \<open>Results\<close>

definition callback_result :: "response option \<Rightarrow> go_error option \<Rightarrow> Schedule \<Rightarrow> Schedule go" where
  "callback_result response err result =
     (case err of
        Some e \<Rightarrow> Ret (result\<lparr>Status := Failure, ErrorMessage := trim (Error e)\<rparr>)
      | None \<Rightarrow>
          if \<not> isSuccess response then
            (case response of
               None \<Rightarrow> Panic ''nil pointer dereference''
             | Some r \<Rightarrow> Ret (result\<lparr>Status := Failure, ErrorMessage := trim (StatusText r)\<rparr>))
          else Ret (result\<lparr>Status := Success, ErrorMessage := []\<rparr>))"

definition handleCallbackResult ::
    "'db env \<Rightarrow> response option \<Rightarrow> go_error option \<Rightarrow> Schedule \<Rightarrow> App \<Rightarrow> bool \<Rightarrow> (http_state, unit) io" where
  "handleCallbackResult E response err result app isReconciliation =
     bnd (lift_go (callback_result response err result)) (\<lambda>result.
       let result = (if isReconciliation
                     then UpdateReconciliationHistory (env_Civil E (env_Now E)) (Status result) (ErrorMessage result) result
                     else result)
       in (\<lambda>st. (Ret (), st\<lparr>AggregationTaskQueue := AggregationTaskQueue st @
             [\<lparr>sw_Schedule = result, sw_App = app, IsReconciliation = False\<rparr>]\<rparr>)))"

definition processSchedule :: "'db env \<Rightarrow> http_client \<Rightarrow> ScheduleWrapper \<Rightarrow> (http_state, unit) io" where
  "processSchedule E cl scheduleWrapper =
     bnd (retryPost E cl (sw_Schedule scheduleWrapper)) (\<lambda>(response, err).
       handleCallbackResult E response err (sw_Schedule scheduleWrapper) (sw_App scheduleWrapper)
         (IsReconciliation scheduleWrapper))"

text \<open>A worker goes on with what it receives, in the order of the channel.\<close>

fun listen :: "'db env \<Rightarrow> http_client \<Rightarrow> ScheduleWrapper list \<Rightarrow> (http_state, unit) io" where
  "listen E cl [] = ret ()"
| "listen E cl (sw # buf) = bnd (processSchedule E cl sw) (\<lambda>_. listen E cl buf)"

section \<open>What a worker does with a schedule\<close>

lemma as_HttpCallback_Ret [simp]: "as_HttpCallback (Some (HttpCallback h)) = Ret h"
  by (simp add: as_HttpCallback_def)

lemma createRequest_cases:
  assumes "Callback s = Some (HttpCallback h)"
  obtains err where "createRequest E cl s = Ret (Inl err)" | req where "createRequest E cl s = Ret (Inr req)"
proof (cases "NewRequest cl (Method (Details h)) (Url (Details h)) (Payload s)")
  case (Inl err)
  then have "createRequest E cl s = Ret (Inl err)" by (simp add: createRequest_def assms)
  then show thesis by (rule that)
next
  case (Inr req)
  then have "\<exists>req. createRequest E cl s = Ret (Inr req)"
    by (simp add: createRequest_def assms setRequestHeaders_def Let_def)
  then show thesis using that by blast
qed

definition answer :: "http_client \<Rightarrow> http_state \<Rightarrow> request \<Rightarrow> nat \<Rightarrow> response option \<times> go_error option" where
  "answer cl st req i = Do cl (Requests st @ replicate i req) req"

lemma handleResponseDump_ok: "answers_once cl \<Longrightarrow> Do cl sent req = (r, e) \<Longrightarrow> handleResponseDump r e = Ret ()"
  unfolding answers_once_def handleResponseDump_def by (metis fst_conv snd_conv)

lemma retry_loop_step:
  assumes "answers_once cl" and "Callback s = Some (HttpCallback h)" and "createRequest E cl s = Ret (Inr req)"
  shows "retry_loop E cl s m a st =
    (case Do cl (Requests st) req of (r, e) \<Rightarrow>
       if shouldRetry m (a + 1) r then retry_loop E cl s m (a + 1) (st\<lparr>Requests := Requests st @ [req]\<rparr>)
       else (Ret (r, e), st\<lparr>Requests := Requests st @ [req]\<rparr>))"
proof -
  obtain r e where do: "Do cl (Requests st) req = (r, e)" by fastforce
  show ?thesis
    by (subst retry_loop.simps)
       (simp add: assms(2,3) bnd_def client_Do_def do lift_go_def handleResponseDump_ok [OF assms(1) do] ret_def Let_def)
qed

text \<open>
  The loop makes requests up to the first success, at most as many as are left: \<open>n\<close> requests, all
  the same, of which only the last may have been successful.
\<close>

lemma retry_loop_runs:
  assumes "answers_once cl" and "Callback s = Some (HttpCallback h)" and "createRequest E cl s = Ret (Inr req)"
    and "a < m"
  shows "\<exists>n. 1 \<le> n \<and> n \<le> nat (m - a) \<and>
    retry_loop E cl s m a st = (Ret (answer cl st req (n - 1)), st\<lparr>Requests := Requests st @ replicate n req\<rparr>) \<and>
    (\<forall>i < n - 1. \<not> isSuccess (fst (answer cl st req i))) \<and>
    (n = nat (m - a) \<or> isSuccess (fst (answer cl st req (n - 1))))"
  using assms(4)
proof (induction "nat (m - a)" arbitrary: a st rule: less_induct)
  case less
  obtain r e where do: "Do cl (Requests st) req = (r, e)" by fastforce
  then have first: "answer cl st req 0 = (r, e)" by (simp add: answer_def)
  note step = retry_loop_step [OF assms(1-3), of m a st, unfolded do prod.case]
  show ?case
  proof (cases "shouldRetry m (a + 1) r")
    case False
    then have "m = a + 1 \<or> isSuccess r" using less.prems by (auto simp: shouldRetry_def split: if_splits)
    with False step first less.prems show ?thesis by (intro exI [of _ 1]) auto
  next
    case True
    then have am: "a + 1 < m" and nr: "\<not> isSuccess r" by (auto simp: shouldRetry_def split: if_splits)
    let ?st = "st\<lparr>Requests := Requests st @ [req]\<rparr>"
    have shift: "answer cl ?st req i = answer cl st req (Suc i)" for i by (simp add: answer_def)
    from less.hyps [OF _ am, of ?st] am obtain n where n: "1 \<le> n" "n \<le> nat (m - (a + 1))"
        "retry_loop E cl s m (a + 1) ?st = (Ret (answer cl ?st req (n - 1)), ?st\<lparr>Requests := Requests ?st @ replicate n req\<rparr>)"
        "\<forall>i < n - 1. \<not> isSuccess (fst (answer cl ?st req i))"
        "n = nat (m - (a + 1)) \<or> isSuccess (fst (answer cl ?st req (n - 1)))"
      by auto
    have "\<forall>i < Suc n - 1. \<not> isSuccess (fst (answer cl st req i))"
    proof (intro allI impI)
      fix i assume "i < Suc n - 1"
      then show "\<not> isSuccess (fst (answer cl st req i))"
        using n(1,4) nr first shift by (cases i) auto
    qed
    moreover have "retry_loop E cl s m a st = (Ret (answer cl st req (Suc n - 1)), st\<lparr>Requests := Requests st @ replicate (Suc n) req\<rparr>)"
      using step True n(1,3) shift by simp
    moreover have "Suc n = nat (m - a) \<or> isSuccess (fst (answer cl st req (Suc n - 1)))"
      using n(1,5) shift am by auto
    ultimately show ?thesis using n(1,2) am by (intro exI [of _ "Suc n"]) auto
  qed
qed

lemma length_trim: "length (trim m) \<le> 200"
  by (simp add: trim_def)

lemma UpdateReconciliationHistory_keeps [simp]:
  "Status (UpdateReconciliationHistory t st m s) = Status s"
  "ErrorMessage (UpdateReconciliationHistory t st m s) = ErrorMessage s"
  "ScheduleId (UpdateReconciliationHistory t st m s) = ScheduleId s"
  "AppId (UpdateReconciliationHistory t st m s) = AppId s"
  "PartitionId (UpdateReconciliationHistory t st m s) = PartitionId s"
  by (simp_all add: UpdateReconciliationHistory_def Let_def)

definition outcome :: "response option \<Rightarrow> status" where
  "outcome r = (if isSuccess r then Success else Failure)"

text \<open>An answer in keeping with the contract of the client always gives a result.\<close>

lemma handleCallbackResult_sends:
  assumes "r = None \<longleftrightarrow> e \<noteq> None"
  shows "\<exists>result. handleCallbackResult E r e s app b st =
      (Ret (), st\<lparr>AggregationTaskQueue := AggregationTaskQueue st @ [\<lparr>sw_Schedule = result, sw_App = app, IsReconciliation = False\<rparr>]\<rparr>) \<and>
    Status result = outcome r \<and> length (ErrorMessage result) \<le> 200 \<and>
    (isSuccess r \<longrightarrow> ErrorMessage result = []) \<and>
    ScheduleId result = ScheduleId s \<and> AppId result = AppId s \<and> PartitionId result = PartitionId s"
  using assms
  by (cases r; cases e)
     (auto simp: handleCallbackResult_def callback_result_def bnd_def lift_go_def outcome_def isSuccess_def length_trim Let_def)

text \<open>The request cannot be formed; or it is made until the loop ends.\<close>

lemma retryPost_no_request:
  assumes "Callback s = Some (HttpCallback h)" and "createRequest E cl s = Ret (Inl err)"
  shows "retryPost E cl s st = (Ret (None, Some err), st)"
  unfolding retryPost_def
  by (rule recovering_Ret, subst retry_loop.simps) (simp add: assms bnd_def lift_go_def ret_def Let_def)

lemma retryPost_runs:
  assumes "answers_once cl" and "Callback s = Some (HttpCallback h)" and "createRequest E cl s = Ret (Inr req)"
  shows "\<exists>n r e. 1 \<le> n \<and> n \<le> 3 \<and> answer cl st req (n - 1) = (r, e) \<and> (r = None \<longleftrightarrow> e \<noteq> None) \<and>
    retryPost E cl s st = (Ret (r, e), st\<lparr>Requests := Requests st @ replicate n req\<rparr>) \<and>
    (\<forall>i < n - 1. \<not> isSuccess (fst (answer cl st req i))) \<and> (n = 3 \<or> isSuccess r)"
proof -
  from retry_loop_runs [OF assms, of 0 3 st] obtain n where n: "1 \<le> n" "n \<le> 3"
      "retry_loop E cl s 3 0 st = (Ret (answer cl st req (n - 1)), st\<lparr>Requests := Requests st @ replicate n req\<rparr>)"
      "\<forall>i < n - 1. \<not> isSuccess (fst (answer cl st req i))" "n = 3 \<or> isSuccess (fst (answer cl st req (n - 1)))"
    by auto
  obtain r e where re: "answer cl st req (n - 1) = (r, e)" by fastforce
  moreover have "r = None \<longleftrightarrow> e \<noteq> None"
    using assms(1) re unfolding answers_once_def answer_def by (metis fst_conv snd_conv)
  moreover have "retryPost E cl s st = (Ret (r, e), st\<lparr>Requests := Requests st @ replicate n req\<rparr>)"
    unfolding retryPost_def using n(3) re by (intro recovering_Ret) simp
  ultimately show ?thesis using n by auto
qed


definition sample_client :: http_client where
  "sample_client =
     \<lparr>Do = (\<lambda>sent r. if length sent < 1 then (Some \<lparr>StatusCode = 503, StatusText = ''503 Service Unavailable''\<rparr>, None)
                    else (Some \<lparr>StatusCode = 200, StatusText = ''200 OK''\<rparr>, None)),
      url_Error = (\<lambda>u. ''parse error'')\<rparr>"

lemma sample_client_answers: "answers_once sample_client"
  by (simp add: answers_once_def sample_client_def)

definition sample_wrapper :: ScheduleWrapper where
  "sample_wrapper = \<lparr>sw_Schedule = sample_schedule, sw_App = sample_app, IsReconciliation = False\<rparr>"

lemma sample_request: "\<exists>req. createRequest sample_env sample_client sample_schedule = Ret (Inr req)"
proof -
  have "list_all is_token_char ''POST''" "Parse_ok ''http://h/x''" by code_simp+
  then show ?thesis
    by (simp add: createRequest_def NewRequest_def setRequestHeaders_def sample_http_def sample_schedule_def Let_def)
qed


section \<open>Headers of a request\<close>

lemma header_Set_lookup:
  "map_of (req_Header (header_Set k v r)) = (map_of (req_Header r))(canonical_key k \<mapsto> v)"
  by (simp add: header_Set_def)

lemma header_Set_keeps [simp]:
  "req_Method (header_Set k v r) = req_Method r" "req_Url (header_Set k v r) = req_Url r"
  "req_Body (header_Set k v r) = req_Body r"
  by (simp_all add: header_Set_def)

lemma fold_header_Set:
  "req_Method (fold (\<lambda>(k, v). header_Set k v) hs r) = req_Method r \<and>
   req_Url (fold (\<lambda>(k, v). header_Set k v) hs r) = req_Url r \<and>
   req_Body (fold (\<lambda>(k, v). header_Set k v) hs r) = req_Body r \<and>
   (\<forall>k. k \<notin> canonical_key ` fst ` set hs \<longrightarrow>
      map_of (req_Header (fold (\<lambda>(k, v). header_Set k v) hs r)) k = map_of (req_Header r) k)"
  by (induction hs arbitrary: r) (auto simp: header_Set_lookup)

lemma canonical_names [simp]:
  "canonical_key ''Schedule-Id'' = ''Schedule-Id''" "canonical_key ''Parent-Schedule-Id'' = ''Parent-Schedule-Id''"
  "canonical_key ''Content-Type'' = ''Content-Type''"
  by code_simp+

text \<open>
  The request of a schedule has the method, URL and payload of the schedule. The header
  \<open>Schedule-Id\<close> is the identifier of the schedule and, for a run of a recurring schedule,
  \<open>Parent-Schedule-Id\<close> that of its parent, whatever headers the callback asks for; the content type
  is JSON unless the callback gives another one.
\<close>

theorem createRequest_headers:
  assumes "Callback s = Some (HttpCallback h)" and "Method (Details h) \<noteq> []"
    and "createRequest E cl s = Ret (Inr req)"
  shows "req_Method req = Method (Details h) \<and> req_Url req = Url (Details h) \<and> req_Body req = Payload s \<and>
    map_of (req_Header req) ''Schedule-Id'' = Some (env_String E (ScheduleId s)) \<and>
    (IsZeroUUID (ParentScheduleId s) \<or>
       map_of (req_Header req) ''Parent-Schedule-Id'' = Some (env_String E (ParentScheduleId s))) \<and>
    (''Content-Type'' \<in> canonical_key ` fst ` set (header_list (Headers (Details h))) \<or>
       map_of (req_Header req) ''Content-Type'' = Some ''application/json'')"
proof -
  from assms obtain r0 where r0: "NewRequest cl (Method (Details h)) (Url (Details h)) (Payload s) = Inr r0"
      "setRequestHeaders E r0 s = Ret req"
    by (auto simp: createRequest_def bind_go_eq_Ret split: sum.splits)
  have new: "req_Method r0 = Method (Details h)" "req_Url r0 = Url (Details h)" "req_Body r0 = Payload s"
    using r0(1) assms(2) by (auto simp: NewRequest_def Let_def split: if_splits)
  let ?r1 = "header_Set ''Content-Type'' ''application/json'' r0"
  let ?hs = "header_list (Headers (Details h))"
  let ?r3 = "header_Set ''Schedule-Id'' (env_String E (ScheduleId s)) (fold (\<lambda>(k, v). header_Set k v) ?hs ?r1)"
  have req: "req = (if \<not> IsZeroUUID (ParentScheduleId s)
      then header_Set ''Parent-Schedule-Id'' (env_String E (ParentScheduleId s)) ?r3 else ?r3)"
    using r0(2) assms(1) by (simp add: setRequestHeaders_def Let_def)
  note f = fold_header_Set [of ?hs ?r1]
  have ct: "''Content-Type'' \<in> canonical_key ` fst ` set ?hs \<or>
      map_of (req_Header (fold (\<lambda>(k, v). header_Set k v) ?hs ?r1)) ''Content-Type'' = Some ''application/json''"
    using f by (cases "''Content-Type'' \<in> canonical_key ` fst ` set ?hs") (simp_all add: header_Set_lookup)
  show ?thesis using f ct new by (auto simp: req header_Set_lookup)
qed

theorem createRequest_headers_witness:
  "\<exists>req. createRequest sample_env sample_client sample_schedule = Ret (Inr req) \<and> req_Method req = ''POST'' \<and>
    map_of (req_Header req) ''Schedule-Id'' = Some (env_String sample_env (ScheduleId sample_schedule)) \<and>
    map_of (req_Header req) ''Content-Type'' = Some ''application/json''"
proof -
  have cb: "Callback sample_schedule = Some (HttpCallback sample_http)" by (simp add: sample_schedule_def)
  obtain req where req: "createRequest sample_env sample_client sample_schedule = Ret (Inr req)"
    using sample_request by blast
  have "''Content-Type'' \<notin> canonical_key ` fst ` set (header_list (Headers (Details sample_http)))"
    by code_simp
  with createRequest_headers [OF cb _ req] req show ?thesis
    by (simp add: sample_http_def)
qed

end
