(* ===== verification/Pipeline.thy ===== *)
theory Pipeline
  imports HttpConnector Aggregate ClusterDaoProperties
begin

text \<open>
  From the pollers to the status table: the HTTP workers, the aggregation workers with their tickers and the status workers run
  side by side (src/connectors) and hand schedules on over channels (src/store/task.go). A channel without a buffer passes a value
  only when a sender and a receiver meet, and a full buffer makes its senders wait; an aggregation worker and its ticker exclude
  each other by a lock that they keep while they send. What can happen is the step relation \<open>pipe_step\<close> over the operations of
  the components. It is shown that nothing is lost, that the workers never wait for each other for ever, and that every schedule
  that was fired ends with its outcome in the status table.
\<close>

section \<open>The state\<close>

text \<open>The main loop of an aggregation worker: it waits for the channel, for the lock, or for a status worker to take its batch.\<close>

datatype agg_main = Receiving | Locking ScheduleWrapper | Forwarding

record agg_worker =
  aw_Main :: agg_main
  aw_Groups :: groups
  aw_Out :: "StatusTask list"

text \<open>
  \<open>offered\<close> is what the pollers are about to send to the queue of the HTTP workers; an HTTP worker is idle or holds a result that it has
  to send; \<open>buffer\<close> is the content of the aggregation queue; a status worker is idle or has a task. \<open>written\<close> lists the
  results of the status updates made so far.
\<close>

record 'db pipe =
  offered :: "ScheduleWrapper list"
  posted :: "request list"
  http_workers :: "ScheduleWrapper option list"
  buffer :: "ScheduleWrapper list"
  agg_workers :: "agg_worker list"
  status_workers :: "StatusTask option list"
  pp_Cluster :: "'db cluster"
  written :: "Schedule list"

definition idle_aggregator :: agg_worker where
  "idle_aggregator = \<lparr>aw_Main = Receiving, aw_Groups = [], aw_Out = []\<rparr>"

text \<open>The workers when they have just started, as many as the configuration says.\<close>

definition start_pipe :: "ScheduleWrapper list \<Rightarrow> nat \<Rightarrow> nat \<Rightarrow> nat \<Rightarrow> 'db cluster \<Rightarrow> 'db pipe" where
  "start_pipe sws h a u c =
     \<lparr>offered = sws, posted = [], http_workers = replicate h None, buffer = [], agg_workers = replicate a idle_aggregator,
      status_workers = replicate u None, pp_Cluster = c, written = []\<rparr>"

section \<open>The steps\<close>

text \<open>An aggregation worker that has the lock: what it then holds, and the task that it sends if the batch is full.\<close>

definition agg_receive :: "'db env \<Rightarrow> ScheduleWrapper \<Rightarrow> agg_worker \<Rightarrow> 'db cluster \<Rightarrow> agg_worker" where
  "agg_receive E sw w c =
     (let st = receive E sw \<lparr>schedules = aw_Groups w, StatusTaskQueue = [], agg_Cluster = c\<rparr> in
      \<lparr>aw_Main = (if StatusTaskQueue st = [] then Receiving else Forwarding), aw_Groups = schedules st, aw_Out = StatusTaskQueue st\<rparr>)"

text \<open>A tick: the tasks to be sent one by one, for which the apps are fetched before the first is sent, and the empty map.\<close>

definition agg_tick :: "'db env \<Rightarrow> agg_worker \<Rightarrow> 'db cluster \<Rightarrow> agg_worker \<times> 'db cluster" where
  "agg_tick E w c =
     (let st = flush E \<lparr>schedules = aw_Groups w, StatusTaskQueue = [], agg_Cluster = c\<rparr> in
      (w\<lparr>aw_Groups := schedules st, aw_Out := StatusTaskQueue st\<rparr>, agg_Cluster st))"

text \<open>A status worker has taken the first task.\<close>

definition agg_sent :: "agg_worker \<Rightarrow> agg_worker" where
  "agg_sent w = w\<lparr>aw_Out := tl (aw_Out w), aw_Main := (if aw_Main w = Forwarding \<and> tl (aw_Out w) = [] then Receiving else aw_Main w)\<rparr>"

text \<open>
  The calls of one schedule are one step of its HTTP worker. A step of a ticker with nothing to send is \<open>idle_tick\<close>; the others
  move a schedule on.
\<close>

inductive moves :: "'db env \<Rightarrow> http_client \<Rightarrow> nat \<Rightarrow> 'db pipe \<Rightarrow> 'db pipe \<Rightarrow> bool" for E cl cap where
  fire: "offered s = xs @ sw # ys \<Longrightarrow> i < length (http_workers s) \<Longrightarrow> http_workers s ! i = None \<Longrightarrow>
    processSchedule E cl sw \<lparr>Requests = posted s, AggregationTaskQueue = []\<rparr> = (Ret (), \<lparr>Requests = reqs, AggregationTaskQueue = [r]\<rparr>) \<Longrightarrow>
    moves E cl cap s (s\<lparr>offered := xs @ ys, posted := reqs, http_workers := (http_workers s)[i := Some r]\<rparr>)"
| send: "i < length (http_workers s) \<Longrightarrow> http_workers s ! i = Some r \<Longrightarrow> length (buffer s) < cap \<Longrightarrow>
    moves E cl cap s (s\<lparr>http_workers := (http_workers s)[i := None], buffer := buffer s @ [r]\<rparr>)"
| hand_over: "i < length (http_workers s) \<Longrightarrow> http_workers s ! i = Some r \<Longrightarrow> buffer s = [] \<Longrightarrow>
    j < length (agg_workers s) \<Longrightarrow> agg_workers s ! j = w \<Longrightarrow> aw_Main w = Receiving \<Longrightarrow>
    moves E cl cap s (s\<lparr>http_workers := (http_workers s)[i := None], agg_workers := (agg_workers s)[j := w\<lparr>aw_Main := Locking r\<rparr>]\<rparr>)"
| take_buffer: "buffer s = r # rs \<Longrightarrow> j < length (agg_workers s) \<Longrightarrow> agg_workers s ! j = w \<Longrightarrow> aw_Main w = Receiving \<Longrightarrow>
    moves E cl cap s (s\<lparr>buffer := rs, agg_workers := (agg_workers s)[j := w\<lparr>aw_Main := Locking r\<rparr>]\<rparr>)"
| aggregate: "j < length (agg_workers s) \<Longrightarrow> agg_workers s ! j = w \<Longrightarrow> aw_Main w = Locking r \<Longrightarrow> aw_Out w = [] \<Longrightarrow>
    moves E cl cap s (s\<lparr>agg_workers := (agg_workers s)[j := agg_receive E r w (pp_Cluster s)]\<rparr>)"
| tick: "j < length (agg_workers s) \<Longrightarrow> agg_workers s ! j = w \<Longrightarrow> aw_Out w = [] \<Longrightarrow>
    agg_tick E w (pp_Cluster s) = (w', c) \<Longrightarrow> aw_Out w' \<noteq> [] \<Longrightarrow>
    moves E cl cap s (s\<lparr>agg_workers := (agg_workers s)[j := w'], pp_Cluster := c\<rparr>)"
| forward: "j < length (agg_workers s) \<Longrightarrow> agg_workers s ! j = w \<Longrightarrow> aw_Out w = t # ts \<Longrightarrow>
    k < length (status_workers s) \<Longrightarrow> status_workers s ! k = None \<Longrightarrow>
    moves E cl cap s (s\<lparr>agg_workers := (agg_workers s)[j := agg_sent w], status_workers := (status_workers s)[k := Some t]\<rparr>)"
| update: "k < length (status_workers s) \<Longrightarrow> status_workers s ! k = Some t \<Longrightarrow>
    moves E cl cap s (s\<lparr>status_workers := (status_workers s)[k := None],
      pp_Cluster := (pp_Cluster s)\<lparr>cl_DB := updateStatus E [t] (cl_DB (pp_Cluster s))\<rparr>, written := written s @ st_Schedules t\<rparr>)"

inductive pipe_step :: "'db env \<Rightarrow> http_client \<Rightarrow> nat \<Rightarrow> 'db pipe \<Rightarrow> 'db pipe \<Rightarrow> bool" for E cl cap where
  move: "moves E cl cap s s' \<Longrightarrow> pipe_step E cl cap s s'"
| idle_tick: "j < length (agg_workers s) \<Longrightarrow> agg_workers s ! j = w \<Longrightarrow> aw_Out w = [] \<Longrightarrow>
    agg_tick E w (pp_Cluster s) = (w', c) \<Longrightarrow> aw_Out w' = [] \<Longrightarrow>
    pipe_step E cl cap s (s\<lparr>agg_workers := (agg_workers s)[j := w'], pp_Cluster := c\<rparr>)"

text \<open>The schedules that wait in the map of an aggregation worker.\<close>

definition waiting :: "groups \<Rightarrow> Schedule list" where
  "waiting m = concat (map (\<lambda>(a, ps). concat (map snd ps)) m)"

text \<open>Nothing is left to do.\<close>

definition drained :: "'db pipe \<Rightarrow> bool" where
  "drained s \<longleftrightarrow> offered s = [] \<and> list_all (\<lambda>w. w = None) (http_workers s) \<and> buffer s = [] \<and>
     list_all (\<lambda>w. aw_Main w = Receiving \<and> aw_Out w = [] \<and> waiting (aw_Groups w) = []) (agg_workers s) \<and>
     list_all (\<lambda>w. w = None) (status_workers s)"

section \<open>What the pipe holds\<close>

lemma sum_list_map_update:
  fixes f :: "'a \<Rightarrow> 'b :: comm_monoid_add"
  shows "i < length xs \<Longrightarrow> sum_list (map f (xs[i := y])) + f (xs ! i) = sum_list (map f xs) + f y"
  by (induction xs arbitrary: i) (auto simp: nth_Cons ac_simps split: nat.splits)

text \<open>What the parts of the pipe hold.\<close>

fun main_content :: "agg_main \<Rightarrow> Schedule multiset" where
  "main_content (Locking r) = {#sw_Schedule r#}"
| "main_content _ = {#}"

definition agg_content :: "agg_worker \<Rightarrow> Schedule multiset" where
  "agg_content w = main_content (aw_Main w) + mset (waiting (aw_Groups w)) + mset (sent (aw_Out w))"

fun held :: "ScheduleWrapper option \<Rightarrow> Schedule multiset" where
  "held None = {#}"
| "held (Some r) = {#sw_Schedule r#}"

fun task_content :: "StatusTask option \<Rightarrow> Schedule multiset" where
  "task_content None = {#}"
| "task_content (Some t) = mset (st_Schedules t)"

text \<open>The results in the pipe, written ones included.\<close>

definition results :: "'db pipe \<Rightarrow> Schedule multiset" where
  "results s = sum_list (map held (http_workers s)) + mset (map sw_Schedule (buffer s)) + sum_list (map agg_content (agg_workers s)) +
     sum_list (map task_content (status_workers s)) + mset (written s)"

definition agg_ok :: "'db env \<Rightarrow> agg_worker \<Rightarrow> bool" where
  "agg_ok E w \<longleftrightarrow> sorted_in (aw_Groups w) \<and> all_short E (aw_Groups w) \<and> (\<forall>t \<in> set (aw_Out w). st_Schedules t \<noteq> []) \<and>
     (aw_Main w = Forwarding \<longrightarrow> aw_Out w \<noteq> [])"

lemma mset_by_keys:
  assumes "\<And>a p. filter (has_key a p) xs = filter (has_key a p) ys"
  shows "mset xs = mset ys"
proof (rule multiset_eqI)
  fix x
  have "count (mset zs) x = count (mset (filter (has_key (AppId x) (PartitionId x)) zs)) x" for zs
    by (simp add: has_key_def)
  from this [of xs] this [of ys] show "count (mset xs) x = count (mset ys) x" unfolding assms by (rule trans [OF _ sym])
qed

text \<open>A worker that holds its map is in the state of one that has received what waits in it.\<close>

lemma waiting_inv:
  assumes "sorted_in m" and "all_short E m"
  shows "agg_inv E (map (\<lambda>x. \<lparr>sw_Schedule = x, sw_App = empty_app, IsReconciliation = False\<rparr>) (waiting m))
    \<lparr>schedules = m, StatusTaskQueue = [], agg_Cluster = c\<rparr>"
  using assms filter_groups [OF assms(1)] by (simp add: agg_inv_def waiting_def o_def)

lemma agg_inv_content:
  assumes "agg_inv E sws st"
  shows "mset (sent (StatusTaskQueue st)) + mset (waiting (schedules st)) = mset (map sw_Schedule sws)"
proof -
  have "sorted_in (schedules st)" using assms by (simp add: agg_inv_def)
  then have "filter (has_key a p) (sent (StatusTaskQueue st) @ waiting (schedules st)) = filter (has_key a p) (map sw_Schedule sws)" for a p
    using assms filter_groups [of "schedules st" a p] by (simp add: agg_inv_def waiting_def)
  from mset_by_keys [OF this] show ?thesis by simp
qed

lemma agg_inv_ok: "agg_inv E sws st \<Longrightarrow> sorted_in (schedules st) \<and> all_short E (schedules st) \<and> (\<forall>t \<in> set (StatusTaskQueue st). st_Schedules t \<noteq> [])"
  by (auto simp: agg_inv_def batch_ok_def)

lemma agg_receive_keeps:
  assumes "agg_ok E w" and "aw_Main w = Locking r" and "aw_Out w = []"
  shows "agg_ok E (agg_receive E r w c)" and "agg_content (agg_receive E r w c) = agg_content w"
    and "main_content (aw_Main (agg_receive E r w c)) = {#}"
proof -
  let ?st = "receive E r \<lparr>schedules = aw_Groups w, StatusTaskQueue = [], agg_Cluster = c\<rparr>"
  have inv: "agg_inv E (map (\<lambda>x. \<lparr>sw_Schedule = x, sw_App = empty_app, IsReconciliation = False\<rparr>) (waiting (aw_Groups w)) @ [r]) ?st"
    using assms(1) by (intro agg_inv_receive waiting_inv) (auto simp: agg_ok_def)
  from agg_inv_ok [OF inv] show "agg_ok E (agg_receive E r w c)" by (simp add: agg_ok_def agg_receive_def Let_def)
  from agg_inv_content [OF inv] show "agg_content (agg_receive E r w c) = agg_content w"
    using assms(2,3) by (auto simp: agg_content_def agg_receive_def Let_def o_def ac_simps)
  show "main_content (aw_Main (agg_receive E r w c)) = {#}" by (simp add: agg_receive_def Let_def)
qed

lemma flush_partitions_DB: "flush_partitions E a reuse ps c = (tasks, c') \<Longrightarrow> cl_DB c' = cl_DB c"
  by (induction ps arbitrary: reuse c tasks c') (auto split: if_splits option.splits prod.splits dest!: GetApp_keeps_DB)

lemma flush_apps_DB: "flush_apps E m c = (tasks, c') \<Longrightarrow> cl_DB c' = cl_DB c"
  by (induction m arbitrary: c tasks c') (auto split: prod.splits dest!: flush_partitions_DB)

lemma agg_tick_keeps:
  assumes "agg_ok E w" and "aw_Out w = []" and "agg_tick E w c = (w', c')"
  shows "agg_ok E w'" and "agg_content w' = agg_content w" and "aw_Main w' = aw_Main w" and "waiting (aw_Groups w') = []" and "cl_DB c' = cl_DB c"
proof -
  let ?st0 = "\<lparr>schedules = aw_Groups w, StatusTaskQueue = [], agg_Cluster = c\<rparr>"
  have inv: "agg_inv E (map (\<lambda>x. \<lparr>sw_Schedule = x, sw_App = empty_app, IsReconciliation = False\<rparr>) (waiting (aw_Groups w))) (flush E ?st0)"
    using assms(1) by (intro agg_inv_flush waiting_inv) (auto simp: agg_ok_def)
  have w': "w' = w\<lparr>aw_Groups := schedules (flush E ?st0), aw_Out := StatusTaskQueue (flush E ?st0)\<rparr>" "c' = agg_Cluster (flush E ?st0)"
    using assms(3) by (simp_all add: agg_tick_def Let_def)
  show "agg_ok E w'" using agg_inv_ok [OF inv] assms(1,2) by (simp add: agg_ok_def w')
  show "agg_content w' = agg_content w" using agg_inv_content [OF inv] assms(2) by (simp add: agg_content_def w' o_def ac_simps)
  show "aw_Main w' = aw_Main w" by (simp add: w')
  show "waiting (aw_Groups w') = []" by (simp add: w' flush_def waiting_def split: prod.split)
  show "cl_DB c' = cl_DB c" by (simp add: w' flush_def flush_apps_DB split: prod.split)
qed

lemma agg_sent_keeps:
  assumes "agg_ok E w" and "aw_Out w = t # ts"
  shows "agg_ok E (agg_sent w)" and "agg_content w = agg_content (agg_sent w) + mset (st_Schedules t)"
    and "main_content (aw_Main (agg_sent w)) = main_content (aw_Main w)"
  using assms by (cases "aw_Main w"; auto simp: agg_ok_def agg_sent_def agg_content_def ac_simps)+

section \<open>What holds in every state\<close>

text \<open>A schedule is fired with a callback that the HTTP workers know.\<close>

definition postable :: "ScheduleWrapper \<Rightarrow> bool" where
  "postable sw \<longleftrightarrow> (\<exists>h. Callback (sw_Schedule sw) = Some (HttpCallback h))"

definition reported :: "Schedule \<Rightarrow> bool" where
  "reported s \<longleftrightarrow> Status s \<in> {Success, Failure} \<and> length (ErrorMessage s) \<le> 200"

lemma processSchedule_reports:
  assumes "answers_once cl" and "postable sw"
  shows "\<exists>reqs r. processSchedule E cl sw \<lparr>Requests = qs, AggregationTaskQueue = []\<rparr> = (Ret (), \<lparr>Requests = reqs, AggregationTaskQueue = [r]\<rparr>) \<and>
    reported (sw_Schedule r) \<and> status_key (sw_Schedule r) = status_key (sw_Schedule sw)"
proof -
  let ?st = "\<lparr>Requests = qs, AggregationTaskQueue = []\<rparr>"
  from assms(2) obtain h where h: "Callback (sw_Schedule sw) = Some (HttpCallback h)" by (auto simp: postable_def)
  have "\<exists>r e reqs. (r = None \<longleftrightarrow> e \<noteq> None) \<and> retryPost E cl (sw_Schedule sw) ?st = (Ret (r, e), \<lparr>Requests = reqs, AggregationTaskQueue = []\<rparr>)"
    using h
  proof (cases rule: createRequest_cases [where E = E and cl = cl])
    case (1 err)
    from retryPost_no_request [OF h 1, of ?st] show ?thesis by auto
  next
    case (2 req)
    from retryPost_runs [OF assms(1) h 2, of ?st] show ?thesis by auto
  qed
  then obtain r e reqs where re: "r = None \<longleftrightarrow> e \<noteq> None" "retryPost E cl (sw_Schedule sw) ?st = (Ret (r, e), \<lparr>Requests = reqs, AggregationTaskQueue = []\<rparr>)"
    by blast
  from handleCallbackResult_sends [OF re(1), of E "sw_Schedule sw" "sw_App sw" "IsReconciliation sw" "\<lparr>Requests = reqs, AggregationTaskQueue = []\<rparr>"]
  show ?thesis using re(2) by (auto simp: processSchedule_def bnd_def reported_def outcome_def status_key_def)
qed

definition pipe_inv :: "'db env \<Rightarrow> ScheduleWrapper list \<Rightarrow> 'db pipe \<Rightarrow> bool" where
  "pipe_inv E sws s \<longleftrightarrow> list_all (agg_ok E) (agg_workers s) \<and> list_all postable (offered s) \<and> (\<forall>x \<in># results s. reported x) \<and>
     (\<forall>t. Some t \<in> set (status_workers s) \<longrightarrow> st_Schedules t \<noteq> []) \<and>
     mset (map (status_key \<circ> sw_Schedule) sws) = mset (map (status_key \<circ> sw_Schedule) (offered s)) + image_mset status_key (results s)"

text \<open>All steps but the first one of a schedule only move results.\<close>

definition same_results :: "'db env \<Rightarrow> 'db pipe \<Rightarrow> 'db pipe \<Rightarrow> bool" where
  "same_results E s s' \<longleftrightarrow> list_all (agg_ok E) (agg_workers s') \<and> offered s' = offered s \<and> results s' = results s \<and>
     (\<forall>t. Some t \<in> set (status_workers s') \<longrightarrow> st_Schedules t \<noteq> [])"

lemma same_results_inv: "pipe_inv E sws s \<Longrightarrow> same_results E s s' \<Longrightarrow> pipe_inv E sws s'"
  by (simp add: pipe_inv_def same_results_def)

lemma held_update:
  assumes "i < length ws" and "ws ! i = v"
  shows "sum_list (map held (ws[i := v'])) + held v = sum_list (map held ws) + held v'"
  using sum_list_map_update [OF assms(1), of held v'] assms(2) by simp

lemma agg_update:
  assumes "j < length ws" and "ws ! j = w"
  shows "sum_list (map agg_content (ws[j := w'])) + agg_content w = sum_list (map agg_content ws) + agg_content w'"
  using sum_list_map_update [OF assms(1), of agg_content w'] assms(2) by simp

lemma task_update:
  assumes "k < length ws" and "ws ! k = v"
  shows "sum_list (map task_content (ws[k := v'])) + task_content v = sum_list (map task_content ws) + task_content v'"
  using sum_list_map_update [OF assms(1), of task_content v'] assms(2) by simp

lemma list_all_update: "list_all P xs \<Longrightarrow> P x \<Longrightarrow> list_all P (xs[i := x])"
  using set_update_subset_insert [of xs i x] by (auto simp: list_all_iff)

lemma moves_same_results:
  assumes "moves E cl cap s s'" and "pipe_inv E sws s" and "offered s' = offered s"
  shows "same_results E s s'"
proof -
  have ok: "list_all (agg_ok E) (agg_workers s)" "\<forall>t. Some t \<in> set (status_workers s) \<longrightarrow> st_Schedules t \<noteq> []"
    using assms(2) by (simp_all add: pipe_inv_def)
  have ok_at: "agg_ok E w" if "j < length (agg_workers s)" "agg_workers s ! j = w" for j w
    using ok(1) that by (auto simp: list_all_length)
  have busy: "\<forall>t'. Some t' \<in> set ((status_workers s)[k := v]) \<longrightarrow> st_Schedules t' \<noteq> []"
    if "\<And>t'. v = Some t' \<Longrightarrow> st_Schedules t' \<noteq> []" for k v
    using ok(2) that set_update_subset_insert [of "status_workers s" k v] by blast
  show ?thesis using assms(1)
  proof cases
    case (fire xs sw ys i reqs r)
    then show ?thesis using assms(3) by auto
  next
    case (send i r)
    have "sum_list (map held (http_workers s)) = sum_list (map held ((http_workers s)[i := None])) + {#sw_Schedule r#}"
      using held_update [OF send(2,3), of None] by simp
    then show ?thesis using ok by (simp add: same_results_def results_def send(1))
  next
    case (hand_over i r j w)
    have "sum_list (map held (http_workers s)) = sum_list (map held ((http_workers s)[i := None])) + {#sw_Schedule r#}"
      using held_update [OF hand_over(2,3), of None] by simp
    moreover have "agg_content (w\<lparr>aw_Main := Locking r\<rparr>) = agg_content w + {#sw_Schedule r#}"
      using hand_over(7) by (simp add: agg_content_def)
    moreover have "agg_ok E (w\<lparr>aw_Main := Locking r\<rparr>)" using ok_at [OF hand_over(5,6)] by (simp add: agg_ok_def)
    ultimately show ?thesis
      using ok agg_update [OF hand_over(5,6), of "w\<lparr>aw_Main := Locking r\<rparr>"]
      by (simp add: same_results_def results_def hand_over(1,4) list_all_update)
  next
    case (take_buffer r rs j w)
    have "agg_content (w\<lparr>aw_Main := Locking r\<rparr>) = agg_content w + {#sw_Schedule r#}"
      using take_buffer(5) by (simp add: agg_content_def)
    moreover have "agg_ok E (w\<lparr>aw_Main := Locking r\<rparr>)" using ok_at [OF take_buffer(3,4)] by (simp add: agg_ok_def)
    ultimately show ?thesis
      using ok agg_update [OF take_buffer(3,4), of "w\<lparr>aw_Main := Locking r\<rparr>"]
      by (simp add: same_results_def results_def take_buffer(1,2) list_all_update)
  next
    case (aggregate j w r)
    note keeps = agg_receive_keeps [OF ok_at [OF aggregate(2,3)] aggregate(4,5), of "pp_Cluster s"]
    show ?thesis
      using ok agg_update [OF aggregate(2,3), of "agg_receive E r w (pp_Cluster s)"] keeps
      by (simp add: same_results_def results_def aggregate(1) list_all_update)
  next
    case (tick j w w' c)
    note keeps = agg_tick_keeps [OF ok_at [OF tick(2,3)] tick(4,5)]
    show ?thesis
      using ok agg_update [OF tick(2,3), of w'] keeps by (simp add: same_results_def results_def tick(1) list_all_update)
  next
    case (forward j w t ts k)
    note keeps = agg_sent_keeps [OF ok_at [OF forward(2,3)] forward(4)]
    have t: "st_Schedules t \<noteq> []" using ok_at [OF forward(2,3)] forward(4) by (simp add: agg_ok_def)
    have "sum_list (map agg_content (agg_workers s)) = sum_list (map agg_content ((agg_workers s)[j := agg_sent w])) + mset (st_Schedules t)"
      using agg_update [OF forward(2,3), of "agg_sent w"] keeps(2) by (simp add: ac_simps)
    then show ?thesis
      using ok task_update [OF forward(5,6), of "Some t"] keeps(1) busy [of "Some t" k] t
      by (simp add: same_results_def results_def forward(1) list_all_update)
  next
    case (update k t)
    have "sum_list (map task_content (status_workers s)) = sum_list (map task_content ((status_workers s)[k := None])) + mset (st_Schedules t)"
      using task_update [OF update(2,3), of None] by simp
    then show ?thesis using ok busy [of None k] by (simp add: same_results_def results_def update(1))
  qed
qed

lemma moves_inv:
  assumes "moves E cl cap s s'" and "answers_once cl" and "pipe_inv E sws s"
  shows "pipe_inv E sws s'"
proof (cases "offered s' = offered s")
  case True
  from same_results_inv [OF assms(3) moves_same_results [OF assms(1,3) this]] show ?thesis .
next
  case False
  from assms(1) show ?thesis
  proof cases
    case (fire xs sw ys i reqs r)
    have "postable sw" using assms(3) fire(2) by (simp add: pipe_inv_def)
    from processSchedule_reports [OF assms(2) this, of E "posted s"] fire(5)
    have r: "reported (sw_Schedule r)" "status_key (sw_Schedule r) = status_key (sw_Schedule sw)" by auto
    have "results s' = results s + {#sw_Schedule r#}"
      using held_update [OF fire(3,4), of "Some r"] by (simp add: results_def fire(1))
    then show ?thesis using assms(3) r fire(2) by (auto simp: pipe_inv_def fire(1))
  qed (use False in simp_all)
qed

lemma idle_tick_same:
  assumes "pipe_inv E sws s" and "j < length (agg_workers s)" and "agg_workers s ! j = w" and "aw_Out w = []"
    and "agg_tick E w (pp_Cluster s) = (w', c)"
  shows "same_results E s (s\<lparr>agg_workers := (agg_workers s)[j := w'], pp_Cluster := c\<rparr>)"
proof -
  have "agg_ok E w" using assms(1-3) by (auto simp: pipe_inv_def list_all_length)
  from agg_tick_keeps [OF this assms(4,5)] agg_update [OF assms(2,3), of w'] assms(1) show ?thesis
    by (simp add: same_results_def results_def pipe_inv_def list_all_update)
qed

lemma pipe_step_inv: "pipe_step E cl cap s s' \<Longrightarrow> answers_once cl \<Longrightarrow> pipe_inv E sws s \<Longrightarrow> pipe_inv E sws s'"
  by (erule pipe_step.cases) (auto intro: moves_inv same_results_inv idle_tick_same)

lemma sum_list_empty: "\<forall>x \<in> set xs. f x = {#} \<Longrightarrow> sum_list (map f xs) = ({#} :: 'b multiset)"
  by (induction xs) auto

lemma start_inv: "list_all postable sws \<Longrightarrow> pipe_inv E sws (start_pipe sws h a u c)"
proof -
  have "results (start_pipe sws h a u c) = {#}"
    by (simp add: results_def start_pipe_def idle_aggregator_def agg_content_def waiting_def sum_list_empty del: map_replicate)
  then show "list_all postable sws \<Longrightarrow> ?thesis"
    by (auto simp: pipe_inv_def start_pipe_def idle_aggregator_def agg_ok_def sorted_in_def all_short_def list_all_iff)
qed

section \<open>Every schedule gets through\<close>

text \<open>
  The contract: some steps are moves, a weight falls with every move and never rises, and a move is possible until all is done. A run
  in which moves are not put off for ever then ends done.
\<close>

definition fair_run :: "('s \<Rightarrow> 's \<Rightarrow> bool) \<Rightarrow> ('s \<Rightarrow> 's \<Rightarrow> bool) \<Rightarrow> (nat \<Rightarrow> 's) \<Rightarrow> bool" where
  "fair_run step mv f \<longleftrightarrow> (\<forall>n. step (f n) (f (Suc n)) \<and> ((\<exists>s'. mv (f n) s') \<longrightarrow> (\<exists>m \<ge> n. mv (f m) (f (Suc m)))))"

locale draining =
  fixes step :: "'s \<Rightarrow> 's \<Rightarrow> bool" and mv :: "'s \<Rightarrow> 's \<Rightarrow> bool" and inv :: "'s \<Rightarrow> bool" and weight :: "'s \<Rightarrow> nat" and finished :: "'s \<Rightarrow> bool"
  assumes mv_step: "mv s s' \<Longrightarrow> step s s'"
    and step_inv: "inv s \<Longrightarrow> step s s' \<Longrightarrow> inv s'"
    and mv_weight: "inv s \<Longrightarrow> mv s s' \<Longrightarrow> weight s' < weight s"
    and step_weight: "inv s \<Longrightarrow> step s s' \<Longrightarrow> weight s' \<le> weight s"
    and progress: "inv s \<Longrightarrow> \<not> finished s \<Longrightarrow> \<exists>s'. mv s s'"
    and stays: "inv s \<Longrightarrow> finished s \<Longrightarrow> \<exists>s'. step s s'"
begin

lemma run_inv: "inv (f 0) \<Longrightarrow> fair_run step mv f \<Longrightarrow> inv (f n)"
  by (induction n) (auto simp: fair_run_def intro: step_inv)

lemma moves_bounded: "inv s \<Longrightarrow> (mv ^^ k) s s' \<Longrightarrow> inv s' \<and> k + weight s' \<le> weight s"
proof (induction k arbitrary: s')
  case (Suc k)
  then obtain s1 where "(mv ^^ k) s s1" "mv s1 s'" by auto
  with Suc.IH [of s1] Suc.prems(1) mv_weight [of s1 s'] step_inv mv_step show ?case by fastforce
qed simp

lemma fair_ends:
  assumes "inv (f 0)" and "fair_run step mv f"
  shows "\<exists>N. \<forall>n \<ge> N. finished (f n)"
proof -
  define N where "N = (ARG_MIN (weight \<circ> f) n. True)"
  have min: "weight (f N) \<le> weight (f n)" for n
    unfolding N_def by (rule arg_min_nat_le [of "\<lambda>_. True" n "weight \<circ> f", simplified])
  have "weight (f (Suc n)) \<le> weight (f n)" for n
    using step_weight [OF run_inv [OF assms]] assms(2) by (simp add: fair_run_def)
  then have "weight (f n) \<le> weight (f N)" if "N \<le> n" for n
    using that lift_Suc_antimono_le [of "\<lambda>n. weight (f n)" N n] by simp
  then have "\<not> mv (f m) (f (Suc m))" if "N \<le> m" for m
    using mv_weight [OF run_inv [OF assms], of m] min [of "Suc m"] that by fastforce
  then have "\<not> mv (f n) s'" if "N \<le> n" for n s'
    using assms(2) that unfolding fair_run_def by (meson order_trans)
  then show ?thesis using progress [OF run_inv [OF assms]] by blast
qed

lemma fair_exists:
  assumes "inv s"
  obtains f where "f 0 = s" "fair_run step mv f"
proof -
  define nxt where "nxt s = (if \<exists>s'. mv s s' then SOME s'. mv s s' else SOME s'. step s s')" for s
  have nxt: "mv s (nxt s)" if "\<exists>s'. mv s s'" for s using that by (simp add: nxt_def someI_ex)
  have "step s (nxt s)" if "inv s" for s
  proof (cases "\<exists>s'. mv s s'")
    case True
    then show ?thesis by (rule mv_step [OF nxt])
  next
    case False
    with progress stays that have "\<exists>s'. step s s'" by blast
    with False show ?thesis by (simp add: nxt_def someI_ex)
  qed
  then have "inv ((nxt ^^ n) s) \<and> step ((nxt ^^ n) s) ((nxt ^^ Suc n) s)" for n
    by (induction n) (auto simp: assms intro: step_inv)
  then show thesis
    using nxt by (intro that [of "\<lambda>n. (nxt ^^ n) s"]) (auto simp: fair_run_def)
qed

end

text \<open>A result counts the more the farther it has to go.\<close>

definition agg_weight :: "agg_worker \<Rightarrow> nat" where
  "agg_weight w = 4 * size (main_content (aw_Main w)) + 3 * length (waiting (aw_Groups w)) + 2 * length (sent (aw_Out w))"

definition pipe_weight :: "'db pipe \<Rightarrow> nat" where
  "pipe_weight s = 7 * length (offered s) + sum_list (map (\<lambda>w. 6 * size (held w)) (http_workers s)) + 5 * length (buffer s) +
     sum_list (map agg_weight (agg_workers s)) + sum_list (map (size \<circ> task_content) (status_workers s))"

lemma content_size: "size (agg_content w) = size (main_content (aw_Main w)) + length (waiting (aw_Groups w)) + length (sent (aw_Out w))"
  by (simp add: agg_content_def)

lemma moves_weight:
  assumes "moves E cl cap s s'" and "pipe_inv E sws s"
  shows "pipe_weight s' < pipe_weight s"
proof -
  have ok_at: "agg_ok E w" if "j < length (agg_workers s)" "agg_workers s ! j = w" for j w
    using assms(2) that by (auto simp: pipe_inv_def list_all_length)
  note held_w = sum_list_map_update [of _ "http_workers s" "\<lambda>w. 6 * size (held w)"]
  note agg_w = sum_list_map_update [of _ "agg_workers s" agg_weight]
  note task_w = sum_list_map_update [of _ "status_workers s" "size \<circ> task_content"]
  show ?thesis using assms(1)
  proof cases
    case (fire xs sw ys i reqs r)
    then show ?thesis using held_w [of i "Some r"] by (simp add: pipe_weight_def)
  next
    case (send i r)
    then show ?thesis using held_w [of i None] by (simp add: pipe_weight_def)
  next
    case (hand_over i r j w)
    then show ?thesis using held_w [of i None] agg_w [of j "w\<lparr>aw_Main := Locking r\<rparr>"] by (simp add: pipe_weight_def agg_weight_def)
  next
    case (take_buffer r rs j w)
    then show ?thesis using agg_w [of j "w\<lparr>aw_Main := Locking r\<rparr>"] by (simp add: pipe_weight_def agg_weight_def)
  next
    case (aggregate j w r)
    let ?w = "agg_receive E r w (pp_Cluster s)"
    note keeps = agg_receive_keeps [OF ok_at [OF aggregate(2,3)] aggregate(4,5), of "pp_Cluster s"]
    have "agg_weight ?w < agg_weight w"
      using arg_cong [OF keeps(2), of size] keeps(3) aggregate(4,5) by (simp add: content_size agg_weight_def)
    then show ?thesis using agg_w [OF aggregate(2), of ?w] aggregate(3) by (simp add: pipe_weight_def aggregate(1))
  next
    case (tick j w w' c)
    note keeps = agg_tick_keeps [OF ok_at [OF tick(2,3)] tick(4,5)]
    have "sent (aw_Out w') \<noteq> []" using keeps(1) tick(6) by (cases "aw_Out w'") (auto simp: agg_ok_def)
    then have "agg_weight w' < agg_weight w"
      using arg_cong [OF keeps(2), of size] keeps(3,4) tick(4) by (simp add: content_size agg_weight_def flip: length_greater_0_conv)
    then show ?thesis using agg_w [OF tick(2), of w'] tick(3) by (simp add: pipe_weight_def tick(1))
  next
    case (forward j w t ts k)
    note keeps = agg_sent_keeps [OF ok_at [OF forward(2,3)] forward(4)]
    have "st_Schedules t \<noteq> []" using ok_at [OF forward(2,3)] forward(4) by (simp add: agg_ok_def)
    then have "agg_weight (agg_sent w) + length (st_Schedules t) < agg_weight w"
      using keeps(3) forward(4) by (simp add: agg_weight_def agg_sent_def flip: length_greater_0_conv)
    then show ?thesis using agg_w [OF forward(2), of "agg_sent w"] task_w [OF forward(5), of "Some t"] forward(3,6)
      by (simp add: pipe_weight_def forward(1))
  next
    case (update k t)
    have "st_Schedules t \<noteq> []" using assms(2) update(2,3) by (auto simp: pipe_inv_def in_set_conv_nth)
    then show ?thesis using task_w [OF update(2), of None] update(3) by (simp add: pipe_weight_def update(1) flip: length_greater_0_conv)
  qed
qed

lemma idle_tick_weight:
  assumes "pipe_inv E sws s" and "j < length (agg_workers s)" and "agg_workers s ! j = w" and "aw_Out w = []"
    and "agg_tick E w (pp_Cluster s) = (w', c)" and "aw_Out w' = []"
  shows "pipe_weight (s\<lparr>agg_workers := (agg_workers s)[j := w'], pp_Cluster := c\<rparr>) = pipe_weight s"
proof -
  have "agg_ok E w" using assms(1-3) by (auto simp: pipe_inv_def list_all_length)
  note keeps = agg_tick_keeps [OF this assms(4,5)]
  have "agg_weight w' = agg_weight w"
    using arg_cong [OF keeps(2), of size] keeps(3,4) assms(4,6) by (simp add: content_size agg_weight_def)
  then show ?thesis using sum_list_map_update [OF assms(2), of agg_weight w'] assms(3) by (simp add: pipe_weight_def)
qed

lemma pipe_step_weight: "pipe_step E cl cap s s' \<Longrightarrow> pipe_inv E sws s \<Longrightarrow> pipe_weight s' \<le> pipe_weight s"
  by (erule pipe_step.cases) (auto simp: idle_tick_weight dest: moves_weight)

text \<open>With a worker of each kind: where nobody holds anything any more, nothing is left.\<close>

definition staffed :: "'db pipe \<Rightarrow> bool" where
  "staffed s \<longleftrightarrow> http_workers s \<noteq> [] \<and> agg_workers s \<noteq> [] \<and> status_workers s \<noteq> []"

lemma staffed_step: "pipe_step E cl cap s s' \<Longrightarrow> staffed s' = staffed s"
  by (auto elim!: pipe_step.cases moves.cases simp: staffed_def)

lemma stuck_status: "(\<And>s'. \<not> moves E cl cap s s') \<Longrightarrow> list_all (\<lambda>w. w = None) (status_workers s)"
  unfolding list_all_length by (metis moves.update option.exhaust)

lemma stuck_workers:
  assumes "\<And>s'. \<not> moves E cl cap s s'" and "pipe_inv E sws s" and "staffed s" and "j < length (agg_workers s)" and "agg_workers s ! j = w"
  shows "aw_Out w = []" and "aw_Main w = Receiving" and "waiting (aw_Groups w) = []"
proof -
  have ok: "agg_ok E w" using assms(2,4,5) by (auto simp: pipe_inv_def list_all_length)
  have idle: "0 < length (status_workers s)" "status_workers s ! 0 = None"
    using stuck_status [OF assms(1)] assms(3) by (auto simp: list_all_length staffed_def)
  show out: "aw_Out w = []" using moves.forward [OF assms(4,5) _ idle] assms(1) by (metis neq_Nil_conv)
  show main: "aw_Main w = Receiving"
    using moves.aggregate [OF assms(4,5) _ out] assms(1) ok out unfolding agg_ok_def by (metis agg_main.exhaust)
  obtain w' c where tk: "agg_tick E w (pp_Cluster s) = (w', c)" by fastforce
  then have "aw_Out w' = []" using moves.tick [OF assms(4,5) out tk] assms(1) by blast
  with agg_tick_keeps [OF ok out tk] main out show "waiting (aw_Groups w) = []" by (simp add: agg_content_def)
qed

lemma stuck_drained:
  assumes "\<And>s'. \<not> moves E cl cap s s'" and "pipe_inv E sws s" and "staffed s" and "answers_once cl"
  shows "drained s"
proof -
  note stuck = stuck_workers [OF assms(1-3)]
  have first: "0 < length (agg_workers s)" "aw_Main (agg_workers s ! 0) = Receiving"
    using assms(3) stuck(2) [of 0] by (simp_all add: staffed_def)
  have buf: "buffer s = []"
    using moves.take_buffer [OF _ first(1) refl first(2)] assms(1) by (metis neq_Nil_conv)
  have none: "list_all (\<lambda>w. w = None) (http_workers s)"
    using moves.hand_over [OF _ _ buf first(1) refl first(2)] assms(1)
    unfolding list_all_length by (metis option.exhaust)
  have "offered s = []"
  proof (cases "offered s")
    case (Cons sw ys)
    then have "postable sw" using assms(2) by (simp add: pipe_inv_def)
    from processSchedule_reports [OF assms(4) this, of E "posted s"] obtain reqs r where
      "processSchedule E cl sw \<lparr>Requests = posted s, AggregationTaskQueue = []\<rparr> = (Ret (), \<lparr>Requests = reqs, AggregationTaskQueue = [r]\<rparr>)"
      by blast
    from moves.fire [where xs = "[]" and i = 0, OF _ _ _ this] Cons none assms(1,3) show ?thesis
      by (auto simp: staffed_def list_all_length)
  qed
  with buf none stuck_status [OF assms(1)] stuck show ?thesis by (auto simp: drained_def list_all_length)
qed

text \<open>The pipe keeps the contract.\<close>

definition pipe_sound :: "'db env \<Rightarrow> http_client \<Rightarrow> ScheduleWrapper list \<Rightarrow> 'db pipe \<Rightarrow> bool" where
  "pipe_sound E cl sws s \<longleftrightarrow> answers_once cl \<and> staffed s \<and> pipe_inv E sws s"

lemma drained_idle:
  assumes "drained s" and "staffed s" and "pipe_inv E sws s"
  shows "\<exists>s'. pipe_step E cl cap s s'"
proof -
  let ?w = "agg_workers s ! 0"
  have j: "0 < length (agg_workers s)" using assms(2) by (simp add: staffed_def)
  then have w: "agg_ok E ?w" "aw_Main ?w = Receiving" "aw_Out ?w = []" "waiting (aw_Groups ?w) = []"
    using assms(1,3) by (auto simp: drained_def pipe_inv_def list_all_length)
  obtain w' c where tk: "agg_tick E ?w (pp_Cluster s) = (w', c)" by fastforce
  note keeps = agg_tick_keeps [OF w(1,3) tk]
  have "sent (aw_Out w') = []" using keeps(2-4) w by (simp add: agg_content_def)
  then have "aw_Out w' = []" using keeps(1) by (cases "aw_Out w'") (auto simp: agg_ok_def)
  from pipe_step.idle_tick [OF j refl w(3) tk this] show ?thesis by blast
qed

interpretation pl: draining "pipe_step E cl cap" "moves E cl cap" "pipe_sound E cl sws" pipe_weight drained for E cl cap sws
proof unfold_locales
  fix s s'
  assume inv: "pipe_sound E cl sws s"
  show "\<not> drained s \<Longrightarrow> \<exists>s'. moves E cl cap s s'" using stuck_drained inv unfolding pipe_sound_def by blast
  show "drained s \<Longrightarrow> \<exists>s'. pipe_step E cl cap s s'" using drained_idle inv unfolding pipe_sound_def by blast
  show "pipe_step E cl cap s s' \<Longrightarrow> pipe_sound E cl sws s'"
    using inv by (auto simp: pipe_sound_def staffed_step intro: pipe_step_inv)
qed (auto simp: pipe_sound_def intro: pipe_step.move moves_weight pipe_step_weight)

lemma start_sound:
  "answers_once cl \<Longrightarrow> list_all postable sws \<Longrightarrow> 0 < h \<Longrightarrow> 0 < a \<Longrightarrow> 0 < u \<Longrightarrow> pipe_sound E cl sws (start_pipe sws h a u c)"
  by (simp add: pipe_sound_def start_inv) (simp add: staffed_def start_pipe_def)

section \<open>What is in the status table at the end\<close>

lemma distinct_part: "distinct ys \<Longrightarrow> mset xs \<subseteq># mset ys \<Longrightarrow> distinct xs"
proof -
  assume "distinct ys" "mset xs \<subseteq># mset ys"
  then obtain M where "mset ys = mset xs + M" by (auto simp: mset_subset_eq_exists_conv)
  moreover obtain zs where "mset zs = M" using ex_mset by blast
  ultimately have "mset ys = mset (xs @ zs)" by simp
  from mset_eq_imp_distinct_iff [OF this] \<open>distinct ys\<close> show ?thesis by simp
qed

definition written_stored :: "('db \<Rightarrow> tables) \<Rightarrow> 'db pipe \<Rightarrow> bool" where
  "written_stored tables s \<longleftrightarrow> status_keyed (tables (cl_DB (pp_Cluster s)) ''status'') \<and>
     (\<forall>x \<in> set (written s). status_stored (tables (cl_DB (pp_Cluster s)) ''status'') x)"

text \<open>The driver reports no error for the updates of the status.\<close>

definition batches_succeed :: "'db session \<Rightarrow> bool" where
  "batches_succeed sess \<longleftrightarrow> (\<forall>sts db. fst (ExecuteBatch sess sts db) = None)"

lemma updateStatus_tables:
  assumes "cassandra (env_Session E) tables remaining pages_left" and "batches_succeed (env_Session E)" and "st_Schedules t \<noteq> []"
  shows "tables (updateStatus E [t] db) = apply_batch (map (status_insert E (st_App t)) (st_Schedules t)) (tables db)"
proof -
  let ?sts = "map (status_insert E (st_App t)) (st_Schedules t)"
  have "ExecuteBatch (env_Session E) ?sts db = (None, snd (ExecuteBatch (env_Session E) ?sts db))"
    using assms(2) by (auto simp: batches_succeed_def prod_eq_iff)
  from cassandra.batch_ok [OF assms(1) this] assms(3) show ?thesis by (simp add: UpdateStatus_def)
qed

lemma update_stored:
  assumes "cassandra (env_Session E) tables remaining pages_left" and "batches_succeed (env_Session E)"
    and "pipe_inv E sws s" and "distinct (map (status_key \<circ> sw_Schedule) sws)" and "written_stored tables s"
    and "k < length (status_workers s)" and "status_workers s ! k = Some t"
  shows "status_keyed (tables (updateStatus E [t] (cl_DB (pp_Cluster s))) ''status'')"
    and "x \<in> set (written s @ st_Schedules t) \<Longrightarrow> status_stored (tables (updateStatus E [t] (cl_DB (pp_Cluster s))) ''status'') x"
proof -
  have t: "st_Schedules t \<noteq> []" using assms(3,6,7) by (auto simp: pipe_inv_def in_set_conv_nth)
  note tables = updateStatus_tables [OF assms(1,2) t]
  have "sum_list (map task_content (status_workers s)) = sum_list (map task_content ((status_workers s)[k := None])) + mset (st_Schedules t)"
    using task_update [OF assms(6,7), of None] by simp
  then have "mset (st_Schedules t) + mset (written s) \<subseteq># results s"
    by (simp add: results_def)
  from image_mset_subseteq_mono [OF this, of status_key]
  have "mset (map status_key (st_Schedules t @ written s)) \<subseteq># mset (map (status_key \<circ> sw_Schedule) sws)"
    using assms(3) by (auto simp: pipe_inv_def intro: subset_mset.trans)
  then have d: "distinct (map status_key (st_Schedules t))" "status_key ` set (written s) \<inter> status_key ` set (st_Schedules t) = {}"
    using distinct_part [OF assms(4)] by fastforce+
  show "status_keyed (tables (updateStatus E [t] (cl_DB (pp_Cluster s))) ''status'')"
    unfolding tables using assms(5) by (simp add: status_batch_keyed written_stored_def)
  show "status_stored (tables (updateStatus E [t] (cl_DB (pp_Cluster s))) ''status'') x" if "x \<in> set (written s @ st_Schedules t)"
  proof (cases "x \<in> set (st_Schedules t)")
    case True
    then show ?thesis unfolding tables by (rule status_batch_stored [OF _ d(1)])
  next
    case False
    with that have "x \<in> set (written s)" by simp
    with d(2) have "status_key x \<notin> status_key ` set (st_Schedules t)" by blast
    then show ?thesis
      unfolding tables using \<open>x \<in> set (written s)\<close> assms(5) by (simp add: status_stored_def status_batch_other written_stored_def)
  qed
qed

lemma step_written_stored:
  assumes "cassandra (env_Session E) tables remaining pages_left" and "batches_succeed (env_Session E)"
    and "pipe_inv E sws s" and "distinct (map (status_key \<circ> sw_Schedule) sws)" and "written_stored tables s" and "pipe_step E cl cap s s'"
  shows "written_stored tables s'"
proof -
  have tick_DB: "cl_DB c = cl_DB (pp_Cluster s)"
    if "j < length (agg_workers s)" "agg_workers s ! j = w" "aw_Out w = []" "agg_tick E w (pp_Cluster s) = (w', c)" for j w w' c
    using that agg_tick_keeps(5) assms(3) by (fastforce simp: pipe_inv_def list_all_length)
  from assms(6) show ?thesis
  proof cases
    case move
    then show ?thesis
    proof cases
      case (tick j w w' c)
      show ?thesis using assms(5) tick_DB [OF tick(2-5)] by (simp add: written_stored_def tick(1))
    next
      case (update k t)
      note upd = update_stored [OF assms(1-5) update(2,3)]
      show ?thesis using upd by (simp add: written_stored_def update(1))
    qed (use assms(5) in \<open>simp_all add: written_stored_def\<close>)
  next
    case (idle_tick j w w' c)
    show ?thesis using assms(5) tick_DB [OF idle_tick(2-5)] by (simp add: written_stored_def idle_tick(1))
  qed
qed

lemma reachable_inv:
  assumes "(pipe_step E cl cap)\<^sup>*\<^sup>* (start_pipe sws h a u c) s" and "answers_once cl" and "list_all postable sws"
  shows "pipe_inv E sws s"
  using assms(1) by (induction rule: rtranclp_induct) (auto intro: start_inv assms pipe_step_inv)

lemma reachable_stored:
  assumes "(pipe_step E cl cap)\<^sup>*\<^sup>* (start_pipe sws h a u c) s" and "answers_once cl" and "list_all postable sws"
    and "cassandra (env_Session E) tables remaining pages_left" and "batches_succeed (env_Session E)"
    and "distinct (map (status_key \<circ> sw_Schedule) sws)" and "status_keyed (tables (cl_DB c) ''status'')"
  shows "written_stored tables s"
  using assms(1)
proof (induction rule: rtranclp_induct)
  case base
  then show ?case using assms(7) by (simp add: written_stored_def start_pipe_def)
next
  case (step s s')
  from step_written_stored [OF assms(4,5) reachable_inv [OF step(1) assms(2,3)] assms(6) step(3,2)] show ?case .
qed

lemma drained_results:
  assumes "drained s"
  shows "results s = mset (written s)"
proof -
  have "sum_list (map held (http_workers s)) = {#}" "sum_list (map task_content (status_workers s)) = {#}"
      "sum_list (map agg_content (agg_workers s)) = {#}"
    using assms by (auto simp: drained_def list_all_iff agg_content_def intro!: sum_list_empty)
  then show ?thesis using assms by (simp add: results_def drained_def)
qed

lemma drained_written:
  assumes "pipe_inv E sws s" and "drained s" and "sw \<in> set sws"
  obtains x where "x \<in> set (written s)" "reported x" "status_key x = status_key (sw_Schedule sw)"
proof -
  have "mset (map (status_key \<circ> sw_Schedule) sws) = image_mset status_key (mset (written s))"
    using assms(1,2) drained_results [OF assms(2)] by (simp add: pipe_inv_def drained_def)
  from arg_cong [OF this, of set_mset] have "(status_key \<circ> sw_Schedule) ` set sws = status_key ` set (written s)" by simp
  then obtain x where "x \<in> set (written s)" "status_key x = status_key (sw_Schedule sw)"
    using imageI [OF assms(3), of "status_key \<circ> sw_Schedule"] by auto
  moreover have "reported x" using assms(1) drained_results [OF assms(2)] calculation(1) by (auto simp: pipe_inv_def)
  ultimately show thesis using that by blast
qed



section \<open>Instances\<close>

abbreviation sample_start :: "mem pipe" where
  "sample_start \<equiv> start_pipe [sample_wrapper] 1 1 1 \<lparr>cl_DB = empty_mem, AppMap = []\<rparr>"

lemma sample_postable: "list_all postable [sample_wrapper]"
  by (simp add: postable_def sample_wrapper_def sample_schedule_def)

lemma sample_fair:
  obtains f where "f 0 = sample_start" "fair_run (pipe_step sample_env sample_client 2) (moves sample_env sample_client 2) f"
  by (rule pl.fair_exists [OF start_sound [OF sample_client_answers sample_postable, of 1 1 1]]) simp_all


lemma fair_reachable: "fair_run step mv f \<Longrightarrow> step\<^sup>*\<^sup>* (f 0) (f n)"
  by (induction n) (auto simp: fair_run_def intro: rtranclp.rtrancl_into_rtrancl)

lemma sample_drained:
  obtains s where "(pipe_step sample_env sample_client 2)\<^sup>*\<^sup>* sample_start s" "drained s"
proof -
  obtain f where f: "f 0 = sample_start" "fair_run (pipe_step sample_env sample_client 2) (moves sample_env sample_client 2) f"
    by (rule sample_fair)
  have "pipe_sound sample_env sample_client [sample_wrapper] (f 0)"
    unfolding f(1) by (rule start_sound [OF sample_client_answers sample_postable]) simp_all
  from pl.fair_ends [OF this f(2)] obtain N where "drained (f N)" by blast
  with fair_reachable [OF f(2), of N] f(1) show thesis by (intro that) simp_all
qed


end
