(* ===== verification/Monitoring.thy ===== *)
theory Monitoring
  imports Prelude "HOL-Library.Multiset"
begin

text \<open>
  The monitor (src/monitoring/prometheus.go), which all goroutines of a node share. \<^verbatim>\<open>IncCounter\<close> and \<^verbatim>\<open>RecordTiming\<close> look for the
  vector of their name under a read lock and, if there is none, look again under the write lock and create it; the value is added
  without a lock. The critical sections are the steps of an interleaving. The client library of Prometheus is not part of
  the sources; what it does is documented: a registry refuses a second metric of a name, and a vector refuses other
  labels than its own, both by a panic.
\<close>

section \<open>State\<close>

datatype metric = Counters | Histograms

text \<open>A vector is known by the names of its labels; a nil pointer is None.\<close>

type_synonym vec = "string list"

record prometheus =
  vectors :: "metric \<Rightarrow> (string \<rightharpoonup> vec)"
  registered_names :: "string list"
  samples :: "(metric \<times> string \<times> (string \<times> string) list \<times> int) multiset"
  Mu_held :: bool

definition NewPrometheusMonitor :: prometheus where
  "NewPrometheusMonitor = \<lparr>vectors = (\<lambda>_. Map.empty), registered_names = [], samples = {#}, Mu_held = False\<rparr>"

text \<open>A call, and how far it has come: before its first look, after a look that found nothing, with its local variable, at its end.\<close>

datatype progress = Called | NotFound | Holding "vec option" | Finished | Crashed

record call =
  metric_of :: metric
  name_of :: string
  labels_of :: "(string \<times> string) list"
  value_of :: int
  at :: progress

definition getLabelNames :: "(string \<times> string) list \<Rightarrow> string list" where
  "getLabelNames labels = map fst labels"

text \<open>\<^verbatim>\<open>promauto.NewCounterVec\<close> and \<^verbatim>\<open>NewHistogramVec\<close>: the name must be new. A panic leaves the write lock held.\<close>

definition create_vec :: "call \<Rightarrow> prometheus \<Rightarrow> call \<times> prometheus" where
  "create_vec c p =
     (if name_of c \<in> set (registered_names p) then (c\<lparr>at := Crashed\<rparr>, p\<lparr>Mu_held := True\<rparr>)
      else
        let v = getLabelNames (labels_of c) in
        (c\<lparr>at := Holding (Some v)\<rparr>,
         p\<lparr>vectors := (vectors p)(metric_of c := (vectors p (metric_of c))(name_of c \<mapsto> v)),
           registered_names := registered_names p @ [name_of c]\<rparr>))"

text \<open>\<^verbatim>\<open>With(labels).Add(value)\<close> and \<^verbatim>\<open>With(labels).Observe(value)\<close>.\<close>

definition add_sample :: "vec \<Rightarrow> call \<Rightarrow> prometheus \<Rightarrow> call \<times> prometheus" where
  "add_sample v c p =
     (if set v = fst ` set (labels_of c)
      then (c\<lparr>at := Finished\<rparr>, p\<lparr>samples := samples p + {#(metric_of c, name_of c, labels_of c, value_of c)#}\<rparr>)
      else (c\<lparr>at := Crashed\<rparr>, p))"

text \<open>The next step of a call; one that needs the lock waits while it is held.\<close>

fun continue_call :: "call \<Rightarrow> prometheus \<Rightarrow> call \<times> prometheus" where
  "continue_call c p =
     (case at c of
        Called \<Rightarrow>
          if Mu_held p then (c, p)
          else (c\<lparr>at := (case vectors p (metric_of c) (name_of c) of Some v \<Rightarrow> Holding (Some v) | None \<Rightarrow> NotFound)\<rparr>, p)
      | NotFound \<Rightarrow>
          if Mu_held p then (c, p)
          else if vectors p (metric_of c) (name_of c) = None then create_vec c p
          else (c\<lparr>at := Holding None\<rparr>, p)
      | Holding None \<Rightarrow> (c\<lparr>at := Crashed\<rparr>, p)
      | Holding (Some v) \<Rightarrow> add_sample v c p
      | Finished \<Rightarrow> (c, p)
      | Crashed \<Rightarrow> (c, p))"

declare continue_call.simps [simp del]

text \<open>A call that runs alone.\<close>

definition call_alone :: "call \<Rightarrow> prometheus \<Rightarrow> call \<times> prometheus" where
  "call_alone c p = (let (c1, p1) = continue_call c p; (c2, p2) = continue_call c1 p1 in continue_call c2 p2)"

definition IncCounter :: "string \<Rightarrow> (string \<times> string) list \<Rightarrow> int \<Rightarrow> prometheus \<Rightarrow> call \<times> prometheus" where
  "IncCounter name labels v = call_alone \<lparr>metric_of = Counters, name_of = name, labels_of = labels, value_of = v, at = Called\<rparr>"

definition RecordTiming :: "string \<Rightarrow> (string \<times> string) list \<Rightarrow> int \<Rightarrow> prometheus \<Rightarrow> call \<times> prometheus" where
  "RecordTiming name labels duration = call_alone \<lparr>metric_of = Histograms, name_of = name, labels_of = labels, value_of = duration, at = Called\<rparr>"

section \<open>Interleavings\<close>

text \<open>Any goroutine that is in a call may do the next step, and a new call may begin at any time.\<close>

inductive calls_step :: "call list \<times> prometheus \<Rightarrow> call list \<times> prometheus \<Rightarrow> bool" where
  begin_call: "at c = Called \<Longrightarrow> calls_step (cs, p) (cs @ [c], p)"
| continue: "i < length cs \<Longrightarrow> continue_call (cs ! i) p = (c', p') \<Longrightarrow> calls_step (cs, p) (cs[i := c'], p')"

inductive_cases calls_stepE: "calls_step (cs, p) s'"

definition reachable_calls :: "call list \<times> prometheus \<Rightarrow> bool" where
  "reachable_calls s \<longleftrightarrow> calls_step\<^sup>*\<^sup>* ([], NewPrometheusMonitor) s"

definition sample_of :: "call \<Rightarrow> metric \<times> string \<times> (string \<times> string) list \<times> int" where
  "sample_of c = (metric_of c, name_of c, labels_of c, value_of c)"

section \<open>What all interleavings keep\<close>

definition finished_samples :: "call list \<Rightarrow> (metric \<times> string \<times> (string \<times> string) list \<times> int) multiset" where
  "finished_samples cs = image_mset sample_of (filter_mset (\<lambda>c. at c = Finished) (mset cs))"

definition calls_inv :: "call list \<times> prometheus \<Rightarrow> bool" where
  "calls_inv s \<longleftrightarrow> (case s of (cs, p) \<Rightarrow>
     distinct (registered_names p) \<and> samples p = finished_samples cs \<and>
     (\<forall>m n v. vectors p m n = Some v \<longrightarrow> n \<in> set (registered_names p)) \<and>
     (\<forall>c \<in> set cs. at c \<notin> {Called, NotFound} \<longrightarrow> name_of c \<in> set (registered_names p)) \<and>
     (\<forall>c \<in> set cs. \<forall>v. at c = Holding v \<longrightarrow> vectors p (metric_of c) (name_of c) \<noteq> None))"

lemma finished_update:
  assumes "i < length cs"
  shows "finished_samples (cs[i := c']) + (if at (cs ! i) = Finished then {#sample_of (cs ! i)#} else {#}) =
    finished_samples cs + (if at c' = Finished then {#sample_of c'#} else {#})"
proof -
  have "mset cs = add_mset (cs ! i) (mset cs - {#cs ! i#})" using assms by simp
  then obtain M where "mset cs = add_mset (cs ! i) M" "mset (cs[i := c']) = add_mset c' M"
    using mset_update [OF assms, of c'] by (metis add_mset_remove_trivial)
  then show ?thesis by (simp add: finished_samples_def)
qed

text \<open>What one step changes: the call that moves on keeps its arguments, and vectors are only added.\<close>

lemma continue_call_frame:
  assumes "continue_call c p = (c', p')"
  shows "metric_of c' = metric_of c \<and> name_of c' = name_of c \<and> labels_of c' = labels_of c \<and> value_of c' = value_of c \<and>
    set (registered_names p) \<subseteq> set (registered_names p') \<and> (\<forall>m n v. vectors p m n = Some v \<longrightarrow> vectors p' m n \<noteq> None)"
  using assms
  by (auto simp: continue_call.simps create_vec_def add_sample_def Let_def split: progress.splits option.splits if_splits)

lemma continue_call_samples:
  assumes "continue_call c p = (c', p')"
  shows "samples p' + (if at c = Finished then {#sample_of c#} else {#}) = samples p + (if at c' = Finished then {#sample_of c'#} else {#})"
  using assms
  by (auto simp: continue_call.simps create_vec_def add_sample_def sample_of_def Let_def split: progress.splits option.splits if_splits)

lemma continue_call_inv:
  assumes "calls_inv (cs, p)" and "c \<in> set cs" and "continue_call c p = (c', p')"
  shows "distinct (registered_names p')" and "\<forall>m n v. vectors p' m n = Some v \<longrightarrow> n \<in> set (registered_names p')"
    and "at c' \<notin> {Called, NotFound} \<longrightarrow> name_of c' \<in> set (registered_names p')"
    and "at c' = Holding v \<longrightarrow> vectors p' (metric_of c') (name_of c') \<noteq> None"
proof -
  have names: "n \<in> set (registered_names p)" if "vectors p m n = Some v" for m n v
    using assms(1) that by (auto simp: calls_inv_def)
  have d: "distinct (registered_names p)" and own: "at c \<notin> {Called, NotFound} \<Longrightarrow> name_of c \<in> set (registered_names p)"
    and held: "at c = Holding v \<Longrightarrow> vectors p (metric_of c) (name_of c) \<noteq> None" for v
    using assms(1,2) by (auto simp: calls_inv_def)
  note split = continue_call.simps create_vec_def add_sample_def Let_def
  show "distinct (registered_names p')"
    using d assms(3) by (auto simp: split split: progress.splits option.splits if_splits)
  show "\<forall>m n v. vectors p' m n = Some v \<longrightarrow> n \<in> set (registered_names p')"
    using names assms(3) by (auto simp: split split: progress.splits option.splits if_splits)
  show "at c' \<notin> {Called, NotFound} \<longrightarrow> name_of c' \<in> set (registered_names p')"
    using names own assms(3) by (auto simp: split split: progress.splits option.splits if_splits)
  show "at c' = Holding v \<longrightarrow> vectors p' (metric_of c') (name_of c') \<noteq> None"
    using held assms(3) by (auto simp: split split: progress.splits option.splits if_splits) metis
qed

lemma calls_step_inv:
  assumes "calls_step s s'" and "calls_inv s"
  shows "calls_inv s'"
  using assms
proof (induction rule: calls_step.induct)
  case (begin_call c cs p)
  then show ?case by (auto simp: calls_inv_def finished_samples_def)
next
  case (continue i cs p c' p')
  have mem: "cs ! i \<in> set cs" using continue.hyps(1) by simp
  note new = continue_call_inv [OF continue.prems mem continue.hyps(2)] and frame = continue_call_frame [OF continue.hyps(2)]
  have old: "c \<in> set cs" if "c \<in> set (cs[i := c'])" "c \<noteq> c'" for c using that set_update_subset_insert by fast
  have "samples p' = finished_samples (cs[i := c'])"
  proof -
    let ?b = "if at (cs ! i) = Finished then {#sample_of (cs ! i)#} else {#}"
    have "samples p = finished_samples cs" using continue.prems by (simp add: calls_inv_def)
    then have "samples p' + ?b = finished_samples (cs[i := c']) + ?b"
      using finished_update [OF continue.hyps(1), of c'] continue_call_samples [OF continue.hyps(2)] by simp
    then show ?thesis by (rule add_right_imp_eq)
  qed
  moreover have "at c \<notin> {Called, NotFound} \<longrightarrow> name_of c \<in> set (registered_names p')" if "c \<in> set (cs[i := c'])" for c
    using new(3) old [OF that] frame continue.prems by (cases "c = c'") (auto simp: calls_inv_def)
  moreover have "at c = Holding v \<longrightarrow> vectors p' (metric_of c) (name_of c) \<noteq> None" if "c \<in> set (cs[i := c'])" for c v
    using new(4) old [OF that] frame continue.prems by (cases "c = c'") (fastforce simp: calls_inv_def)+
  ultimately show ?case using new(1,2) unfolding calls_inv_def by blast
qed

lemma reachable_calls_inv: "reachable_calls s \<Longrightarrow> calls_inv s"
  unfolding reachable_calls_def
proof (induction rule: rtranclp_induct)
  case base
  show ?case by (simp add: calls_inv_def NewPrometheusMonitor_def finished_samples_def)
qed (rule calls_step_inv)


section \<open>The second look\<close>

text \<open>A call that runs alone succeeds if its metric is new, or has its labels.\<close>

theorem call_alone_finishes:
  assumes "at c = Called" and "\<not> Mu_held p"
    and "case vectors p (metric_of c) (name_of c) of
      Some v \<Rightarrow> set v = fst ` set (labels_of c) | None \<Rightarrow> name_of c \<notin> set (registered_names p)"
  shows "\<exists>p'. call_alone c p = (c\<lparr>at := Finished\<rparr>, p') \<and> samples p' = samples p + {#sample_of c#}"
  using assms
  by (auto simp: call_alone_def continue_call.simps create_vec_def add_sample_def getLabelNames_def sample_of_def Let_def split: option.splits)

lemma two_calls:
  "continue_call c p = (c', p') \<Longrightarrow> calls_step ([c, d], p) ([c', d], p')"
  "continue_call d p = (d', p') \<Longrightarrow> calls_step ([c, d], p) ([c, d'], p')"
  using continue [of 0 "[c, d]" p c' p'] continue [of 1 "[c, d]" p d' p'] by simp_all

text \<open>
  Two calls that are the first of their metric may both find nothing. The second one then finds the vector that the first has created, but
  does not take it: its own variable stays nil, the call panics and its value is lost.
\<close>

theorem second_look_panics:
  assumes "at c = Called" and "at d = Called" and "metric_of d = metric_of c" and "name_of d = name_of c"
  shows "\<exists>p. reachable_calls ([c\<lparr>at := Finished\<rparr>, d\<lparr>at := Crashed\<rparr>], p) \<and> samples p = {#sample_of c#}"
proof -
  let ?p0 = NewPrometheusMonitor
  obtain p1 where p1: "continue_call (c\<lparr>at := NotFound\<rparr>) ?p0 = (c\<lparr>at := Holding (Some (getLabelNames (labels_of c)))\<rparr>, p1)"
      "\<not> Mu_held p1" "vectors p1 (metric_of c) (name_of c) \<noteq> None" "samples p1 = {#}"
    by (auto simp: continue_call.simps create_vec_def NewPrometheusMonitor_def Let_def)
  obtain p2 where p2: "continue_call (c\<lparr>at := Holding (Some (getLabelNames (labels_of c)))\<rparr>) p1 = (c\<lparr>at := Finished\<rparr>, p2)"
      "samples p2 = {#sample_of c#}" "Mu_held p2 = Mu_held p1" "vectors p2 = vectors p1"
    using p1(4) by (auto simp: continue_call.simps add_sample_def getLabelNames_def sample_of_def)
  have "calls_step ([], ?p0) ([c], ?p0)" "calls_step ([c], ?p0) ([c, d], ?p0)"
    using begin_call [OF assms(1), of "[]"] begin_call [OF assms(2), of "[c]"] by simp_all
  moreover have "calls_step ([c, d], ?p0) ([c\<lparr>at := NotFound\<rparr>, d], ?p0)"
    "calls_step ([c\<lparr>at := NotFound\<rparr>, d], ?p0) ([c\<lparr>at := NotFound\<rparr>, d\<lparr>at := NotFound\<rparr>], ?p0)"
    using assms by (auto intro!: two_calls simp: continue_call.simps NewPrometheusMonitor_def)
  moreover note two_calls(1) [OF p1(1), of "d\<lparr>at := NotFound\<rparr>"] two_calls(1) [OF p2(1), of "d\<lparr>at := NotFound\<rparr>"]
  moreover have "calls_step ([c\<lparr>at := Finished\<rparr>, d\<lparr>at := NotFound\<rparr>], p2) ([c\<lparr>at := Finished\<rparr>, d\<lparr>at := Holding None\<rparr>], p2)"
    "calls_step ([c\<lparr>at := Finished\<rparr>, d\<lparr>at := Holding None\<rparr>], p2) ([c\<lparr>at := Finished\<rparr>, d\<lparr>at := Crashed\<rparr>], p2)"
    using assms p1(2,3) p2(3,4) by (auto intro!: two_calls(2) simp: continue_call.simps)
  ultimately have "calls_step\<^sup>*\<^sup>* ([], ?p0) ([c\<lparr>at := Finished\<rparr>, d\<lparr>at := Crashed\<rparr>], p2)"
    by (meson converse_rtranclp_into_rtranclp rtranclp.rtrancl_refl)
  with p2(2) show ?thesis unfolding reachable_calls_def by blast
qed

definition sample_call :: call where
  "sample_call = \<lparr>metric_of = Counters, name_of = ''poller_life_cycle'', labels_of = [(''appId'', ''app'')], value_of = 1, at = Called\<rparr>"

theorem second_look_panics_witness: "\<exists>p. reachable_calls ([sample_call\<lparr>at := Finished\<rparr>, sample_call\<lparr>at := Crashed\<rparr>], p)"
  using second_look_panics [of sample_call sample_call] by (auto simp: sample_call_def)


end
