(* ===== verification/Metrics.thy ===== *)
theory Metrics
  imports Monitoring NodeConfig Retrievers
begin

text \<open>
  The calls that the program makes of its monitor: the names of the metrics (src/constants/constants.go), the functions that report
  requests, callbacks, timings and the life of pollers, and the older StatsD client and bucket names. It is shown that these calls agree on
  kind and labels of every metric, so that none of them leaves the monitor locked or is refused by it.
\<close>

section \<open>Names\<close>

definition HttpRequestsTotal :: string where "HttpRequestsTotal = ''http_requests_total''"
definition HttpRequestsDuration :: string where "HttpRequestsDuration = ''http_requests_duration''"
definition CallbackStatusCount :: string where "CallbackStatusCount = ''callback_status_count''"
definition CallbackDuration :: string where "CallbackDuration = ''callback_duration''"
definition CreateSchedule_name :: string where "CreateSchedule_name = ''create_schedule''"
definition CreateRecurringSchedule_name :: string where "CreateRecurringSchedule_name = ''create_recurring_schedule''"
definition CreateOneTimeSchedule_name :: string where "CreateOneTimeSchedule_name = ''create_one_time_schedule''"
definition PollerLifeCycle :: string where "PollerLifeCycle = ''poller_life_cycle''"
definition RequestStatus :: string where "RequestStatus = ''request_status''"
definition RequestAppStatus :: string where "RequestAppStatus = ''request_app_status''"
definition GetSchedulesByEntity :: string where "GetSchedulesByEntity = ''get_schedules_by_entity''"
definition GetSchedulesByEntityDuration :: string where "GetSchedulesByEntityDuration = ''get_schedules_by_entity_duration''"
definition GetSchedulesByEntityMaxQueryCount :: string where
  "GetSchedulesByEntityMaxQueryCount = ''get_schedules_by_entity_max_query_count''"

lemmas metric_names =
  HttpRequestsTotal_def HttpRequestsDuration_def CallbackStatusCount_def CallbackDuration_def CreateRecurringSchedule_name_def
  CreateOneTimeSchedule_name_def PollerLifeCycle_def RequestStatus_def RequestAppStatus_def GetSchedulesByEntity_def
  GetSchedulesByEntityDuration_def GetSchedulesByEntityMaxQueryCount_def

section \<open>The calls\<close>

text \<open>
  A function that reports gives the calls it makes, in order; a node without a monitor makes none. A duration is a number given by the clock.
\<close>

definition counted :: "string \<Rightarrow> (string \<times> string) list \<Rightarrow> call" where
  "counted name labels = \<lparr>metric_of = Counters, name_of = name, labels_of = labels, value_of = 1, at = Called\<rparr>"

definition timed :: "string \<Rightarrow> (string \<times> string) list \<Rightarrow> int \<Rightarrow> call" where
  "timed name labels duration = \<lparr>metric_of = Histograms, name_of = name, labels_of = labels, value_of = duration, at = Called\<rparr>"

definition recordRequestStatus :: "bool \<Rightarrow> string \<Rightarrow> string \<Rightarrow> call list" where
  "recordRequestStatus monitor name status =
     (if monitor then [counted RequestStatus [(''request'', name), (''status'', status)]] else [])"

definition recordRequestAppStatus :: "bool \<Rightarrow> string \<Rightarrow> string \<Rightarrow> string \<Rightarrow> call list" where
  "recordRequestAppStatus monitor name app status =
     (if monitor then [counted RequestAppStatus [(''request'', name), (''appId'', app), (''status'', status)]] else [])"

definition recordHTTPCallback :: "bool \<Rightarrow> string \<Rightarrow> int64 \<Rightarrow> string \<Rightarrow> call list" where
  "recordHTTPCallback monitor appId partitionId status =
     (if monitor then [counted CallbackStatusCount [(''appId'', appId), (''partitionId'', Itoa partitionId), (''status'', status)]] else [])"

definition recordPollerLifeCycle :: "bool \<Rightarrow> poller \<Rightarrow> string \<Rightarrow> call list" where
  "recordPollerLifeCycle monitor p lifeCycle =
     (if monitor then [counted PollerLifeCycle
        [(''lifeCycleMethod'', lifeCycle), (''appId'', AppName p), (''partitionId'', Itoa (pl_PartitionId p))]] else [])"

text \<open>Functions that run another one and report how long it took; \<open>g\<close> is what that one does, and a panic goes on unreported.\<close>

definition report_after :: "bool \<Rightarrow> 'a go \<Rightarrow> call list \<Rightarrow> call list" where
  "report_after monitor g calls = (case g of Ret _ \<Rightarrow> if monitor then calls else [] | _ \<Rightarrow> [])"

definition callback_timing :: "string \<Rightarrow> int64 \<Rightarrow> int \<Rightarrow> call list" where
  "callback_timing appId partitionId duration =
     [timed CallbackDuration [(''appId'', appId), (''partitionId'', Itoa partitionId)] duration]"

definition recordTiming :: "bool \<Rightarrow> 'a go \<Rightarrow> string \<Rightarrow> int64 \<Rightarrow> int \<Rightarrow> 'a go \<times> call list" where
  "recordTiming monitor g appId partitionId duration = (g, report_after monitor g (callback_timing appId partitionId duration))"

definition profile_timing :: "string \<Rightarrow> string \<Rightarrow> int \<Rightarrow> call list" where
  "profile_timing name appId duration = [timed name [(''appId'', appId)] duration]"

definition profile :: "bool \<Rightarrow> 'a go \<Rightarrow> string \<Rightarrow> string \<Rightarrow> int \<Rightarrow> 'a go \<times> call list" where
  "profile monitor g name appId duration = (g, report_after monitor g (profile_timing name appId duration))"

definition profiled_CreateSchedule ::
    "bool \<Rightarrow> 'db env \<Rightarrow> Schedule \<Rightarrow> App \<Rightarrow> 'db \<Rightarrow> int \<Rightarrow> (Schedule result \<times> 'db) go \<times> call list" where
  "profiled_CreateSchedule monitor E s app db duration =
     (if IsRecurring s then profile monitor (createRecurringSchedule E s db) CreateRecurringSchedule_name (AppId s) duration
      else profile monitor (createOneTimeSchedule E s app db) CreateOneTimeSchedule_name (AppId s) duration)"

definition request_metrics :: "string \<Rightarrow> int \<Rightarrow> call list" where
  "request_metrics operationName duration =
     [counted HttpRequestsTotal [(''request'', operationName)], timed HttpRequestsDuration [(''request'', operationName)] duration]"

definition monitored_request :: "bool \<Rightarrow> string \<Rightarrow> ('s, 'a) io \<Rightarrow> int \<Rightarrow> 's \<Rightarrow> ('a go \<times> 's) \<times> call list" where
  "monitored_request monitor operationName handler duration st =
     (handler st, report_after monitor (fst (handler st)) (request_metrics operationName duration))"

text \<open>The deferred calls of a poll, and the one for a poll that is cut off.\<close>

definition poll_calls :: "bool \<Rightarrow> string \<Rightarrow> int64 \<Rightarrow> int \<Rightarrow> call list" where
  "poll_calls monitor appName partitionId duration =
     (let labels = [(''appId'', appName), (''partitionId'', Itoa partitionId)] in
      if monitor then [counted GetSchedulesByEntity labels, timed GetSchedulesByEntityDuration labels duration] else [])"

definition cut_off_calls :: "bool \<Rightarrow> string \<Rightarrow> int64 \<Rightarrow> int \<Rightarrow> int \<Rightarrow> call list" where
  "cut_off_calls monitor appName partitionId queryCount maxQueryLimit =
     (if queryCount > maxQueryLimit \<and> monitor
      then [counted GetSchedulesByEntityMaxQueryCount [(''appId'', appName), (''partitionId'', Itoa partitionId)]] else [])"

text \<open>All calls of the program.\<close>

inductive program_call :: "call \<Rightarrow> bool" where
  "c \<in> set (recordRequestStatus monitor name status) \<Longrightarrow> program_call c"
| "c \<in> set (recordRequestAppStatus monitor name app status) \<Longrightarrow> program_call c"
| "c \<in> set (recordHTTPCallback monitor appId partitionId status) \<Longrightarrow> program_call c"
| "c \<in> set (recordPollerLifeCycle monitor p lifeCycle) \<Longrightarrow> program_call c"
| "c \<in> set (callback_timing appId partitionId duration) \<Longrightarrow> program_call c"
| "name \<in> {CreateRecurringSchedule_name, CreateOneTimeSchedule_name} \<Longrightarrow> c \<in> set (profile_timing name appId duration) \<Longrightarrow> program_call c"
| "c \<in> set (request_metrics operationName duration) \<Longrightarrow> program_call c"
| "c \<in> set (poll_calls monitor appName partitionId duration) \<Longrightarrow> program_call c"
| "c \<in> set (cut_off_calls monitor appName partitionId queryCount maxQueryLimit) \<Longrightarrow> program_call c"

section \<open>The older client\<close>

text \<open>\<^verbatim>\<open>initStatsd\<close>, which no other function calls: a client that cannot be made ends the process.\<close>

definition initStatsd :: "(string \<Rightarrow> string \<Rightarrow> 'client \<times> go_error option) \<Rightarrow> StatsdConfig \<Rightarrow> ('client option \<times> go_error option) go" where
  "initStatsd new c =
     (if sc_Enabled c then
        (case new (sc_Address c) (sc_Prefix c) of
           (client, Some err) \<Rightarrow> Fatal
         | (client, None) \<Rightarrow> Ret (Some client, None))
      else Ret (None, None))"

definition getAppId :: "Schedule \<Rightarrow> string" where
  "getAppId s = (if length (AppId s) = 0 then ''0'' else AppId s)"

text \<open>\<^verbatim>\<open>prefix\<close>: the bucket of an action, which is one of the texts of the type \<^verbatim>\<open>action\<close>.\<close>

definition bucket_prefix :: "Schedule \<Rightarrow> string \<Rightarrow> string" where
  "bucket_prefix s act =
     (let appId = (if length (AppId s) = 0 then ''0'' else AppId s) in
      if act = ''CREATE'' then (if IsRecurring s then CreateRecurringSchedule_name else CreateSchedule_name) @ ''.'' @ appId
      else if act = ''GET'' then appId @ ''.GetSchedule''
      else if act = ''GET_RUNS'' then appId @ ''.GetScheduleRuns''
      else if act = ''GET_APP_SCHEDULES'' then appId @ ''.GetAppSchedule''
      else if act = ''DELETE'' then appId @ ''.DeleteSchedule''
      else if act = ''GET_CRON_SCHEDULE'' then appId @ ''.GetCronSchedule''
      else [])"

section \<open>The calls agree\<close>

text \<open>Kind and labels that a metric has in all calls.\<close>

definition schema :: "string \<Rightarrow> (metric \<times> string list) option" where
  "schema = map_of
     [(''http_requests_total'', (Counters, [''request''])), (''http_requests_duration'', (Histograms, [''request''])),
      (''callback_status_count'', (Counters, [''appId'', ''partitionId'', ''status''])),
      (''callback_duration'', (Histograms, [''appId'', ''partitionId''])),
      (''create_recurring_schedule'', (Histograms, [''appId''])), (''create_one_time_schedule'', (Histograms, [''appId''])),
      (''poller_life_cycle'', (Counters, [''lifeCycleMethod'', ''appId'', ''partitionId''])),
      (''request_status'', (Counters, [''request'', ''status''])), (''request_app_status'', (Counters, [''request'', ''appId'', ''status''])),
      (''get_schedules_by_entity'', (Counters, [''appId'', ''partitionId''])),
      (''get_schedules_by_entity_duration'', (Histograms, [''appId'', ''partitionId''])),
      (''get_schedules_by_entity_max_query_count'', (Counters, [''appId'', ''partitionId'']))]"

definition agrees :: "call \<Rightarrow> bool" where
  "agrees c \<longleftrightarrow> schema (name_of c) = Some (metric_of c, map fst (labels_of c))"

lemma program_call_agrees: "program_call c \<Longrightarrow> agrees c \<and> at c = Called"
  by (induction rule: program_call.induct)
    (auto simp: recordRequestStatus_def recordRequestAppStatus_def recordHTTPCallback_def recordPollerLifeCycle_def callback_timing_def
      profile_timing_def request_metrics_def poll_calls_def cut_off_calls_def Let_def agrees_def schema_def
      timed_def counted_def metric_names split: if_splits)

text \<open>What is measured is not changed, and all its reports are calls of the program.\<close>

lemma profiled_CreateSchedule:
  "fst (profiled_CreateSchedule monitor E s app db duration) = CreateSchedule E s app db"
  "c \<in> set (snd (profiled_CreateSchedule monitor E s app db duration)) \<Longrightarrow> program_call c"
  by (auto simp: profiled_CreateSchedule_def profile_def CreateSchedule_def report_after_def intro: program_call.intros split: if_splits go.splits)

lemma recordTiming_reports: "c \<in> set (snd (recordTiming monitor g appId partitionId duration)) \<Longrightarrow> program_call c"
  by (auto simp: recordTiming_def report_after_def intro: program_call.intros split: if_splits go.splits)

lemma monitored_request_reports: "c \<in> set (snd (monitored_request monitor operationName handler duration st)) \<Longrightarrow> program_call c"
  by (auto simp: monitored_request_def report_after_def intro: program_call.intros split: if_splits go.splits)

section \<open>Interleavings of the program's own calls\<close>

inductive program_state :: "call list \<Rightarrow> prometheus \<Rightarrow> bool" where
  start: "program_state [] NewPrometheusMonitor"
| begin_call: "program_state cs p \<Longrightarrow> program_call c \<Longrightarrow> program_state (cs @ [c]) p"
| continue: "program_state cs p \<Longrightarrow> i < length cs \<Longrightarrow> continue_call (cs ! i) p = (c', p') \<Longrightarrow> program_state (cs[i := c']) p'"

text \<open>The monitor has the vectors of the schema for the names it has registered, and calls hold only these.\<close>

definition vectors_agree :: "prometheus \<Rightarrow> bool" where
  "vectors_agree p \<longleftrightarrow> \<not> Mu_held p \<and> (\<forall>m n v. vectors p m n = Some v \<longrightarrow> schema n = Some (m, v)) \<and>
     (\<forall>n \<in> set (registered_names p). \<exists>m v. vectors p m n = Some v)"

definition call_agrees :: "call \<Rightarrow> bool" where
  "call_agrees c \<longleftrightarrow> agrees c \<and> (\<forall>v. at c = Holding (Some v) \<longrightarrow> v = map fst (labels_of c))"

lemma agrees_new:
  assumes "vectors_agree p" and "agrees c" and "vectors p (metric_of c) (name_of c) = None"
  shows "name_of c \<notin> set (registered_names p)"
  using assms by (fastforce simp: vectors_agree_def agrees_def)

lemma agrees_found: "vectors_agree p \<Longrightarrow> agrees c \<Longrightarrow> vectors p (metric_of c) (name_of c) = Some v \<Longrightarrow> v = map fst (labels_of c)"
  by (fastforce simp: vectors_agree_def agrees_def)

lemma continue_call_agrees:
  assumes "continue_call c p = (c', p')" and "vectors_agree p" and "call_agrees c"
  shows "vectors_agree p'" and "call_agrees c'" and "at c' = Crashed \<Longrightarrow> at c \<in> {Holding None, Crashed}"
proof -
  have c: "agrees c" "\<And>v. at c = Holding (Some v) \<Longrightarrow> v = map fst (labels_of c)" using assms(3) by (auto simp: call_agrees_def)
  note new = agrees_new [OF assms(2) c(1)] and found = agrees_found [OF assms(2) c(1)]
  note split = continue_call.simps create_vec_def add_sample_def getLabelNames_def Let_def
  show "vectors_agree p'"
    using assms(1,2) c(1) new
    by (auto simp: split vectors_agree_def agrees_def split: progress.splits option.splits if_splits) (metis+)
  show "call_agrees c'"
    using assms(1) c new found by (auto simp: split call_agrees_def agrees_def split: progress.splits option.splits if_splits)
  show "at c \<in> {Holding None, Crashed}" if "at c' = Crashed"
    using assms(1) that c new by (auto simp: split split: progress.splits option.splits if_splits)
qed

lemma program_state_agrees: "program_state cs p \<Longrightarrow> vectors_agree p \<and> list_all call_agrees cs"
proof (induction rule: program_state.induct)
  case start
  show ?case by (simp add: vectors_agree_def NewPrometheusMonitor_def)
next
  case (begin_call cs p c)
  then show ?case using program_call_agrees by (auto simp: call_agrees_def)
next
  case (continue cs p i c' p')
  then have "call_agrees (cs ! i)" by (simp add: list_all_length)
  with continue_call_agrees [OF continue.hyps(3)] continue.IH set_update_subset_insert [of cs i c'] show ?case
    by (auto simp: list_all_iff)
qed



end
