(* ===== verification/DbWrapper.thy ===== *)
theory DbWrapper
  imports Cassandra
begin

text \<open>
  The wrappers of src/db_wrapper/db_wrapper.go around the driver gocql, and the way the sources read rows through them: a query is built from a text and
  its settings, and its iterator is asked for rows until it has none, then for the state of the next page, and closed. The driver is a parameter; what its
  documentation says is the locale \<open>gocql_driver\<close>. It is shown that such a driver behind the wrappers is a session as all other theories
  use it, so the laws of \<open>cassandra\<close> follow from those of single calls.
\<close>

section \<open>The driver and its wrappers\<close>

text \<open>Texts are syntax trees, as in Cassandra, apart from those that a quote has broken.\<close>

datatype cql_text = Write stmt | Read query | Broken string

record ('s, 'q, 'it, 'db) gocql =
  gs_Query :: "'s \<Rightarrow> cql_text \<Rightarrow> 'q"
  gs_ExecuteBatch :: "'s \<Rightarrow> stmt list \<Rightarrow> 'db \<Rightarrow> go_error option \<times> 'db"
  gs_Close :: "'s \<Rightarrow> 'db \<Rightarrow> 'db"
  gq_Bind :: "'q \<Rightarrow> cql list \<Rightarrow> 'q"
  gq_Exec :: "'q \<Rightarrow> 'db \<Rightarrow> go_error option \<times> 'db"
  gq_Iter :: "'q \<Rightarrow> 'db \<Rightarrow> 'it"
  gq_Scan :: "'q \<Rightarrow> 'db \<Rightarrow> go_error + row"
  gq_MapScan :: "'q \<Rightarrow> 'db \<Rightarrow> go_error + row"
  gq_Consistency :: "'q \<Rightarrow> string \<Rightarrow> 'q"
  gq_PageState :: "'q \<Rightarrow> page_state \<Rightarrow> 'q"
  gq_PageSize :: "'q \<Rightarrow> int64 \<Rightarrow> 'q"
  gq_RetryPolicy :: "'q \<Rightarrow> int64 \<Rightarrow> 'q"
  gi_Scan :: "'it \<Rightarrow> row option \<times> 'it"
  gi_MapScan :: "'it \<Rightarrow> row option \<times> 'it"
  gi_PageState :: "'it \<Rightarrow> page_state"
  gi_Close :: "'it \<Rightarrow> go_error option \<times> 'it"

datatype 's wrapped_session = NewSession 's
datatype 'q wrapped_query = NewQuery 'q
datatype 'it wrapped_iter = NewIter 'it

fun Session_ExecuteBatch where
  "Session_ExecuteBatch G (NewSession s) batch db = gs_ExecuteBatch G s batch db"

fun Session_Query where
  "Session_Query G (NewSession s) stmt = NewQuery (gs_Query G s stmt)"

fun Session_Close where
  "Session_Close G (NewSession s) db = gs_Close G s db"

fun Query_Bind where
  "Query_Bind G (NewQuery q) v = NewQuery (gq_Bind G q v)"

fun Query_Exec where
  "Query_Exec G (NewQuery q) db = gq_Exec G q db"

fun Query_Iter where
  "Query_Iter G (NewQuery q) db = NewIter (gq_Iter G q db)"

fun Query_Scan where
  "Query_Scan G (NewQuery q) db = gq_Scan G q db"

fun Query_MapScan where
  "Query_MapScan G (NewQuery q) db = gq_MapScan G q db"

fun Query_Consistency where
  "Query_Consistency G (NewQuery q) c = NewQuery (gq_Consistency G q c)"

fun Query_PageState where
  "Query_PageState G (NewQuery q) state = NewQuery (gq_PageState G q state)"

fun Query_PageSize where
  "Query_PageSize G (NewQuery q) n = NewQuery (gq_PageSize G q n)"

fun Query_RetryPolicy where
  "Query_RetryPolicy G (NewQuery q) policy = NewQuery (gq_RetryPolicy G q policy)"

fun Iter_Scan where
  "Iter_Scan G (NewIter i) = (case gi_Scan G i of (r, i') \<Rightarrow> (r, NewIter i'))"

fun Iter_MapScan where
  "Iter_MapScan G (NewIter i) = (case gi_MapScan G i of (r, i') \<Rightarrow> (r, NewIter i'))"

fun Iter_PageState where
  "Iter_PageState G (NewIter i) = gi_PageState G i"

fun Iter_Close where
  "Iter_Close G (NewIter i) = (case gi_Close G i of (e, i') \<Rightarrow> (e, NewIter i'))"

section \<open>Reading\<close>

text \<open>The loop \<^verbatim>\<open>for iter.MapScan(row)\<close>, which ends only if the iterator does.\<close>

partial_function (option) scan_rows ::
    "('s, 'q, 'it, 'db) gocql \<Rightarrow> 'it wrapped_iter \<Rightarrow> (row list \<times> 'it wrapped_iter) option" where
  [code]: "scan_rows G i =
     (case Iter_MapScan G i of
        (None, i') \<Rightarrow> Some ([], i')
      | (Some r, i') \<Rightarrow> Option.bind (scan_rows G i') (\<lambda>(rows, i''). Some (r # rows, i'')))"

definition read_rows :: "('s, 'q, 'it, 'db) gocql \<Rightarrow> 'it wrapped_iter \<Rightarrow> (row list \<times> page_state \<times> go_error option) option" where
  "read_rows G i = map_option (\<lambda>(rows, i'). (rows, Iter_PageState G i', fst (Iter_Close G i'))) (scan_rows G i)"

text \<open>
  The calls of the DAOs, with any consistency and number of retries. A loop that does not end has no result; the value given
  for it is never reached with a driver that keeps its laws.
\<close>

definition endless :: "row list \<times> page_state \<times> go_error option" where
  "endless = ([], [], Some (Err ''no result''))"

definition session_of :: "('s, 'q, 'it, 'db) gocql \<Rightarrow> 's wrapped_session \<Rightarrow> string \<Rightarrow> int64 \<Rightarrow> 'db session" where
  "session_of G s consistency retries =
     (let query = (\<lambda>t. Query_RetryPolicy G (Query_Consistency G (Session_Query G s t) consistency) retries);
          rows_of = (\<lambda>q db. case read_rows G (Query_Iter G q db) of Some r \<Rightarrow> r | None \<Rightarrow> endless);
          all_rows = (\<lambda>t db. case rows_of (query t) db of (rows, _, e) \<Rightarrow> (rows, e))
      in \<lparr>Exec = (\<lambda>st. Query_Exec G (query (Write st))),
          ExecuteBatch = Session_ExecuteBatch G s,
          MapScan = (\<lambda>q. Query_MapScan G (query (Read q))),
          Iter = (\<lambda>q. all_rows (Read q)),
          IterPage = (\<lambda>q ps n db. rows_of (Query_PageSize G (Query_PageState G (query (Read q)) ps) n) db),
          ExecText = (\<lambda>t. Query_Exec G (query (Broken t))),
          ScanText = (\<lambda>t. Query_Scan G (query (Broken t))),
          IterText = (\<lambda>t. all_rows (Broken t))\<rparr>)"

section \<open>What the documentation of the driver says\<close>

text \<open>
  What a query object stands for: its text, the page it starts from, if it was given one (which turns automatic paging off), and the
  size of a page. An iterator has rows left to deliver and the error that closing it reports.
\<close>

record query_plan =
  pl_Text :: cql_text
  pl_From :: "page_state option"
  pl_Size :: int64

locale gocql_driver =
  fixes G :: "('s, 'q, 'it, 'db) gocql"
    and s :: 's
    and tables :: "'db \<Rightarrow> tables"
    and plan :: "'q \<Rightarrow> query_plan"
    and left :: "'it \<Rightarrow> row list"
    and err :: "'it \<Rightarrow> go_error option"
    and remaining :: "query \<Rightarrow> 'db \<Rightarrow> page_state \<Rightarrow> row list"
    and pages_left :: "query \<Rightarrow> 'db \<Rightarrow> page_state \<Rightarrow> nat"
  assumes plan_query: "pl_Text (plan (gs_Query G s t)) = t" "pl_From (plan (gs_Query G s t)) = None"
    and plan_consistency: "plan (gq_Consistency G q c) = plan q"
    and plan_retry: "plan (gq_RetryPolicy G q n) = plan q"
    and plan_state: "plan (gq_PageState G q ps) = (plan q)\<lparr>pl_From := Some ps\<rparr>"
    and plan_size: "plan (gq_PageSize G q n) = (plan q)\<lparr>pl_Size := n\<rparr>"
    and scan_row: "gi_MapScan G i = (Some r, i') \<Longrightarrow> left i = r # left i' \<and> err i' = err i \<and> gi_PageState G i' = gi_PageState G i"
    and scan_end: "gi_MapScan G i = (None, i') \<Longrightarrow> left i = [] \<and> err i' = err i \<and> gi_PageState G i' = gi_PageState G i"
    and close_err: "fst (gi_Close G i) = err i"
    and exec_write: "pl_Text (plan q) = Write st \<Longrightarrow> gq_Exec G q db = (None, db') \<Longrightarrow> tables db' = apply_stmt st (tables db)"
    and exec_batch: "gs_ExecuteBatch G s sts db = (None, db') \<Longrightarrow> tables db' = apply_batch sts (tables db)"
    and one_row: "pl_Text (plan q) = Read qu \<Longrightarrow> gq_MapScan G q db = Inr r \<Longrightarrow> \<exists>rows. answers qu (tables db) rows \<and> r \<in> set rows"
    and no_row: "pl_Text (plan q) = Read qu \<Longrightarrow> gq_MapScan G q db = Inl ErrNotFound \<Longrightarrow> answers qu (tables db) []"
    and iter_all: "pl_Text (plan q) = Read qu \<Longrightarrow> pl_From (plan q) = None \<Longrightarrow> err (gq_Iter G q db) = None \<Longrightarrow>
      answers qu (tables db) (left (gq_Iter G q db))"
    and remaining_start: "answers qu (tables db) (remaining qu db [])"
    and iter_page: "pl_Text (plan q) = Read qu \<Longrightarrow> pl_From (plan q) = Some ps \<Longrightarrow> gq_Iter G q db = i \<Longrightarrow> err i = None \<Longrightarrow>
      remaining qu db ps = left i @ (if gi_PageState G i = [] then [] else remaining qu db (gi_PageState G i)) \<and>
      (gi_PageState G i \<noteq> [] \<longrightarrow> pages_left qu db (gi_PageState G i) < pages_left qu db ps)"
    and iter_size: "pl_Text (plan q) = Read qu \<Longrightarrow> pl_From (plan q) = Some ps \<Longrightarrow> 0 < pl_Size (plan q) \<Longrightarrow>
      int (length (left (gq_Iter G q db))) \<le> pl_Size (plan q)"
begin

text \<open>The loop ends after the rows that the iterator has, in their order, with its page state and its error.\<close>

lemma scan_rows_ends:
  "\<exists>i'. scan_rows G (NewIter i) = Some (left i, NewIter i') \<and> err i' = err i \<and> gi_PageState G i' = gi_PageState G i"
proof (induction "left i" arbitrary: i)
  case Nil
  obtain x i' where x: "gi_MapScan G i = (x, i')" by fastforce
  have "x = None" using scan_row x Nil by (cases x) auto
  with scan_end x Nil show ?case by (subst scan_rows.simps) auto
next
  case (Cons r rows)
  obtain x i' where x: "gi_MapScan G i = (x, i')" by fastforce
  then have "x = Some r" "left i' = rows" "err i' = err i" "gi_PageState G i' = gi_PageState G i"
    using scan_row [of i _ i'] scan_end [of i i'] Cons.hyps(2) by (cases x; auto)+
  with Cons.hyps(1) [of i'] Cons.hyps(2) x show ?case by (subst scan_rows.simps) auto
qed

lemma read_rows_ends: "read_rows G (NewIter i) = Some (left i, gi_PageState G i, err i)"
proof -
  obtain i' where i': "scan_rows G (NewIter i) = Some (left i, NewIter i')" "err i' = err i" "gi_PageState G i' = gi_PageState G i"
    using scan_rows_ends by blast
  obtain i'' where "gi_Close G i' = (err i, i'')" using close_err [of i'] i'(2) by (metis prod.collapse)
  with i' show ?thesis by (simp add: read_rows_def)
qed

lemma built:
  "pl_Text (plan (gq_RetryPolicy G (gq_Consistency G (gs_Query G s t) c) n)) = t"
  "pl_From (plan (gq_RetryPolicy G (gq_Consistency G (gs_Query G s t) c) n)) = None"
  by (simp_all add: plan_query plan_consistency plan_retry)

lemma built_page:
  "pl_Text (plan (gq_PageSize G (gq_PageState G (gq_RetryPolicy G (gq_Consistency G (gs_Query G s t) c) n) ps) m)) = t"
  "pl_From (plan (gq_PageSize G (gq_PageState G (gq_RetryPolicy G (gq_Consistency G (gs_Query G s t) c) n) ps) m)) = Some ps"
  "pl_Size (plan (gq_PageSize G (gq_PageState G (gq_RetryPolicy G (gq_Consistency G (gs_Query G s t) c) n) ps) m)) = m"
  by (simp_all add: plan_query plan_consistency plan_retry plan_state plan_size)

end

sublocale gocql_driver \<subseteq> wrapped: cassandra "session_of G (NewSession s) consistency retries" tables remaining pages_left
  for consistency retries
proof (unfold_locales, goal_cases)
  case (1 st db db')
  with exec_write [OF built(1)] show ?case by (simp add: session_of_def)
next
  case (2 sts db db')
  with exec_batch show ?case by (simp add: session_of_def)
next
  case (3 q db r)
  with one_row [OF built(1)] show ?case by (simp add: session_of_def)
next
  case (4 q db)
  with no_row [OF built(1)] show ?case by (simp add: session_of_def)
next
  case (5 q db rows)
  with iter_all [OF built] show ?case by (auto simp: session_of_def Let_def read_rows_ends)
next
  case (6 q db)
  show ?case by (rule remaining_start)
next
  case (7 q ps n db rows next')
  with iter_page [OF built_page(1,2) refl] show ?case by (auto simp: session_of_def Let_def read_rows_ends)
next
  case (8 q ps n db rows next' e)
  with iter_size [OF built_page(1,2)] show ?case by (auto simp: session_of_def Let_def read_rows_ends built_page(3))
next
  case (9 q ps n db rows next')
  with iter_page [OF built_page(1,2) refl] show ?case by (auto simp: session_of_def Let_def read_rows_ends)
qed

context gocql_driver begin

lemma wrapped_session: "cassandra (session_of G (NewSession s) consistency retries) tables remaining pages_left"
  by (rule wrapped.cassandra_axioms)

end

section \<open>A driver in memory\<close>

text \<open>A query object is its plan; an iterator has its rows, the next page state and its error.\<close>

definition mem_answer :: "query_plan \<Rightarrow> mem \<Rightarrow> row list \<times> page_state \<times> go_error option" where
  "mem_answer p db =
     (case pl_Text p of
        Read q \<Rightarrow> (case pl_From p of None \<Rightarrow> (mem_select q db, [], None) | Some ps \<Rightarrow> mem_page q ps (pl_Size p) db)
      | _ \<Rightarrow> ([], [], Some (Err ''syntax error'')))"

definition mem_single :: "query_plan \<Rightarrow> mem \<Rightarrow> go_error + row" where
  "mem_single p db = (case pl_Text p of Read q \<Rightarrow> MapScan mem_session q db | _ \<Rightarrow> Inl (Err ''syntax error''))"

fun next_row :: "row list \<times> page_state \<times> go_error option \<Rightarrow> row option \<times> row list \<times> page_state \<times> go_error option" where
  "next_row ([], ps, e) = (None, [], ps, e)"
| "next_row (r # rows, ps, e) = (Some r, rows, ps, e)"

definition mem_driver :: "(unit, query_plan, row list \<times> page_state \<times> go_error option, mem) gocql" where
  "mem_driver =
     \<lparr>gs_Query = (\<lambda>_ t. \<lparr>pl_Text = t, pl_From = None, pl_Size = 5000\<rparr>),
      gs_ExecuteBatch = (\<lambda>_ sts db. (None, fold mem_apply sts db)),
      gs_Close = (\<lambda>_ db. db),
      gq_Bind = (\<lambda>p _. p),
      gq_Exec = (\<lambda>p db. case pl_Text p of Write st \<Rightarrow> (None, mem_apply st db) | _ \<Rightarrow> (Some (Err ''syntax error''), db)),
      gq_Iter = mem_answer, gq_Scan = mem_single, gq_MapScan = mem_single,
      gq_Consistency = (\<lambda>p _. p), gq_PageState = (\<lambda>p ps. p\<lparr>pl_From := Some ps\<rparr>), gq_PageSize = (\<lambda>p n. p\<lparr>pl_Size := n\<rparr>),
      gq_RetryPolicy = (\<lambda>p _. p),
      gi_Scan = next_row, gi_MapScan = next_row, gi_PageState = fst \<circ> snd, gi_Close = (\<lambda>i. (snd (snd i), i))\<rparr>"

lemma next_row_Some: "next_row i = (Some r, i') \<Longrightarrow> fst i = r # fst i' \<and> snd i' = snd i"
  by (cases i rule: next_row.cases) auto

lemma next_row_None: "next_row i = (None, i') \<Longrightarrow> fst i = [] \<and> snd i' = snd i"
  by (cases i rule: next_row.cases) auto

interpretation memd: gocql_driver mem_driver "()" mem_tables "\<lambda>p. p" fst "snd \<circ> snd" mem_rest "\<lambda>q db ps. length (mem_rest q db ps)"
proof (unfold_locales, goal_cases)
  case (16 q qu ps db i)
  obtain rows nxt where page: "mem_page qu ps (pl_Size q) db = (rows, nxt, None)" and i: "i = (rows, nxt, None)"
    using 16 by (cases i) (auto simp: mem_driver_def mem_answer_def mem_page_def Let_def split: if_splits)
  have "IterPage mem_session qu ps (pl_Size q) db = (rows, nxt, None)" using page by (simp add: mem_session_def)
  from mem.page_ok [OF this] mem.page_progress [OF this] show ?case by (simp add: i mem_driver_def)
next
  case (17 q qu ps db)
  then show ?case by (auto simp: mem_driver_def mem_answer_def mem_page_def Let_def)
qed (auto simp: mem_driver_def mem_answer_def mem_single_def mem_tables_apply mem_tables_batch mem_select_answers mem_rest_def
      dest: next_row_Some next_row_None intro: mem.scan_row mem.scan_none)



end
