(* ===== verification/Spec2Isabelle.thy ===== *)
theory Spec2Isabelle
  imports EnrichProperties SchemaProperties ClientProperties StartupProperties Pipeline Metrics DbWrapper
begin

text \<open>
  \<^bold>\<open>A verification library for goscheduler\<close>, a distributed scheduler of HTTP callbacks on Cassandra and ringpop.

  \<^bold>\<open>The program.\<close> Clients register apps and post schedules over HTTP (src/service). A schedule fires once, or is recurring
  with a cron expression (src/cron, src/store). Schedules are rows of Cassandra tables, written and read by the schedule DAO;
  apps and entities by the cluster DAO (src/dao). Each partition of an app has an entity, a poller (src/poller), that runs on one
  node of a ring; the supervisors of the nodes (src/cluster) start, stop and move the pollers and pass requests on to the node
  that owns an entity. Every minute a poller asks its retriever (src/retrievers) for what is due; one time schedules go to the queue
  of their callback, recurring ones to a worker that plans their runs (src/connectors/cron.go). The HTTP workers post the callbacks
  (src/connectors/http.go), their results are aggregated (aggregate.go) and written as statuses (status.go). src/server routes the
  requests to the handlers, src/conf holds the configuration, src/monitoring counts, and src/scheduler and src/run.go put the parts together.

  \<^bold>\<open>The theories\<close>, with the sources they model.
  \<^item> Prelude: the outcome \<open>go\<close> of a Go call (\<open>Ret\<close>, \<open>Panic\<close>, \<open>Diverge\<close>), 64 bit arithmetic with wrap-around written out
    (\<open>wrap64\<close>, \<open>in64\<close>), splitting and joining of strings, \<^verbatim>\<open>strconv\<close>; the collections \<open>go_simps\<close> and \<open>str_simps\<close>.
  \<^item> Cron: src/cron/cron.go, expressions, fields, lists, ranges, steps and the match with a time.
  \<^item> Json, NetUrl: what the sources use of \<^verbatim>\<open>encoding/json\<close> and \<^verbatim>\<open>net/url\<close>; text that was printed is parsed back.
  \<^item> Store: src/store, src/constants and src/util, the data, its validation, decoding from JSON and from rows, the three callbacks.
  \<^item> Cassandra: statements, queries and tables, the locale \<open>cassandra\<close> of what the sources rely on in a session, and a session
    in memory that satisfies it. DbWrapper: src/db_wrapper, the wrappers of the driver and the loop that reads rows. Environment: the configuration read by the components, the clock, the generator of UUIDs, and
    operations on a state (\<open>io\<close>), which keep the state reached when they panic. NodeConfig: src/conf/config.go, the whole configuration
    with its options, flags, environment and file, of which \<open>conf_of\<close> gives the part that components read.
  \<^item> ScheduleDao, ScheduleDaoFacts, ScheduleDaoProperties: src/dao/schedule_dao_impl.go. ClusterDao, ClusterDaoProperties:
    src/dao/cluster_dao_impl.go and src/cluster_entity. EnrichProperties: the two ways to add statuses to schedules. SchemaProperties: the
    types of src/cassandra/cassandra.cql.
  \<^item> Retrievers, RetrieverProperties: src/retrievers and src/poller; Reconciliation: bulk actions of a retriever over several pages. HttpConnector, Aggregate, CronConnector: src/connectors.
    Pipeline: HTTP, aggregation and status workers side by side, over the channels of src/store/task.go that block; its state \<open>pipe\<close> has what every
    worker holds and the buffer, its steps are the operations of HttpConnector and Aggregate.
  \<^item> Supervisor, SupervisorProperties: src/cluster. The state \<open>net\<close> is the database and, for each node, its entities, its cache of
    apps and its queues; an operation names the address of the node it runs on. TakeoverProperties: entities that change their node.
  \<^item> Service, ServiceProperties, RegistrationProperties: src/service and src/error. The state \<open>server\<close> adds to the network the UUIDs
    used so far and the queue of bulk actions; a handler is a function of what it reads of a request to an HTTP reply.
  \<^item> Server, ServerProperties, ClientProperties: src/server, the routes and middlewares, and what a client sees over HTTP.
  \<^item> Startup, StartupProperties: src/scheduler, src/run.go, src/cassandra/cassandra.go, the pools of src/connectors, the channels of
    src/store/task.go and the set-up of ringpop; the state \<open>process\<close> is the network, the registry of callbacks and the steps done so far.
  \<^item> Monitoring: src/monitoring/prometheus.go, with concurrent calls as a step relation. Metrics: the calls that the other packages make of it.

  Definitions have the names of the Go functions, with a prefix where two have the same name
  (\<open>Service_CreateSchedule\<close>, \<open>ScheduleRetriever_BulkAction\<close>); loops and branches that are shared are definitions of their own.

  \<^bold>\<open>The interfaces.\<close>
  \<^item> \<open>cron_field\<close> and its extension \<open>cron_step_field\<close>: a parser of one field of an expression, its values and names; the
    five parsers of the code are the interpretations, and the theorem about whole expressions rests on them.
  \<^item> \<open>cassandra\<close>: a call that reports no error acts on the tables as the statement says, and paging ends. The lemmas about the DAOs,
    the pollers and the workers are proved in it; the session in memory interprets it and gives the witnesses.
  \<^item> \<open>stored_callback\<close>: a callback that is stored in a row is read back; interpreted for HTTP callbacks.
  \<^item> \<open>ring\<close> and its extension \<open>forwarding_ring\<close>: nodes that agree on the owner of an entity and deliver requests to the
    handlers of the model; a network of nodes that run these handlers interprets both. \<open>moving_ring\<close> extends it by requests to stop
    an entity at a node that is not its owner, for the same network.
  \<^item> \<open>gocql_driver\<close>: what gocql documents of sessions, queries and iterators; it is a sublocale of \<open>cassandra\<close> for the session behind the wrappers,
    and interpreted by a driver in memory.
  \<^item> \<open>draining\<close>: steps of which some are moves that lower a weight, and a move is possible until all is done; every fair run then ends
    done. The workers of Pipeline interpret it.
  \<^item> \<open>faulty_cassandra\<close> extends \<open>cassandra\<close> by what a failed call may have done; interpreted by the session in memory.
  \<^item> \<open>mux_router\<close>: a router that finds the first route of a path and method; interpreted by a search of the table of routes.

  \<^bold>\<open>What is shown.\<close>
  \<^item> C1--C4, cron expressions: every documented expression is accepted and matches the times it denotes, values stay in their
    bounds, steps give the multiples, and a step of zero never returns.
  \<^item> C5, C8, C10, data: statuses are read back, the time to live, partition and minute of a new schedule; beside them, the validation of
    one time schedules.
  \<^item> C6, types: the schedule tables keep the types of the schema through any operations and failures, and no reader panics.
  \<^item> C9, the single query for the statuses of many schedules is equivalent to one query for each.
  \<^item> C11--C14, C16--C18, schedule DAO: what is created is found, pausing and updating remove the planned runs, errors
    of reading runs are lost, and the paging loops end.
  \<^item> C15, C32, monitor: concurrent calls register a metric once and count each call that ends once; the calls of the program agree on kind
    and labels of their metrics, so none is refused; beside them, the interleaving in which the second look under the lock ends in a panic.
  \<^item> C19, HTTP: a schedule that a client posts is read by its identifier until it is deleted.
  \<^item> C20, C25, moving entities: a node that boots takes its entities over, none runs twice, and the entities of a node that left are
    started by the others, reconciliation included.
  \<^item> C21--C23, cluster DAO: apps through database and cache, entity status and its history; beside them, the default apps.
  \<^item> C24, session: the driver behind the wrappers refines the session that the other components rely on.
  \<^item> C7, C26, C28, C39, workers: all workers together never block each other for good and drain their channels, and then every fired schedule has its
    outcome in the status table; at most three posts of a callback, and the results that are neither lost nor sent twice
    for any interleaving of results and ticks.
  \<^item> C27, start: a node starts in a fixed order of steps; beside it, the default configuration, which panics, and the end of a node, which
    leaves none of its entities running.
  \<^item> C29--C31, C33, polling: a poll returns and sends exactly what is due, a created schedule is fired, and the
    planning of runs, one for each matching minute however windows overlap.
  \<^item> C34--C36, supervisor: activation and deactivation place and remove the pollers; a failed request is taken for a success.
  \<^item> C37, C38, C40, service: pausing and resuming refine a state machine, bulk actions queue each minute once, and registration starts
    the pollers of an app on their owners; beside them, bulk actions without a range, which do nothing.

  \<^bold>\<open>Loops.\<close> A loop with a bound is a total function with its termination proof. A loop that may not end (the steps of a cron
  field, the pages of runs and schedules, the rows of an iterator) is a \<open>partial_function\<close> into \<open>option\<close>, and \<open>None\<close> becomes \<open>Diverge\<close>; that the
  paging loops return is proved from the laws of paging (C17, C18), that an iterator ends from the laws of the driver, and that a step of zero does not is C4. The model has no fuel; the number
  of hops of a network is any number from one, or two where a request is passed on.

  Fairness: the runs of C7 are those in which a possible move is not put off for ever by idle ticks, which the schedulers of Go and of the operating
  system provide.

  \<^bold>\<open>Not modelled.\<close> Logging; test doubles, which return constants. Calls of the monitor are left out of the other components; Metrics has
  them on their own. In Pipeline the posts of one schedule are one step, an aggregation worker fetches the apps of a tick before it sends the tasks,
  and the pollers are a list of schedules that they offer. Elsewhere channels are lists, so a full channel does not block, and the workers of a
  pool are taken one at a time. A goroutine that starts a poller is taken to have run before the next step of its supervisor, and events of the
  ring while a node starts are not interleaved with its steps. Parsing of dates and UUIDs, the merge of configurations, the reader of the
  configuration file, the HTTP client, the router, Cassandra, its driver and the ring are parameters.
\<close>

end
